(* ===== verification/Mesh_Prelude.thy ===== *)
theory Mesh_Prelude
  imports Main "HOL-Library.Word" "HOL-Library.Multiset"
begin

text \<open>
  The vocabulary the component theories share: names for Go's integer types, the outcome
  of a Go statement sequence (it returns, it panics, or its goroutine blocks on a channel),
  buffered channels and the interface their clients use, and the decimal notation of
  integers that \<open>fmt.Sprintf("%d")\<close> and \<open>net.IP.String\<close> print.
\<close>

section \<open>Go's types and outcomes\<close>

type_synonym byte = "8 word"
type_synonym bytes = "byte list"
type_synonym int32 = "32 word"
type_synonym int64 = "64 word"
type_synonym time = int  \<comment> \<open>nanoseconds; Go's monotonic clock reading\<close>

text \<open>The simplification rules for outcomes and channels, collected for the component proofs.\<close>

named_theorems go_simps
named_theorems chan_simps

datatype 'a go = Ret 'a | Panic string | Block

fun go_bind :: "'a go \<Rightarrow> ('a \<Rightarrow> 'b go) \<Rightarrow> 'b go" where
  "go_bind (Ret x) f = f x"
| "go_bind (Panic e) f = Panic e"
| "go_bind Block f = Block"

lemma go_bind_Ret_iff [go_simps]: "go_bind m f = Ret y \<longleftrightarrow> (\<exists>x. m = Ret x \<and> f x = Ret y)"
  by (cases m) auto

lemma go_bind_Panic_iff [go_simps]:
  "go_bind m f = Panic e \<longleftrightarrow> m = Panic e \<or> (\<exists>x. m = Ret x \<and> f x = Panic e)"
  by (cases m) auto

lemma go_bind_Block_iff [go_simps]:
  "go_bind m f = Block \<longleftrightarrow> m = Block \<or> (\<exists>x. m = Ret x \<and> f x = Block)"
  by (cases m) auto

lemma go_bind_assoc: "go_bind (go_bind m f) g = go_bind m (\<lambda>x. go_bind (f x) g)"
  by (cases m) auto

lemma go_bind_cong [fundef_cong]:
  "m = m' \<Longrightarrow> (\<And>x. m' = Ret x \<Longrightarrow> f x = f' x) \<Longrightarrow> go_bind m f = go_bind m' f'"
  by (cases m) auto

lemma sum_list_replicate_mempty [simp]: "sum_list (replicate n {#}) = {#}"
  by (induction n) auto

section \<open>Buffered channels\<close>

text \<open>
  \<open>make(chan T, n)\<close>: a FIFO buffer of capacity \<open>n\<close>. A plain send blocks when the buffer is
  full; a send inside \<open>select\<close> with a \<open>default\<close> branch is dropped instead; a receive blocks
  when it is empty.
\<close>

record 'a chan =
  chan_cap :: nat
  chan_buf :: "'a list"

definition make_chan :: "nat \<Rightarrow> 'a chan" where
  "make_chan n = \<lparr>chan_cap = n, chan_buf = []\<rparr>"

definition chan_full :: "'a chan \<Rightarrow> bool" where
  "chan_full c \<longleftrightarrow> chan_cap c \<le> length (chan_buf c)"

definition chan_send :: "'a chan \<Rightarrow> 'a \<Rightarrow> 'a chan go" where
  "chan_send c x = (if chan_full c then Block else Ret (c\<lparr>chan_buf := chan_buf c @ [x]\<rparr>))"

definition chan_try_send :: "'a chan \<Rightarrow> 'a \<Rightarrow> bool \<times> 'a chan" where
  "chan_try_send c x =
     (if chan_full c then (False, c) else (True, c\<lparr>chan_buf := chan_buf c @ [x]\<rparr>))"

definition chan_recv :: "'a chan \<Rightarrow> ('a \<times> 'a chan) go" where
  "chan_recv c = (case chan_buf c of [] \<Rightarrow> Block | x # xs \<Rightarrow> Ret (x, c\<lparr>chan_buf := xs\<rparr>))"

definition chan_ok :: "'a chan \<Rightarrow> bool" where
  "chan_ok c \<longleftrightarrow> length (chan_buf c) \<le> chan_cap c"

lemma chan_send_Ret_iff [chan_simps]:
  "chan_send c x = Ret c' \<longleftrightarrow> \<not> chan_full c \<and> c' = c\<lparr>chan_buf := chan_buf c @ [x]\<rparr>"
  by (auto simp: chan_send_def)

lemma chan_send_Block_iff [chan_simps]: "chan_send c x = Block \<longleftrightarrow> chan_full c"
  by (simp add: chan_send_def)

lemma chan_send_not_Panic [simp]: "chan_send c x \<noteq> Panic e"
  by (simp add: chan_send_def)

lemma chan_recv_Ret_iff [chan_simps]:
  "chan_recv c = Ret (x, c') \<longleftrightarrow> (\<exists>xs. chan_buf c = x # xs \<and> c' = c\<lparr>chan_buf := xs\<rparr>)"
  by (auto simp: chan_recv_def split: list.splits)

lemma chan_recv_Block_iff [chan_simps]: "chan_recv c = Block \<longleftrightarrow> chan_buf c = []"
  by (auto simp: chan_recv_def split: list.splits)

lemma make_chan_simps [simp]:
  "chan_buf (make_chan n) = []" "chan_cap (make_chan n) = n" "chan_ok (make_chan n)"
  "chan_full (make_chan n) \<longleftrightarrow> n = 0"
  by (simp_all add: make_chan_def chan_ok_def chan_full_def)

text \<open>
  What a client of a bounded FIFO relies on. \<open>contents\<close> is the abstraction to a list and
  \<open>room\<close> says whether one more element fits.
\<close>

locale bounded_fifo =
  fixes snd_op :: "'q \<Rightarrow> 'a \<Rightarrow> 'q go"
    and try_op :: "'q \<Rightarrow> 'a \<Rightarrow> bool \<times> 'q"
    and rcv_op :: "'q \<Rightarrow> ('a \<times> 'q) go"
    and contents :: "'q \<Rightarrow> 'a list"
    and room :: "'q \<Rightarrow> bool"
    and ok :: "'q \<Rightarrow> bool"
  assumes snd_room: "room q \<Longrightarrow> \<exists>q'. snd_op q x = Ret q' \<and> contents q' = contents q @ [x]"
    and snd_full: "\<not> room q \<Longrightarrow> snd_op q x = Block"
    and try_room: "room q \<Longrightarrow> fst (try_op q x) \<and> contents (snd (try_op q x)) = contents q @ [x]"
    and try_full: "\<not> room q \<Longrightarrow> try_op q x = (False, q)"
    and rcv_empty: "contents q = [] \<Longrightarrow> rcv_op q = Block"
    and rcv_cons: "contents q = x # xs \<Longrightarrow> \<exists>q'. rcv_op q = Ret (x, q') \<and> contents q' = xs"
    and rcv_room: "ok q \<Longrightarrow> rcv_op q = Ret (x, q') \<Longrightarrow> room q'"
    and ok_snd: "ok q \<Longrightarrow> snd_op q x = Ret q' \<Longrightarrow> ok q'"
    and ok_try: "ok q \<Longrightarrow> ok (snd (try_op q x))"
    and ok_rcv: "ok q \<Longrightarrow> rcv_op q = Ret (x, q') \<Longrightarrow> ok q'"
begin

lemma snd_contents: "snd_op q x = Ret q' \<Longrightarrow> contents q' = contents q @ [x]"
  using snd_room [of q x] snd_full [of q x] by (cases "room q") auto

lemma try_conserves:
  "mset (contents (snd (try_op q x))) = mset (contents q) + (if fst (try_op q x) then {#x#} else {#})"
  using try_room [of q x] try_full [of q x] by (cases "room q") auto

lemma try_only_grows: "contents (snd (try_op q x)) = contents q \<or>
    contents (snd (try_op q x)) = contents q @ [x]"
  using try_room [of q x] try_full [of q x] by (cases "room q") auto

lemma snd_then_rcv_empty: "contents q = [] \<Longrightarrow> snd_op q x = Ret q' \<Longrightarrow>
    \<exists>q''. rcv_op q' = Ret (x, q'') \<and> contents q'' = []"
  using snd_contents [of q x q'] rcv_cons [of q' x "[]"] by auto

lemma rcv_contents: "rcv_op q = Ret (x, q') \<Longrightarrow> contents q = x # contents q'"
proof (cases "contents q")
  case Nil
  assume "rcv_op q = Ret (x, q')"
  with rcv_empty [OF Nil] show ?thesis by simp
next
  case (Cons y ys)
  assume "rcv_op q = Ret (x, q')"
  with rcv_cons [OF Cons] Cons show ?thesis by auto
qed

text \<open>Draining a FIFO of \<open>n\<close> elements yields them in the order they were sent.\<close>

primrec drain :: "nat \<Rightarrow> 'q \<Rightarrow> ('a list \<times> 'q) go" where
  "drain 0 q = Ret ([], q)"
| "drain (Suc n) q = go_bind (rcv_op q) (\<lambda>(x, q'). go_bind (drain n q') (\<lambda>(xs, q''). Ret (x # xs, q'')))"

lemma drain_all: "\<exists>q'. drain (length (contents q)) q = Ret (contents q, q') \<and> contents q' = []"
proof (induction "contents q" arbitrary: q)
  case Nil
  then show ?case by simp
next
  case (Cons x xs)
  from rcv_cons [OF Cons.hyps(2) [symmetric]]
  obtain q1 where q1: "rcv_op q = Ret (x, q1)" "contents q1 = xs" by blast
  with Cons.hyps(1) [of q1] obtain q2 where "drain (length xs) q1 = Ret (xs, q2)" "contents q2 = []"
    by auto
  with q1 Cons.hyps(2) [symmetric] show ?case by simp
qed

end

interpretation gochan: bounded_fifo chan_send chan_try_send chan_recv chan_buf
  "\<lambda>c. \<not> chan_full c" chan_ok
  by unfold_locales
     (auto simp: chan_send_def chan_try_send_def chan_recv_def chan_full_def chan_ok_def
       split: list.splits if_splits)

end
