(* ===== verification/Message.thy ===== *)
theory Message
  imports Mesh_Prelude
begin

text \<open>
  Package \<open>message\<close> (\<open>message/api.pb.go\<close>): the packet types and status codes of the wire
  protocol, the six control messages with their \<open>Reset\<close> methods and nil-safe getters, and
  the interface value \<open>proto.Message\<close> that holds any of them. The bookkeeping fields of the
  protobuf runtime (\<open>state\<close>, \<open>sizeCache\<close>, \<open>unknownFields\<close>), which no code of the repository
  reads, are left out; the registration with the runtime is in theory \<open>Descriptor\<close>. Lemmas: the name and value tables of the two enums are inverse to each
  other, and \<open>Reset\<close> keeps the dynamic type of a message.
\<close>

section \<open>Enums\<close>

type_synonym PacketType = int32

definition PacketType_Heartbeat :: PacketType where "PacketType_Heartbeat = 0"
definition PacketType_Relay :: PacketType where "PacketType_Relay = 1"
definition PacketType_OpenTunnel :: PacketType where "PacketType_OpenTunnel = 2"
definition PacketType_OpenTunnelAck :: PacketType where "PacketType_OpenTunnelAck = 3"
definition PacketType_Ping :: PacketType where "PacketType_Ping = 4"
definition PacketType_Pong :: PacketType where "PacketType_Pong = 5"
definition PacketType_Data :: PacketType where "PacketType_Data = 6"

lemmas PacketType_defs =
  PacketType_Heartbeat_def PacketType_Relay_def PacketType_OpenTunnel_def
  PacketType_OpenTunnelAck_def PacketType_Ping_def PacketType_Pong_def PacketType_Data_def

definition PacketType_name :: "int32 \<rightharpoonup> string" where
  "PacketType_name = map_of
     [(0, ''Heartbeat''), (1, ''Relay''), (2, ''OpenTunnel''), (3, ''OpenTunnelAck''),
      (4, ''Ping''), (5, ''Pong''), (6, ''Data'')]"

definition PacketType_value :: "string \<rightharpoonup> int32" where
  "PacketType_value = map_of
     [(''Heartbeat'', 0), (''Relay'', 1), (''OpenTunnel'', 2), (''OpenTunnelAck'', 3),
      (''Ping'', 4), (''Pong'', 5), (''Data'', 6)]"

type_synonym StatusCode = int32

definition StatusCode_Success :: StatusCode where "StatusCode_Success = 0"
definition StatusCode_ServerInternal :: StatusCode where "StatusCode_ServerInternal = 1"
definition StatusCode_InvalidVersion :: StatusCode where "StatusCode_InvalidVersion = 2"
definition StatusCode_AddConflicted :: StatusCode where "StatusCode_AddConflicted = 3"
definition StatusCode_VersionTooOld :: StatusCode where "StatusCode_VersionTooOld = 4"
definition StatusCode_KeyNotMatched :: StatusCode where "StatusCode_KeyNotMatched = 5"

lemmas StatusCode_defs =
  StatusCode_Success_def StatusCode_ServerInternal_def StatusCode_InvalidVersion_def
  StatusCode_AddConflicted_def StatusCode_VersionTooOld_def StatusCode_KeyNotMatched_def

definition StatusCode_name :: "int32 \<rightharpoonup> string" where
  "StatusCode_name = map_of
     [(0, ''Success''), (1, ''ServerInternal''), (2, ''InvalidVersion''),
      (3, ''AddConflicted''), (4, ''VersionTooOld''), (5, ''KeyNotMatched'')]"

definition StatusCode_value :: "string \<rightharpoonup> int32" where
  "StatusCode_value = map_of
     [(''Success'', 0), (''ServerInternal'', 1), (''InvalidVersion'', 2),
      (''AddConflicted'', 3), (''VersionTooOld'', 4), (''KeyNotMatched'', 5)]"

section \<open>Control messages\<close>

record CtrlHeartbeat =
  heartbeat_VirtAddress :: string

record CtrlPing =
  ping_VirtAddress :: string
  ping_Nonce :: string

record CtrlPong =
  pong_VirtAddress :: string
  pong_Nonce :: string

record CtrlOpenTunnel =
  tunnel_AckId :: int64
  tunnel_VirtAddress :: string
  tunnel_UdpAddress :: string

record CtrlOpenTunnelAck =
  ack_AckId :: int64

record CtrlRelay =
  relay_VirtAddress :: string
  relay_Data :: bytes

text \<open>\<open>Reset\<close>: the message becomes the zero value of its struct.\<close>

definition CtrlHeartbeat_Reset :: "CtrlHeartbeat \<Rightarrow> CtrlHeartbeat" where
  "CtrlHeartbeat_Reset x = \<lparr>heartbeat_VirtAddress = ''''\<rparr>"

definition CtrlPing_Reset :: "CtrlPing \<Rightarrow> CtrlPing" where
  "CtrlPing_Reset x = \<lparr>ping_VirtAddress = '''', ping_Nonce = ''''\<rparr>"

definition CtrlPong_Reset :: "CtrlPong \<Rightarrow> CtrlPong" where
  "CtrlPong_Reset x = \<lparr>pong_VirtAddress = '''', pong_Nonce = ''''\<rparr>"

definition CtrlOpenTunnel_Reset :: "CtrlOpenTunnel \<Rightarrow> CtrlOpenTunnel" where
  "CtrlOpenTunnel_Reset x = \<lparr>tunnel_AckId = 0, tunnel_VirtAddress = '''', tunnel_UdpAddress = ''''\<rparr>"

definition CtrlOpenTunnelAck_Reset :: "CtrlOpenTunnelAck \<Rightarrow> CtrlOpenTunnelAck" where
  "CtrlOpenTunnelAck_Reset x = \<lparr>ack_AckId = 0\<rparr>"

definition CtrlRelay_Reset :: "CtrlRelay \<Rightarrow> CtrlRelay" where
  "CtrlRelay_Reset x = \<lparr>relay_VirtAddress = '''', relay_Data = []\<rparr>"

lemmas Reset_defs =
  CtrlHeartbeat_Reset_def CtrlPing_Reset_def CtrlPong_Reset_def CtrlOpenTunnel_Reset_def
  CtrlOpenTunnelAck_Reset_def CtrlRelay_Reset_def

text \<open>The getters take a pointer that may be nil (\<open>None\<close>) and then return the zero value.\<close>

definition CtrlHeartbeat_GetVirtAddress :: "CtrlHeartbeat option \<Rightarrow> string" where
  "CtrlHeartbeat_GetVirtAddress x = (case x of Some m \<Rightarrow> heartbeat_VirtAddress m | None \<Rightarrow> '''')"

definition CtrlPing_GetVirtAddress :: "CtrlPing option \<Rightarrow> string" where
  "CtrlPing_GetVirtAddress x = (case x of Some m \<Rightarrow> ping_VirtAddress m | None \<Rightarrow> '''')"

definition CtrlPing_GetNonce :: "CtrlPing option \<Rightarrow> string" where
  "CtrlPing_GetNonce x = (case x of Some m \<Rightarrow> ping_Nonce m | None \<Rightarrow> '''')"

definition CtrlPong_GetVirtAddress :: "CtrlPong option \<Rightarrow> string" where
  "CtrlPong_GetVirtAddress x = (case x of Some m \<Rightarrow> pong_VirtAddress m | None \<Rightarrow> '''')"

definition CtrlPong_GetNonce :: "CtrlPong option \<Rightarrow> string" where
  "CtrlPong_GetNonce x = (case x of Some m \<Rightarrow> pong_Nonce m | None \<Rightarrow> '''')"

definition CtrlOpenTunnel_GetAckId :: "CtrlOpenTunnel option \<Rightarrow> int64" where
  "CtrlOpenTunnel_GetAckId x = (case x of Some m \<Rightarrow> tunnel_AckId m | None \<Rightarrow> 0)"

definition CtrlOpenTunnel_GetVirtAddress :: "CtrlOpenTunnel option \<Rightarrow> string" where
  "CtrlOpenTunnel_GetVirtAddress x = (case x of Some m \<Rightarrow> tunnel_VirtAddress m | None \<Rightarrow> '''')"

definition CtrlOpenTunnel_GetUdpAddress :: "CtrlOpenTunnel option \<Rightarrow> string" where
  "CtrlOpenTunnel_GetUdpAddress x = (case x of Some m \<Rightarrow> tunnel_UdpAddress m | None \<Rightarrow> '''')"

definition CtrlOpenTunnelAck_GetAckId :: "CtrlOpenTunnelAck option \<Rightarrow> int64" where
  "CtrlOpenTunnelAck_GetAckId x = (case x of Some m \<Rightarrow> ack_AckId m | None \<Rightarrow> 0)"

definition CtrlRelay_GetVirtAddress :: "CtrlRelay option \<Rightarrow> string" where
  "CtrlRelay_GetVirtAddress x = (case x of Some m \<Rightarrow> relay_VirtAddress m | None \<Rightarrow> '''')"

definition CtrlRelay_GetData :: "CtrlRelay option \<Rightarrow> bytes" where
  "CtrlRelay_GetData x = (case x of Some m \<Rightarrow> relay_Data m | None \<Rightarrow> [])"

section \<open>The interface value \<open>proto.Message\<close>\<close>

datatype proto_message =
    MHeartbeat CtrlHeartbeat
  | MPing CtrlPing
  | MPong CtrlPong
  | MOpenTunnel CtrlOpenTunnel
  | MOpenTunnelAck CtrlOpenTunnelAck
  | MRelay CtrlRelay

text \<open>The dynamic dispatch of \<open>Reset\<close> through the interface.\<close>

fun proto_Reset :: "proto_message \<Rightarrow> proto_message" where
  "proto_Reset (MHeartbeat x) = MHeartbeat (CtrlHeartbeat_Reset x)"
| "proto_Reset (MPing x) = MPing (CtrlPing_Reset x)"
| "proto_Reset (MPong x) = MPong (CtrlPong_Reset x)"
| "proto_Reset (MOpenTunnel x) = MOpenTunnel (CtrlOpenTunnel_Reset x)"
| "proto_Reset (MOpenTunnelAck x) = MOpenTunnelAck (CtrlOpenTunnelAck_Reset x)"
| "proto_Reset (MRelay x) = MRelay (CtrlRelay_Reset x)"

fun same_type :: "proto_message \<Rightarrow> proto_message \<Rightarrow> bool" where
  "same_type (MHeartbeat _) (MHeartbeat _) = True"
| "same_type (MPing _) (MPing _) = True"
| "same_type (MPong _) (MPong _) = True"
| "same_type (MOpenTunnel _) (MOpenTunnel _) = True"
| "same_type (MOpenTunnelAck _) (MOpenTunnelAck _) = True"
| "same_type (MRelay _) (MRelay _) = True"
| "same_type _ _ = False"

lemma same_type_simps [simp]:
  "same_type (MHeartbeat x) m \<longleftrightarrow> (\<exists>y. m = MHeartbeat y)"
  "same_type (MPing p) m \<longleftrightarrow> (\<exists>y. m = MPing y)"
  "same_type (MPong q) m \<longleftrightarrow> (\<exists>y. m = MPong y)"
  "same_type (MOpenTunnel t) m \<longleftrightarrow> (\<exists>y. m = MOpenTunnel y)"
  "same_type (MOpenTunnelAck a) m \<longleftrightarrow> (\<exists>y. m = MOpenTunnelAck y)"
  "same_type (MRelay r) m \<longleftrightarrow> (\<exists>y. m = MRelay y)"
  by (cases m; simp)+

lemma same_type_Reset [simp]: "same_type m (proto_Reset m)"
  by (cases m) auto

text \<open>The zero message depends on the dynamic type alone.\<close>

lemma Reset_same_type: "same_type m m' \<Longrightarrow> proto_Reset m = proto_Reset m'"
  by (cases m) (auto simp: Reset_defs)

lemma Reset_idem [simp]: "proto_Reset (proto_Reset m) = proto_Reset m"
  by (cases m) (auto simp: Reset_defs)

section \<open>The enum tables\<close>

text \<open>A table with distinct names and distinct values is inverted by swapping its columns.\<close>

lemma map_of_swap:
  assumes "distinct (map fst ps)" and "distinct (map snd ps)"
  shows "map_of ps k = Some v \<longleftrightarrow> map_of (map prod.swap ps) v = Some k"
proof -
  have "distinct (map fst (map prod.swap ps))" using assms(2) by (simp add: comp_def)
  then show ?thesis using assms(1) by (auto simp: map_of_eq_Some_iff)
qed

lemma PacketType_tables: "PacketType_name t = Some s \<longleftrightarrow> PacketType_value s = Some t"
  unfolding PacketType_name_def PacketType_value_def
  by (subst map_of_swap) simp_all

lemma StatusCode_tables: "StatusCode_name c = Some s \<longleftrightarrow> StatusCode_value s = Some c"
  unfolding StatusCode_name_def StatusCode_value_def
  by (subst map_of_swap) simp_all


text \<open>
  The enum tables of the generated code are inverse to each other: a number has a name exactly
  when that name has this number, for packet types and for status codes; and the names are the
  seven and six the protocol declares.
\<close>

theorem enum_tables_inverse:
  "(PacketType_name t = Some s \<longleftrightarrow> PacketType_value s = Some t) \<and>
   (StatusCode_name c = Some s' \<longleftrightarrow> StatusCode_value s' = Some c) \<and>
   card (dom PacketType_name) = 7 \<and> card (dom StatusCode_name) = 6"
proof -
  have "dom PacketType_name = {0, 1, 2, 3, 4, 5, 6}" "dom StatusCode_name = {0, 1, 2, 3, 4, 5}"
    by (auto simp: PacketType_name_def StatusCode_name_def PacketType_defs StatusCode_defs split: if_splits)
  then show ?thesis using PacketType_tables StatusCode_tables by simp
qed

end
