(* ===== verification/Go_Text.thy ===== *)
theory Go_Text
  imports Mesh_Prelude
begin

text \<open>
  The part of Go's standard library that turns integers and IP addresses into text and back:
  \<open>%d\<close> of \<open>fmt\<close>, and \<open>ParseIP\<close>, \<open>Mask\<close>, \<open>Equal\<close> and \<open>String\<close> of \<open>net.IP\<close> as the sources use
  them (release 1.14 of \<open>go.mod\<close>, where \<open>ParseIP\<close> still accepts leading zeros). The lemmas
  show that printing loses nothing: decimal notation is injective and the dotted form of an
  IPv4 address parses back to it. The validity of UTF-8 (package \<open>unicode/utf8\<close>), which the
  protobuf library asks of every string field, closes the theory.
\<close>

unbundle bit_operations_syntax

section \<open>Decimal notation\<close>

definition digit_char :: "nat \<Rightarrow> char" where
  "digit_char d = char_of (48 + d)"

definition digit_val :: "char \<Rightarrow> nat" where
  "digit_val c = of_char c - 48"

definition is_digit :: "char \<Rightarrow> bool" where
  "is_digit c \<longleftrightarrow> 48 \<le> (of_char c :: nat) \<and> (of_char c :: nat) \<le> 57"

fun dec_nat :: "nat \<Rightarrow> string" where
  "dec_nat n = (if n < 10 then [digit_char n] else dec_nat (n div 10) @ [digit_char (n mod 10)])"

definition dec_int :: "int \<Rightarrow> string" where
  "dec_int i = (if i < 0 then CHR ''-'' # dec_nat (nat (- i)) else dec_nat (nat i))"

declare dec_nat.simps [simp del]

lemma digit_char_props [simp]:
  assumes "d < 10"
  shows "is_digit (digit_char d)" and "digit_val (digit_char d) = d"
  using assms by (simp_all add: is_digit_def digit_val_def digit_char_def of_char_of)

lemma dec_nat_digits: "c \<in> set (dec_nat n) \<Longrightarrow> is_digit c"
proof (induction n rule: dec_nat.induct)
  case (1 n)
  then show ?case by (cases "n < 10") (auto simp: dec_nat.simps [of n])
qed

lemma dec_nat_not_Nil [simp]: "dec_nat n \<noteq> []"
  by (subst dec_nat.simps) simp

definition dec_value :: "string \<Rightarrow> nat" where
  "dec_value s = foldl (\<lambda>n c. n * 10 + digit_val c) 0 s"

lemma dec_value_dec_nat [simp]: "dec_value (dec_nat n) = n"
proof (induction n rule: dec_nat.induct)
  case (1 n)
  show ?case
  proof (cases "n < 10")
    case True
    then show ?thesis by (simp add: dec_nat.simps [of n] dec_value_def)
  next
    case False
    with 1 have "dec_value (dec_nat (n div 10)) = n div 10" by simp
    with False show ?thesis by (simp add: dec_nat.simps [of n] dec_value_def)
  qed
qed

lemma dec_nat_inject [simp]: "dec_nat m = dec_nat n \<longleftrightarrow> m = n"
  by (metis dec_value_dec_nat)

lemma is_digit_not_sep: "\<not> is_digit (CHR ''-'')" "\<not> is_digit (CHR ''.'')" "\<not> is_digit (CHR '':'')"
  by (simp_all add: is_digit_def)

lemma dec_nat_no_minus: "dec_nat n \<noteq> CHR ''-'' # s"
proof
  assume "dec_nat n = CHR ''-'' # s"
  then have "is_digit (CHR ''-'')" using dec_nat_digits [of "CHR ''-''" n] by simp
  then show False by (simp add: is_digit_not_sep)
qed

lemma dec_int_inject [simp]: "dec_int i = dec_int j \<longleftrightarrow> i = j"
  by (auto simp: dec_int_def dec_nat_no_minus dec_nat_no_minus [symmetric] eq_nat_nat_iff)

lemma dec_int_no_dot: "CHR ''.'' \<notin> set (dec_int i)"
  using dec_nat_digits is_digit_not_sep by (auto simp: dec_int_def)

text \<open>Two texts joined by a separator that neither left part contains split uniquely.\<close>

lemma sep_append_inject:
  assumes "c \<notin> set xs" and "c \<notin> set ys" and "xs @ c # us = ys @ c # vs"
  shows "xs = ys \<and> us = vs"
  using assms
proof (induction xs arbitrary: ys)
  case Nil
  then show ?case by (cases ys) auto
next
  case (Cons x xs)
  then show ?case by (cases ys) auto
qed

section \<open>Reading a decimal number\<close>

text \<open>\<open>dtoi\<close> of package \<open>net\<close>: the digits at the front, failing at \<open>0xFFFFFF\<close> and on no digit.\<close>

fun dtoi_loop :: "nat \<Rightarrow> string \<Rightarrow> (nat \<times> string) option" where
  "dtoi_loop n [] = Some (n, [])"
| "dtoi_loop n (c # cs) =
     (if is_digit c
      then let n' = n * 10 + digit_val c in if 16777215 \<le> n' then None else dtoi_loop n' cs
      else Some (n, c # cs))"

definition dtoi :: "string \<Rightarrow> (nat \<times> string) option" where
  "dtoi s = (case s of [] \<Rightarrow> None | c # _ \<Rightarrow> if is_digit c then dtoi_loop 0 s else None)"

lemma dtoi_loop_dec_nat: "n < 16777215 \<Longrightarrow> dtoi_loop 0 (dec_nat n @ s) = dtoi_loop n s"
proof (induction n arbitrary: s rule: dec_nat.induct)
  case (1 n)
  show ?case
  proof (cases "n < 10")
    case True
    then show ?thesis by (simp add: dec_nat.simps [of n])
  next
    case False
    with 1 have "dtoi_loop 0 (dec_nat (n div 10) @ t) = dtoi_loop (n div 10) t" for t
      by simp
    with False "1.prems" show ?thesis by (simp add: dec_nat.simps [of n])
  qed
qed

definition digit_free_front :: "string \<Rightarrow> bool" where
  "digit_free_front s \<longleftrightarrow> (case s of [] \<Rightarrow> True | c # _ \<Rightarrow> \<not> is_digit c)"

lemma dtoi_dec_nat [simp]:
  assumes "n < 16777215" and "digit_free_front s"
  shows "dtoi (dec_nat n @ s) = Some (n, s)"
proof -
  obtain c cs where dc: "dec_nat n = c # cs" by (cases "dec_nat n") auto
  then have "is_digit c" using dec_nat_digits [of c n] by simp
  with dc have "dtoi (dec_nat n @ s) = dtoi_loop 0 (dec_nat n @ s)" by (simp add: dtoi_def)
  also have "\<dots> = dtoi_loop n s" using assms(1) by (rule dtoi_loop_dec_nat)
  also have "\<dots> = Some (n, s)" using assms(2) by (cases s) (auto simp: digit_free_front_def)
  finally show ?thesis .
qed

section \<open>IP addresses\<close>

text \<open>\<open>net.IP\<close> is a byte slice of length 4 or 16; the empty list is \<open>nil\<close>.\<close>

type_synonym ip = bytes

definition v4InV6Prefix :: ip where
  "v4InV6Prefix = replicate 10 0 @ [255, 255]"

fun parseIPv4_loop :: "nat \<Rightarrow> bool \<Rightarrow> string \<Rightarrow> (bytes \<times> string) option" where
  "parseIPv4_loop 0 first s = Some ([], s)"
| "parseIPv4_loop (Suc k) first s =
     (case (if s = [] then None
            else if first then Some s
            else if hd s = CHR ''.'' then Some (tl s) else None) of
        None \<Rightarrow> None
      | Some s' \<Rightarrow>
          (case dtoi s' of None \<Rightarrow> None
           | Some (n, r) \<Rightarrow>
               if 255 < n then None
               else (case parseIPv4_loop k False r of None \<Rightarrow> None
                     | Some (bs, r') \<Rightarrow> Some (of_nat n # bs, r'))))"

definition parseIPv4 :: "string \<Rightarrow> ip" where
  "parseIPv4 s =
     (case parseIPv4_loop 4 True s of Some (bs, []) \<Rightarrow> v4InV6Prefix @ bs | _ \<Rightarrow> [])"

definition hex_val :: "char \<Rightarrow> nat option" where
  "hex_val c = (let n = of_char c in
     if is_digit c then Some (n - 48)
     else if 97 \<le> n \<and> n \<le> 102 then Some (n - 87)
     else if 65 \<le> n \<and> n \<le> 70 then Some (n - 55)
     else None)"

fun xtoi_loop :: "nat \<Rightarrow> string \<Rightarrow> (nat \<times> string) option" where
  "xtoi_loop n [] = Some (n, [])"
| "xtoi_loop n (c # cs) =
     (case hex_val c of None \<Rightarrow> Some (n, c # cs)
      | Some h \<Rightarrow> let n' = n * 16 + h in if 16777215 \<le> n' then None else xtoi_loop n' cs)"

definition xtoi :: "string \<Rightarrow> (nat \<times> string) option" where
  "xtoi s = (case s of [] \<Rightarrow> None | c # _ \<Rightarrow> if hex_val c = None then None else xtoi_loop 0 s)"

text \<open>
  The loop of \<open>parseIPv6\<close>: \<open>acc\<close> holds the bytes written so far (its length is Go's \<open>i\<close>),
  \<open>ell\<close> the position of the double colon. \<open>None\<close> is the early \<open>return nil\<close>.
\<close>

function parseIPv6_loop :: "ip \<Rightarrow> nat option \<Rightarrow> string \<Rightarrow> (ip \<times> nat option \<times> string) option" where
  "parseIPv6_loop acc ell s =
     (if 16 \<le> length acc then Some (acc, ell, s)
      else case xtoi s of None \<Rightarrow> None
      | Some (n, r) \<Rightarrow>
        if 65535 < n then None
        else if r \<noteq> [] \<and> hd r = CHR ''.'' then
          (if ell = None \<and> length acc \<noteq> 12 then None
           else if 16 < length acc + 4 then None
           else if parseIPv4 s = [] then None
           else Some (acc @ drop 12 (parseIPv4 s), ell, []))
        else
          (let acc' = acc @ [of_nat (n div 256), of_nat n] in
           case r of [] \<Rightarrow> Some (acc', ell, [])
           | c # r' \<Rightarrow>
             if c \<noteq> CHR '':'' then None
             else (case r' of [] \<Rightarrow> None
              | c' # r'' \<Rightarrow>
                if c' = CHR '':'' then
                  (if ell \<noteq> None then None
                   else if r'' = [] then Some (acc', Some (length acc'), [])
                   else parseIPv6_loop acc' (Some (length acc')) r'')
                else parseIPv6_loop acc' ell r')))"
  by pat_completeness auto
termination
  by (relation "measure (\<lambda>(acc, ell, s). 16 - length acc)") auto

declare parseIPv6_loop.simps [simp del]

definition parseIPv6 :: "string \<Rightarrow> ip" where
  "parseIPv6 s =
     (let dbl = take 2 s = ''::'';
          s' = if dbl then drop 2 s else s
      in if dbl \<and> s' = [] then replicate 16 0
         else case parseIPv6_loop [] (if dbl then Some 0 else None) s' of
           None \<Rightarrow> []
         | Some (acc, ell, r) \<Rightarrow>
             if r \<noteq> [] then []
             else if length acc < 16 then
               (case ell of None \<Rightarrow> []
                | Some e \<Rightarrow> take e acc @ replicate (16 - length acc) 0 @ drop e acc)
             else (case ell of None \<Rightarrow> acc | Some _ \<Rightarrow> []))"

fun ParseIP_scan :: "string \<Rightarrow> string \<Rightarrow> ip" where
  "ParseIP_scan s [] = []"
| "ParseIP_scan s (c # cs) =
     (if c = CHR ''.'' then parseIPv4 s
      else if c = CHR '':'' then parseIPv6 s
      else ParseIP_scan s cs)"

definition ParseIP :: "string \<Rightarrow> ip" where
  "ParseIP s = ParseIP_scan s s"

definition IP_Mask :: "ip \<Rightarrow> bytes \<Rightarrow> ip" where
  "IP_Mask a m =
     (let m' = (if length m = 16 \<and> length a = 4 \<and> take 12 m = replicate 12 255 then drop 12 m else m);
          a' = (if length m' = 4 \<and> length a = 16 \<and> take 12 a = v4InV6Prefix then drop 12 a else a)
      in if length a' \<noteq> length m' then [] else map2 (AND) a' m')"

definition IP_Equal :: "ip \<Rightarrow> ip \<Rightarrow> bool" where
  "IP_Equal a x \<longleftrightarrow>
     (if length a = length x then a = x
      else if length a = 4 \<and> length x = 16 then take 12 x = v4InV6Prefix \<and> a = drop 12 x
      else if length a = 16 \<and> length x = 4 then take 12 a = v4InV6Prefix \<and> drop 12 a = x
      else False)"

text \<open>
  \<open>IP.String\<close> of the addresses the program prints: IPv4 in its 4- or 16-byte form, and
  \<open>nil\<close>. \<open>None\<close> stands for the textual form of an IPv6 address, which no caller prints.
\<close>

definition dotted :: "ip \<Rightarrow> string" where
  "dotted a = dec_nat (unat (a ! 0)) @ CHR ''.'' # dec_nat (unat (a ! 1)) @ CHR ''.'' #
     dec_nat (unat (a ! 2)) @ CHR ''.'' # dec_nat (unat (a ! 3))"

definition IP_String :: "ip \<Rightarrow> string option" where
  "IP_String a =
     (if a = [] then Some ''<nil>''
      else if length a = 4 then Some (dotted a)
      else if length a = 16 \<and> take 12 a = v4InV6Prefix then Some (dotted (drop 12 a))
      else None)"

subsection \<open>Round trip of the dotted form\<close>

lemma byte_lt_256: "unat (b :: byte) < 256"
  using unsigned_less [of b] by simp

lemma dtoi_dec_byte [simp]:
  "digit_free_front s \<Longrightarrow> dtoi (dec_nat (unat (b :: byte)) @ s) = Some (unat b, s)"
  using byte_lt_256 [of b] by simp

lemma digit_free_front_simps [simp]:
  "digit_free_front []" "digit_free_front (CHR ''.'' # s)"
  by (simp_all add: digit_free_front_def is_digit_not_sep)

lemma byte_small [simp]: "\<not> 255 < unat (b :: byte)"
  using byte_lt_256 [of b] by simp

lemma byte_of_unat [simp]: "of_nat (unat b) = (b :: byte)"
  by (simp add: of_nat_unat ucast_id)

lemma parseIPv4_loop_dec [simp]:
  assumes "digit_free_front s"
  shows "parseIPv4_loop (Suc k) True (dec_nat (unat b) @ s) =
      (case parseIPv4_loop k False s of None \<Rightarrow> None | Some (bs, r) \<Rightarrow> Some (b # bs, r))"
    and "parseIPv4_loop (Suc k) False (CHR ''.'' # dec_nat (unat b) @ s) =
      (case parseIPv4_loop k False s of None \<Rightarrow> None | Some (bs, r) \<Rightarrow> Some (b # bs, r))"
  using assms by (simp_all split: option.splits)

lemma parseIPv4_dotted:
  assumes "length a = 4"
  shows "parseIPv4 (dotted a) = v4InV6Prefix @ a"
proof -
  from assms obtain b0 b1 b2 b3 where a: "a = [b0, b1, b2, b3]"
    by (auto simp: numeral_eq_Suc length_Suc_conv)
  have four: "(4::nat) = Suc (Suc (Suc (Suc 0)))" by simp
  have last: "dtoi (dec_nat (unat b3)) = Some (unat b3, [])"
    using dtoi_dec_byte [of "[]" b3] by simp
  then have "parseIPv4_loop 4 True (dotted a) = Some (a, [])"
    unfolding four dotted_def a by simp
  then show ?thesis by (simp add: parseIPv4_def)
qed

lemma ParseIP_scan_skip:
  "CHR ''.'' \<notin> set xs \<Longrightarrow> CHR '':'' \<notin> set xs \<Longrightarrow>
    ParseIP_scan s (xs @ CHR ''.'' # ys) = parseIPv4 s"
  by (induction xs) auto

lemma ParseIP_dotted:
  assumes "length a = 4"
  shows "ParseIP (dotted a) = v4InV6Prefix @ a"
proof -
  have "CHR ''.'' \<notin> set (dec_nat (unat (a ! 0)))" "CHR '':'' \<notin> set (dec_nat (unat (a ! 0)))"
    using dec_nat_digits is_digit_not_sep by blast+
  then have "ParseIP (dotted a) = parseIPv4 (dotted a)"
    unfolding ParseIP_def by (subst (2) dotted_def) (rule ParseIP_scan_skip)
  then show ?thesis by (simp add: parseIPv4_dotted assms)
qed

lemma dotted_inject:
  assumes "length a = 4" and "length b = 4"
  shows "dotted a = dotted b \<longleftrightarrow> a = b"
proof
  assume "dotted a = dotted b"
  then have "v4InV6Prefix @ a = v4InV6Prefix @ b"
    using ParseIP_dotted [OF assms(1)] ParseIP_dotted [OF assms(2)] by metis
  then show "a = b" by simp
qed simp

lemma length_v4InV6Prefix [simp]: "length v4InV6Prefix = 12"
  by (simp add: v4InV6Prefix_def)

text \<open>The mask of the node, \<open>255.255.0.0\<close>, keeps the first two bytes of an IPv4 address.\<close>

lemma minus_1_byte: "- 1 = (255 :: byte)"
  by simp

lemma IP_Mask_16:
  "IP_Mask [b0, b1, b2, b3] [255, 255, 0, 0] = [b0, b1, 0, 0]"
proof -
  have ff: "x AND 255 = x" for x :: byte
    using word_and_max [of x] by (simp flip: minus_1_byte)
  show ?thesis by (simp add: IP_Mask_def ff)
qed

lemma IP_Mask_mapped:
  "length a = 4 \<Longrightarrow> length m = 4 \<Longrightarrow> IP_Mask (v4InV6Prefix @ a) m = IP_Mask a m"
  by (simp add: IP_Mask_def)

section \<open>UTF-8\<close>

text \<open>
  \<open>utf8.ValidString\<close>: a string is a sequence of bytes, and the first byte of a sequence fixes its
  length and the range of its second byte (no overlong forms, no surrogates, nothing above
  \<open>U+10FFFF\<close>). Decimal notation and dotted addresses are ASCII, hence valid.
\<close>

definition utf8_cont :: "char \<Rightarrow> bool" where
  "utf8_cont c \<longleftrightarrow> 0x80 \<le> (of_char c :: nat) \<and> (of_char c :: nat) \<le> 0xBF"

definition utf8_second :: "nat \<Rightarrow> char \<Rightarrow> bool" where
  "utf8_second x c \<longleftrightarrow>
     (if x = 0xE0 then 0xA0 else if x = 0xF0 then 0x90 else 0x80) \<le> (of_char c :: nat) \<and>
     (of_char c :: nat) \<le> (if x = 0xED then 0x9F else if x = 0xF4 then 0x8F else 0xBF)"

fun ValidString :: "string \<Rightarrow> bool" where
  "ValidString [] = True"
| "ValidString (a # s) =
     (let x = of_char a :: nat in
      if x < 0x80 then ValidString s
      else if x < 0xC2 then False
      else if x \<le> 0xDF then (case s of b # s' \<Rightarrow> utf8_second x b \<and> ValidString s' | _ \<Rightarrow> False)
      else if x \<le> 0xEF then
        (case s of b # c # s' \<Rightarrow> utf8_second x b \<and> utf8_cont c \<and> ValidString s' | _ \<Rightarrow> False)
      else if x \<le> 0xF4 then
        (case s of b # c # d # s' \<Rightarrow> utf8_second x b \<and> utf8_cont c \<and> utf8_cont d \<and> ValidString s' | _ \<Rightarrow> False)
      else False)"

definition ascii :: "string \<Rightarrow> bool" where
  "ascii s \<longleftrightarrow> (\<forall>c \<in> set s. (of_char c :: nat) < 0x80)"

lemma ascii_simps [simp]:
  "ascii []" "ascii (c # s) \<longleftrightarrow> (of_char c :: nat) < 0x80 \<and> ascii s" "ascii (s @ t) \<longleftrightarrow> ascii s \<and> ascii t"
  by (auto simp: ascii_def)

lemma ascii_ValidString: "ascii s \<Longrightarrow> ValidString s"
  by (induction s) auto

lemma ascii_dec_nat [simp]: "ascii (dec_nat n)"
  using dec_nat_digits by (fastforce simp: ascii_def is_digit_def)

text \<open>The length of a Go string is an \<open>int\<close>; \<open>utf8_string\<close> is a string a Go variable holds in valid UTF-8.\<close>

definition utf8_string :: "string \<Rightarrow> bool" where
  "utf8_string s \<longleftrightarrow> ValidString s \<and> length s < 2 ^ 63"

lemma utf8_string_ascii: "ascii s \<Longrightarrow> length s < 2 ^ 63 \<Longrightarrow> utf8_string s"
  by (simp add: utf8_string_def ascii_ValidString)

lemma length_dec_nat: "n < 10 ^ Suc k \<Longrightarrow> length (dec_nat n) \<le> Suc k"
proof (induction k arbitrary: n)
  case 0
  then show ?case by (simp add: dec_nat.simps [of n])
next
  case (Suc k)
  then have "n div 10 < 10 ^ Suc k" by (simp add: div_less_iff_less_mult)
  with Suc.IH show ?case by (simp add: dec_nat.simps [of n])
qed

lemma length_dec_byte: "length (dec_nat (unat (b :: byte))) \<le> 3"
  using length_dec_nat [of "unat b" 2] byte_lt_256 [of b] by simp

lemma length_dotted: "length (dotted a) \<le> 15"
  using length_dec_byte [of "a ! 0"] length_dec_byte [of "a ! 1"] length_dec_byte [of "a ! 2"] length_dec_byte [of "a ! 3"]
  by (simp add: dotted_def)

lemma utf8_string_dotted [simp]: "utf8_string (dotted a)"
  by (rule utf8_string_ascii) (use length_dotted [of a] in \<open>simp_all add: dotted_def\<close>)

end
