(* ===== verification/Codec.thy ===== *)
theory Codec
  imports Message Go_Text
begin

text \<open>
  Package \<open>codec\<close> (\<open>codec/codec.go\<close>): a datagram is one type byte followed by the payload.
  The protobuf library itself is not part of the repository: \<open>proto.Marshal\<close> and
  \<open>proto.Unmarshal\<close> (and the enum printer used in error texts) are the fields of a
  \<open>proto_lib\<close>, and what the program relies on is
  named by the predicates \<open>proto_typed\<close> (unmarshalling fills the object it was given, so the
  dynamic type stays) and \<open>proto_roundtrip\<close> (unmarshalling what was marshalled, into a reset
  message of that type, gives the message back).
\<close>

record proto_lib =
  proto_Marshal :: "proto_message \<Rightarrow> string + bytes"
  proto_Unmarshal :: "proto_message \<Rightarrow> bytes \<Rightarrow> string + proto_message"
  proto_EnumString :: "int32 \<Rightarrow> string"

definition proto_typed :: "proto_lib \<Rightarrow> bool" where
  "proto_typed P \<longleftrightarrow> (\<forall>m d m'. proto_Unmarshal P m d = Inr m' \<longrightarrow> same_type m m')"

definition proto_roundtrip :: "proto_lib \<Rightarrow> bool" where
  "proto_roundtrip P \<longleftrightarrow>
     (\<forall>m d. proto_Marshal P m = Inr d \<longrightarrow> proto_Unmarshal P (proto_Reset m) d = Inr m)"

text \<open>\<open>Encode\<close> panics when the payload cannot be marshalled.\<close>

definition Encode :: "proto_lib \<Rightarrow> PacketType \<Rightarrow> proto_message \<Rightarrow> bytes go" where
  "Encode P typ payload =
     (case proto_Marshal P payload of
        Inl err \<Rightarrow> Panic err
      | Inr data \<Rightarrow> Ret (ucast typ # data))"

definition EncodeRaw :: "bytes \<Rightarrow> bytes" where
  "EncodeRaw payload = ucast PacketType_Data # payload"

text \<open>The header byte read back: \<open>message.PacketType(data[0])\<close>.\<close>

definition packetType_of :: "bytes \<Rightarrow> PacketType" where
  "packetType_of data = ucast (hd data)"

lemma proto_typedD: "proto_typed P \<Longrightarrow> proto_Unmarshal P m d = Inr m' \<Longrightarrow> same_type m m'"
  by (auto simp: proto_typed_def)

lemma proto_roundtripD:
  "proto_roundtrip P \<Longrightarrow> proto_Marshal P m = Inr d \<Longrightarrow> proto_Unmarshal P (proto_Reset m) d = Inr m"
  by (auto simp: proto_roundtrip_def)

lemma Encode_Ret_iff [go_simps]:
  "Encode P typ m = Ret d \<longleftrightarrow> (\<exists>b. proto_Marshal P m = Inr b \<and> d = ucast typ # b)"
  by (auto simp: Encode_def split: sum.splits)

lemma Encode_not_Block [simp]: "Encode P typ m \<noteq> Block"
  by (simp add: Encode_def split: sum.splits)

lemma EncodeRaw_simps [simp]:
  "hd (EncodeRaw p) = 6" "tl (EncodeRaw p) = p" "EncodeRaw p \<noteq> []"
  by (simp_all add: EncodeRaw_def PacketType_Data_def)

lemma EncodeRaw_inject [simp]: "EncodeRaw p = EncodeRaw q \<longleftrightarrow> p = q"
  by (simp add: EncodeRaw_def)

lemma length_EncodeRaw [simp]: "length (EncodeRaw p) = Suc (length p)"
  by (simp add: EncodeRaw_def)

text \<open>The header byte survives the conversion to \<open>byte\<close> and back for every type below 256.\<close>

lemma ucast_header: "t < 256 \<Longrightarrow> ucast (ucast t :: byte) = (t :: PacketType)"
proof -
  assume "t < 256"
  then have "unat t < 256" by (simp add: word_less_nat_alt)
  then have "unat (ucast (ucast t :: byte) :: PacketType) = unat t"
    by (simp add: unsigned_ucast_eq take_bit_eq_mod unat_mod_distrib)
  then show ?thesis by (simp add: word_unat_eq_iff)
qed

lemma packetType_of_Encode:
  "t < 256 \<Longrightarrow> Encode P t m = Ret d \<Longrightarrow> packetType_of d = t"
  by (auto simp: Encode_Ret_iff packetType_of_def ucast_header)

lemma sint_byte_ucast: "sint (ucast (b :: byte) :: int32) = uint b"
proof -
  have b: "uint b < 256" using uint_lt2p [of b] by simp
  have "sint (ucast b :: int32) = signed_take_bit 31 (uint b)"
    using b by (simp add: sint_uint unsigned_ucast_eq take_bit_int_eq_self)
  also have "\<dots> = uint b" using b order_trans [OF _ uint_ge_0, of "- (2 ^ 31)" b]
    by (intro signed_take_bit_int_eq_self) auto
  finally show ?thesis .
qed

text \<open>
  \<open>marshals\<close>: a message whose strings are valid UTF-8 can be marshalled. \<open>proto.Marshal\<close> fails for
  invalid UTF-8 and for missing required fields only, and the messages have no required field.
  Strings and slices have the lengths a Go \<open>int\<close> can count.
\<close>

fun utf8_message :: "proto_message \<Rightarrow> bool" where
  "utf8_message (MHeartbeat x) \<longleftrightarrow> utf8_string (heartbeat_VirtAddress x)"
| "utf8_message (MPing x) \<longleftrightarrow> utf8_string (ping_VirtAddress x) \<and> utf8_string (ping_Nonce x)"
| "utf8_message (MPong x) \<longleftrightarrow> utf8_string (pong_VirtAddress x) \<and> utf8_string (pong_Nonce x)"
| "utf8_message (MOpenTunnel x) \<longleftrightarrow> utf8_string (tunnel_VirtAddress x) \<and> utf8_string (tunnel_UdpAddress x)"
| "utf8_message (MOpenTunnelAck x) \<longleftrightarrow> True"
| "utf8_message (MRelay x) \<longleftrightarrow> utf8_string (relay_VirtAddress x) \<and> length (relay_Data x) < 2 ^ 63"

definition marshals :: "proto_lib \<Rightarrow> bool" where
  "marshals P \<longleftrightarrow> (\<forall>m. utf8_message m \<longrightarrow> (\<exists>d. proto_Marshal P m = Inr d))"

lemma marshals_Encode:
  "marshals P \<Longrightarrow> utf8_message m \<Longrightarrow> \<exists>b. proto_Marshal P m = Inr b \<and> Encode P t m = Ret (ucast t # b)"
  unfolding marshals_def Encode_def by (metis old.sum.simps(6))

lemma marshals_EncodeE:
  assumes "marshals P" and "utf8_message m"
  obtains d where "Encode P t m = Ret d"
  using marshals_Encode [OF assms] by blast

lemma marshals_no_panic [simp]: "marshals P \<Longrightarrow> utf8_message m \<Longrightarrow> Encode P t m \<noteq> Panic e"
  using marshals_Encode [of P m t] by auto

text \<open>
  \<open>proto_utf8\<close>: the reader refuses a string field that is not valid UTF-8, so a message it returns can be
  marshalled again.
\<close>

definition proto_utf8 :: "proto_lib \<Rightarrow> bool" where
  "proto_utf8 P \<longleftrightarrow> (\<forall>m d m'. length d < 2 ^ 63 \<longrightarrow> proto_Unmarshal P m d = Inr m' \<longrightarrow> utf8_message m')"

text \<open>
  \<open>proto_cut\<close>: an encoded message is a sequence of fields, and a field that is not there has its zero value. So of a
  marshalled message that is cut short the reader either refuses the rest, when the cut is inside a field, or returns the
  message without the fields that were cut off.
\<close>

fun some_fields :: "proto_message \<Rightarrow> proto_message \<Rightarrow> bool" where
  "some_fields (MHeartbeat x) (MHeartbeat y) \<longleftrightarrow> heartbeat_VirtAddress y \<in> {heartbeat_VirtAddress x, ''''}"
| "some_fields (MPing x) (MPing y) \<longleftrightarrow> ping_VirtAddress y \<in> {ping_VirtAddress x, ''''} \<and> ping_Nonce y \<in> {ping_Nonce x, ''''}"
| "some_fields (MPong x) (MPong y) \<longleftrightarrow> pong_VirtAddress y \<in> {pong_VirtAddress x, ''''} \<and> pong_Nonce y \<in> {pong_Nonce x, ''''}"
| "some_fields (MOpenTunnel x) (MOpenTunnel y) \<longleftrightarrow> tunnel_AckId y \<in> {tunnel_AckId x, 0} \<and>
     tunnel_VirtAddress y \<in> {tunnel_VirtAddress x, ''''} \<and> tunnel_UdpAddress y \<in> {tunnel_UdpAddress x, ''''}"
| "some_fields (MOpenTunnelAck x) (MOpenTunnelAck y) \<longleftrightarrow> ack_AckId y \<in> {ack_AckId x, 0}"
| "some_fields (MRelay x) (MRelay y) \<longleftrightarrow> relay_VirtAddress y \<in> {relay_VirtAddress x, ''''} \<and> relay_Data y \<in> {relay_Data x, []}"
| "some_fields _ _ \<longleftrightarrow> False"

definition proto_cut :: "proto_lib \<Rightarrow> bool" where
  "proto_cut P \<longleftrightarrow> (\<forall>m d n m'. proto_Marshal P m = Inr d \<longrightarrow> n < length d \<longrightarrow>
     proto_Unmarshal P (proto_Reset m) (take n d) = Inr m' \<longrightarrow> some_fields m m' \<and> m' \<noteq> m)"

lemma proto_cutD:
  "proto_cut P \<Longrightarrow> proto_Marshal P m = Inr d \<Longrightarrow> n < length d \<Longrightarrow> proto_Unmarshal P (proto_Reset m) (take n d) = Inr m' \<Longrightarrow>
     some_fields m m' \<and> m' \<noteq> m"
  unfolding proto_cut_def by blast

text \<open>
  \<open>proto_sizes\<close>: the size of an encoded message, as the documentation of the encoding has it. A field with its zero value takes no byte;
  any other takes one byte for its number (all numbers are below 16) and its type, and then the variable-length integer, seven
  bits per byte, that is its value or the length of its string.
\<close>

fun varint_size :: "nat \<Rightarrow> nat" where
  "varint_size n = (if n < 128 then 1 else Suc (varint_size (n div 128)))"

declare varint_size.simps [simp del]

definition text_size :: "'a list \<Rightarrow> nat" where
  "text_size s = (if s = [] then 0 else 1 + varint_size (length s) + length s)"

definition int_size :: "int64 \<Rightarrow> nat" where
  "int_size k = (if k = 0 then 0 else 1 + varint_size (unat k))"

fun wire_size :: "proto_message \<Rightarrow> nat" where
  "wire_size (MHeartbeat x) = text_size (heartbeat_VirtAddress x)"
| "wire_size (MPing x) = text_size (ping_VirtAddress x) + text_size (ping_Nonce x)"
| "wire_size (MPong x) = text_size (pong_VirtAddress x) + text_size (pong_Nonce x)"
| "wire_size (MOpenTunnel x) = int_size (tunnel_AckId x) + text_size (tunnel_VirtAddress x) + text_size (tunnel_UdpAddress x)"
| "wire_size (MOpenTunnelAck x) = int_size (ack_AckId x)"
| "wire_size (MRelay x) = text_size (relay_VirtAddress x) + text_size (relay_Data x)"

definition proto_sizes :: "proto_lib \<Rightarrow> bool" where
  "proto_sizes P \<longleftrightarrow> (\<forall>m d. proto_Marshal P m = Inr d \<longrightarrow> length d = wire_size m)"

lemma varint_size_small: "n < 128 \<Longrightarrow> varint_size n = 1" "128 \<le> n \<Longrightarrow> n < 16384 \<Longrightarrow> varint_size n = 2"
  by (simp_all add: varint_size.simps [of n] varint_size.simps [of "n div 128"] div_less_iff_less_mult)

lemma varint_size_le: "n < 128 ^ Suc k \<Longrightarrow> varint_size n \<le> Suc k"
proof (induction k arbitrary: n)
  case 0
  then show ?case by (simp add: varint_size_small)
next
  case (Suc k)
  then have "n div 128 < 128 ^ Suc k" by (simp add: div_less_iff_less_mult)
  then show ?case using Suc.IH by (simp add: varint_size.simps [of n])
qed

lemma text_size_le: "length s < 16384 \<Longrightarrow> text_size s \<le> length s + 3"
  using varint_size_le [of "length s" 1] by (simp add: text_size_def)

lemma int_size_le: "int_size k \<le> 11"
proof -
  have "unat k < 2 ^ 64" using unsigned_less [of k] by simp
  then show ?thesis using varint_size_le [of "unat k" 9] by (simp add: int_size_def)
qed

section \<open>A concrete marshaller\<close>

text \<open>
  A concrete pair of functions with the two properties, used where a theorem about an
  arbitrary \<open>proto_lib\<close> is applied at a closed instance: strings with every character
  escaped and a terminator, integers through their decimal digits.
\<close>

fun put_str :: "string \<Rightarrow> bytes" where
  "put_str [] = [0]"
| "put_str (c # cs) = 1 # of_char c # put_str cs"

fun get_str :: "bytes \<Rightarrow> (string \<times> bytes) option" where
  "get_str (x # y # r) =
     (if x = 0 then Some ([], y # r)
      else map_option (\<lambda>(s, r'). (char_of (unat y) # s, r')) (get_str r))"
| "get_str [x] = (if x = 0 then Some ([], []) else None)"
| "get_str [] = None"

lemma unat_of_char_byte [simp]: "unat (of_char c :: byte) = of_char c"
  by (simp add: of_char_def unat_of_nat)

lemma get_put_str [simp]: "get_str (put_str s @ r) = Some (s, r)"
proof (induction s)
  case Nil
  then show ?case by (cases r) auto
next
  case (Cons c cs)
  then show ?case by simp
qed

lemma length_put_str [simp]: "length (put_str s) = Suc (2 * length s)"
  by (induction s) auto

definition put_int :: "int64 \<Rightarrow> bytes" where
  "put_int w = put_str (dec_nat (unat w))"

definition get_int :: "bytes \<Rightarrow> (int64 \<times> bytes) option" where
  "get_int d = map_option (\<lambda>(s, r). (of_nat (dec_value s), r)) (get_str d)"

lemma get_put_int [simp]: "get_int (put_int w @ r) = Some (w, r)"
  by (simp add: get_int_def put_int_def)

fun sample_put :: "proto_message \<Rightarrow> bytes" where
  "sample_put (MHeartbeat x) = put_str (heartbeat_VirtAddress x)"
| "sample_put (MPing x) = put_str (ping_VirtAddress x) @ put_str (ping_Nonce x)"
| "sample_put (MPong x) = put_str (pong_VirtAddress x) @ put_str (pong_Nonce x)"
| "sample_put (MOpenTunnel x) =
     put_int (tunnel_AckId x) @ put_str (tunnel_VirtAddress x) @ put_str (tunnel_UdpAddress x)"
| "sample_put (MOpenTunnelAck x) = put_int (ack_AckId x)"
| "sample_put (MRelay x) = put_str (relay_VirtAddress x) @ relay_Data x"

fun sample_get :: "proto_message \<Rightarrow> bytes \<Rightarrow> proto_message option" where
  "sample_get (MHeartbeat _) d =
     map_option (\<lambda>(v, _). MHeartbeat \<lparr>heartbeat_VirtAddress = v\<rparr>) (get_str d)"
| "sample_get (MPing _) d = Option.bind (get_str d) (\<lambda>(v, r).
     map_option (\<lambda>(n, _). MPing \<lparr>ping_VirtAddress = v, ping_Nonce = n\<rparr>) (get_str r))"
| "sample_get (MPong _) d = Option.bind (get_str d) (\<lambda>(v, r).
     map_option (\<lambda>(n, _). MPong \<lparr>pong_VirtAddress = v, pong_Nonce = n\<rparr>) (get_str r))"
| "sample_get (MOpenTunnel _) d = Option.bind (get_int d) (\<lambda>(a, r).
     Option.bind (get_str r) (\<lambda>(v, r').
     map_option (\<lambda>(u, _). MOpenTunnel
       \<lparr>tunnel_AckId = a, tunnel_VirtAddress = v, tunnel_UdpAddress = u\<rparr>) (get_str r')))"
| "sample_get (MOpenTunnelAck _) d =
     map_option (\<lambda>(a, _). MOpenTunnelAck \<lparr>ack_AckId = a\<rparr>) (get_int d)"
| "sample_get (MRelay _) d =
     map_option (\<lambda>(v, r). MRelay \<lparr>relay_VirtAddress = v, relay_Data = r\<rparr>) (get_str d)"

definition sample_lib :: proto_lib where
  "sample_lib =
     \<lparr>proto_Marshal = (\<lambda>m. Inr (sample_put m)),
      proto_Unmarshal = (\<lambda>m d. case sample_get m d of None \<Rightarrow> Inl ''malformed'' | Some m' \<Rightarrow> Inr m'),
      proto_EnumString = (\<lambda>t. case PacketType_name t of None \<Rightarrow> '''' | Some s \<Rightarrow> s)\<rparr>"

lemma sample_get_put: "sample_get (proto_Reset m) (sample_put m) = Some m"
proof -
  have s: "get_str (put_str v) = Some (v, [])" for v using get_put_str [of v "[]"] by simp
  have i: "get_int (put_int v) = Some (v, [])" for v using get_put_int [of v "[]"] by simp
  show ?thesis by (cases m) (simp_all add: s i)
qed

lemma sample_lib_roundtrip [simp]: "proto_roundtrip sample_lib"
  by (simp add: proto_roundtrip_def sample_lib_def sample_get_put)

lemma sample_lib_typed [simp]: "proto_typed sample_lib"
proof -
  have "same_type m m'" if "sample_get m d = Some m'" for m d m'
    using that by (cases m) (auto split: option.splits bind_splits)
  then show ?thesis by (auto simp: proto_typed_def sample_lib_def split: option.splits)
qed

lemma sample_lib_marshals [simp]: "marshals sample_lib"
  by (simp add: marshals_def sample_lib_def)

text \<open>
  The framing is read back. What \<open>Encode\<close> returns for a type below 256 starts with a header
  byte that reads back as the type, and the rest, unmarshalled into a fresh message of the same
  Go type, gives the message back. \<open>EncodeRaw\<close> puts the data type byte before the payload and
  loses nothing of it. Distinct types or messages have distinct datagrams.
\<close>

lemma codec_roundtrip:
  assumes "proto_roundtrip P" and "t < 256" and "Encode P t m = Ret d"
  shows "packetType_of d = t \<and> (\<forall>fresh. same_type m fresh \<longrightarrow> proto_Unmarshal P (proto_Reset fresh) (tl d) = Inr m) \<and>
    packetType_of (EncodeRaw data) = PacketType_Data \<and> tl (EncodeRaw data) = data \<and>
    (\<forall>t' m'. t' < 256 \<longrightarrow> same_type m m' \<longrightarrow> Encode P t' m' = Ret d \<longrightarrow> t' = t \<and> m' = m)"
proof -
  obtain b where b: "proto_Marshal P m = Inr b" "d = ucast t # b" using assms(3) by (auto simp: Encode_Ret_iff)
  have un: "proto_Unmarshal P (proto_Reset fresh) (tl d) = Inr m" if "same_type m fresh" for fresh
    using proto_roundtripD [OF assms(1) b(1)] Reset_same_type [OF that] b(2) by simp
  have "t' = t \<and> m' = m" if "t' < 256" "same_type m m'" "Encode P t' m' = Ret d" for t' m'
  proof -
    have "proto_Unmarshal P (proto_Reset m') (tl d) = Inr m'"
      using that(3) proto_roundtripD [OF assms(1)] by (auto simp: Encode_Ret_iff)
    then show ?thesis
      using un [OF that(2)] packetType_of_Encode [OF that(1,3)] packetType_of_Encode [OF assms(2,3)] by simp
  qed
  then show ?thesis using packetType_of_Encode [OF assms(2,3)] un
    by (auto simp: packetType_of_def PacketType_Data_def)
qed

end
