(* ===== verification/Version.thy ===== *)
theory Version
  imports Go_Text
begin

text \<open>
  Package \<open>version\<close> (\<open>version/version.go\<close>): the build's version and its textual forms. The
  package variables are a record, since the linker may set \<open>GitHash\<close> and \<open>GitBranch\<close>; what
  \<open>runtime.Version()\<close> returns is an argument. Lemma: the text \<open>major.minor.patch\<close>
  determines the three numbers.
\<close>

record version_vars =
  MajorVersion :: int64
  MinorVersion :: int64
  PatchVersion :: int64
  GitHash :: string
  GitBranch :: string

definition version_defaults :: version_vars where
  "version_defaults =
     \<lparr>MajorVersion = 0, MinorVersion = 1, PatchVersion = 0,
      GitHash = ''Unknown'', GitBranch = ''Unknown''\<rparr>"

record Version =
  v_major :: int64
  v_minor :: int64
  v_patch :: int64
  v_gitBranch :: string
  v_gitHash :: string
  v_goVersion :: string

definition NewVersion :: "version_vars \<Rightarrow> string \<Rightarrow> Version" where
  "NewVersion vars runtime_Version =
     \<lparr>v_major = MajorVersion vars, v_minor = MinorVersion vars, v_patch = PatchVersion vars,
      v_gitBranch = GitBranch vars, v_gitHash = GitHash vars, v_goVersion = runtime_Version\<rparr>"

definition SemVer :: "Version \<Rightarrow> string" where
  "SemVer v = dec_int (sint (v_major v)) @ ''.'' @ dec_int (sint (v_minor v)) @ ''.'' @
     dec_int (sint (v_patch v))"

definition Version_String :: "Version \<Rightarrow> string" where
  "Version_String v = SemVer v"

definition FullInfo :: "Version \<Rightarrow> string" where
  "FullInfo v = Version_String v @ '' ('' @ v_gitBranch v @ ''/'' @ v_gitHash v @ '') '' @ v_goVersion v"

lemma SemVer_inject_lemma:
  assumes "SemVer v = SemVer w"
  shows "v_major v = v_major w \<and> v_minor v = v_minor w \<and> v_patch v = v_patch w"
proof -
  from assms have
    eq: "dec_int (sint (v_major v)) @ CHR ''.'' # (dec_int (sint (v_minor v)) @ CHR ''.'' #
           dec_int (sint (v_patch v))) =
         dec_int (sint (v_major w)) @ CHR ''.'' # (dec_int (sint (v_minor w)) @ CHR ''.'' #
           dec_int (sint (v_patch w)))"
    by (simp add: SemVer_def)
  note fst_split = sep_append_inject [OF dec_int_no_dot dec_int_no_dot eq]
  note snd_split = sep_append_inject [OF dec_int_no_dot dec_int_no_dot conjunct2 [OF fst_split]]
  from fst_split snd_split show ?thesis by (auto intro: signed_word_eqI)
qed


text \<open>
  The version text identifies the version. Two versions print the same \<open>major.minor.patch\<close>
  text exactly when the three 64-bit numbers agree, so the gateway compares what the client
  was built with.
\<close>

theorem SemVer_injective:
  "SemVer v = SemVer w \<longleftrightarrow> v_major v = v_major w \<and> v_minor v = v_minor w \<and> v_patch v = v_patch w"
  using SemVer_inject_lemma [of v w] by (auto simp: SemVer_def)

end
