(* ===== verification/Api.thy ===== *)
theory Api
  imports Message Version
begin

text \<open>
  Package \<open>api\<close>, the server's half (\<open>api/errors.go\<close>, \<open>api/protocol.go\<close>,
  \<open>api/api_server.go\<close>): errors with a status code, the HTTP request and response structures,
  and the \<open>Server\<close> that keeps one \<open>PeerInfo\<close> per virtual address and validates requests to
  open a tunnel. The semver parser is a library and an argument, the notifier is the
  interface \<open>Notifier\<close>: its state is a type variable and its method an argument. The locale
  \<open>peer_directory\<close> is the contract of \<open>Heartbeat\<close> and \<open>Peer\<close> the gateway's processor relies
  on; \<open>Server\<close> is its instance.
\<close>

section \<open>Errors\<close>

text \<open>
  The values of Go's \<open>error\<close> interface the program builds: \<open>errors.New\<close>/\<open>Errorf\<close>, the wrappers
  \<open>WithStack\<close> and \<open>WithMessage\<close>, and the package's own \<open>*Error\<close> with its status code.
\<close>

datatype go_error =
    ErrNew string
  | ErrWithStack go_error
  | ErrWithMessage go_error string
  | ErrAPI StatusCode go_error

fun Error_text :: "go_error \<Rightarrow> string" where
  "Error_text (ErrNew s) = s"
| "Error_text (ErrWithStack e) = Error_text e"
| "Error_text (ErrWithMessage e m) = m @ '': '' @ Error_text e"
| "Error_text (ErrAPI _ e) = Error_text e"

definition isSuccess :: "StatusCode \<Rightarrow> bool" where
  "isSuccess code \<longleftrightarrow> code = StatusCode_Success"

definition ErrorWithCode :: "StatusCode \<Rightarrow> go_error \<Rightarrow> go_error" where
  "ErrorWithCode code err = ErrAPI code err"

section \<open>Protocol structures\<close>

record OpenTunnelRequest =
  req_Version :: string
  req_Algorithm :: string
  req_Nonce :: string
  req_Cipher :: string
  req_Source :: string
  req_Destination :: string

record OpenTunnelResponse =
  res_Encrypt :: string

record Result =
  result_Code :: StatusCode
  result_Error :: string
  result_Data :: "OpenTunnelResponse option"

definition URIOpenTunnel :: string where
  "URIOpenTunnel = ''/api/v1/tunnel''"

section \<open>The server\<close>

record PeerInfo =
  VirtAddress :: string
  UDPAddress :: string
  LastHeartbeat :: time

record 'n Server =
  srv_notifier :: 'n
  srv_key :: string
  srv_peers :: "string \<rightharpoonup> PeerInfo"

definition NewServer :: "'n \<Rightarrow> string \<Rightarrow> 'n Server" where
  "NewServer notifier key = \<lparr>srv_notifier = notifier, srv_key = key, srv_peers = Map.empty\<rparr>"

definition Peer :: "'n Server \<Rightarrow> string \<Rightarrow> PeerInfo option" where
  "Peer s virtAddr = srv_peers s virtAddr"

definition Heartbeat :: "'n Server \<Rightarrow> string \<Rightarrow> CtrlHeartbeat \<Rightarrow> time \<Rightarrow> 'n Server" where
  "Heartbeat s remote heartbeat now =
     (case srv_peers s (heartbeat_VirtAddress heartbeat) of
        Some peer \<Rightarrow>
          (let peer1 = peer\<lparr>LastHeartbeat := now\<rparr>;
               peer2 = (if UDPAddress peer1 \<noteq> remote then peer1\<lparr>UDPAddress := remote\<rparr> else peer1)
           in s\<lparr>srv_peers := (srv_peers s)(heartbeat_VirtAddress heartbeat \<mapsto> peer2)\<rparr>)
      | None \<Rightarrow>
          s\<lparr>srv_peers := (srv_peers s)(heartbeat_VirtAddress heartbeat \<mapsto>
              \<lparr>VirtAddress = heartbeat_VirtAddress heartbeat, UDPAddress = remote, LastHeartbeat = now\<rparr>)\<rparr>)"

definition quoted :: "string \<Rightarrow> string" where
  "quoted s = CHR 0x27 # s @ [CHR 0x27]"

text \<open>
  \<open>(s *Server) OpenTunnel\<close>: \<open>semver\<close> is \<open>semver.NewVersion\<close> with the major number of its
  result, \<open>notify\<close> the notifier's \<open>OpenTunnel\<close> method.
\<close>

definition Server_OpenTunnel ::
  "version_vars \<Rightarrow> (string \<Rightarrow> string + int64) \<Rightarrow> ('n \<Rightarrow> PeerInfo \<Rightarrow> PeerInfo \<Rightarrow> 'n) \<Rightarrow>
   'n Server \<Rightarrow> OpenTunnelRequest \<Rightarrow> (go_error + OpenTunnelResponse) \<times> 'n Server" where
  "Server_OpenTunnel vars semver notify s req =
     (case semver (req_Version req) of
        Inl err \<Rightarrow> (Inl (ErrorWithCode StatusCode_InvalidVersion (ErrWithStack (ErrNew err))), s)
      | Inr ver_Major \<Rightarrow>
          if sint ver_Major < sint (MajorVersion vars) then
            (Inl (ErrorWithCode StatusCode_VersionTooOld
               (ErrNew (''client version '' @ req_Version req @ '' doesn'' @ [CHR 0x27] @
                  ''t match the server version '' @ Version_String (NewVersion vars [])))), s)
          else
            (case Peer s (req_Source req) of
               None \<Rightarrow> (Inl (ErrNew (''source peer '' @ quoted (req_Source req) @ '' not found in cache'')), s)
             | Some src \<Rightarrow>
                 (case Peer s (req_Destination req) of
                    None \<Rightarrow> (Inl (ErrNew (''destination peer '' @ quoted (req_Destination req) @
                       '' not found in cache'')), s)
                  | Some dst \<Rightarrow>
                      (Inr \<lparr>res_Encrypt = []\<rparr>, s\<lparr>srv_notifier := notify (srv_notifier s) src dst\<rparr>))))"

section \<open>The peer directory\<close>

locale peer_directory =
  fixes beat :: "'s \<Rightarrow> string \<Rightarrow> string \<Rightarrow> time \<Rightarrow> 's"
    and peer :: "'s \<Rightarrow> string \<Rightarrow> PeerInfo option"
    and wf :: "'s \<Rightarrow> bool"
  assumes beat_same: "wf s \<Longrightarrow> peer (beat s remote v t) v =
      Some \<lparr>VirtAddress = v, UDPAddress = remote, LastHeartbeat = t\<rparr>"
    and beat_other: "w \<noteq> v \<Longrightarrow> peer (beat s remote v t) w = peer s w"
    and wf_beat: "wf s \<Longrightarrow> wf (beat s remote v t)"
begin

text \<open>A sequence of heartbeats, each a triple of remote address, virtual address and time.\<close>

definition beats :: "'s \<Rightarrow> (string \<times> string \<times> time) list \<Rightarrow> 's" where
  "beats s hs = foldl (\<lambda>s (remote, v, t). beat s remote v t) s hs"

lemma beats_simps [simp]:
  "beats s [] = s" "beats s ((r, v, t) # hs) = beats (beat s r v t) hs"
  "beats s (hs @ gs) = beats (beats s hs) gs"
  by (simp_all add: beats_def)

lemma wf_beats: "wf s \<Longrightarrow> wf (beats s hs)"
  by (induction hs arbitrary: s) (auto simp: wf_beat)

lemma beats_untouched: "v \<notin> fst ` snd ` set hs \<Longrightarrow> peer (beats s hs) v = peer s v"
  by (induction hs arbitrary: s) (auto simp: beat_other)

text \<open>The entry of a peer is that of its latest heartbeat, whatever other peers sent since.\<close>

lemma latest_beat:
  assumes "wf s" and "v \<notin> fst ` snd ` set gs"
  shows "peer (beats s (hs @ (r, v, t) # gs)) v =
    Some \<lparr>VirtAddress = v, UDPAddress = r, LastHeartbeat = t\<rparr>"
  using assms by (simp add: beats_untouched beat_same wf_beats)

text \<open>A peer once known stays known: no operation removes an entry.\<close>

lemma known_stays: "peer s v \<noteq> None \<Longrightarrow> wf s \<Longrightarrow> peer (beats s hs) v \<noteq> None"
proof (induction hs arbitrary: s)
  case Nil
  then show ?case by simp
next
  case (Cons h hs)
  obtain r w t where h: "h = (r, w, t)" by (cases h) auto
  have "peer (beat s r w t) v \<noteq> None"
    using Cons.prems by (cases "v = w") (simp_all add: beat_same beat_other)
  with Cons h show ?case by (simp add: wf_beat)
qed

end

definition peers_wf :: "'n Server \<Rightarrow> bool" where
  "peers_wf s \<longleftrightarrow> (\<forall>v p. srv_peers s v = Some p \<longrightarrow> VirtAddress p = v)"

definition heartbeat_from :: "'n Server \<Rightarrow> string \<Rightarrow> string \<Rightarrow> time \<Rightarrow> 'n Server" where
  "heartbeat_from s remote v t = Heartbeat s remote \<lparr>heartbeat_VirtAddress = v\<rparr> t"

lemma peers_wf_new [simp]: "peers_wf (NewServer n k)"
  by (simp add: peers_wf_def NewServer_def)

lemma peers_wf_Heartbeat: "peers_wf s \<Longrightarrow> peers_wf (Heartbeat s remote hb t)"
  by (auto simp: peers_wf_def Heartbeat_def Let_def split: option.splits if_splits)

lemma Heartbeat_frame [simp]:
  "srv_notifier (Heartbeat s remote hb t) = srv_notifier s"
  "srv_key (Heartbeat s remote hb t) = srv_key s"
  by (auto simp: Heartbeat_def Let_def split: option.splits)

interpretation dir: peer_directory heartbeat_from Peer peers_wf
proof
  fix s :: "'n Server" and remote v :: string and t :: time
  assume "peers_wf s"
  then show "Peer (heartbeat_from s remote v t) v =
      Some \<lparr>VirtAddress = v, UDPAddress = remote, LastHeartbeat = t\<rparr>"
    by (auto simp: Peer_def heartbeat_from_def Heartbeat_def Let_def peers_wf_def
        split: option.splits)
next
  fix s :: "'n Server" and remote v w :: string and t :: time
  assume "w \<noteq> v"
  then show "Peer (heartbeat_from s remote v t) w = Peer s w"
    by (auto simp: Peer_def heartbeat_from_def Heartbeat_def Let_def split: option.splits)
next
  fix s :: "'n Server" and remote v :: string and t :: time
  assume "peers_wf s"
  then show "peers_wf (heartbeat_from s remote v t)"
    by (simp add: heartbeat_from_def peers_wf_Heartbeat)
qed

section \<open>Requests to open a tunnel\<close>

lemma Server_OpenTunnel_Inr_iff:
  "Server_OpenTunnel vars semver notify s req = (Inr res, s') \<longleftrightarrow>
     (\<exists>maj src dst. semver (req_Version req) = Inr maj \<and> sint (MajorVersion vars) \<le> sint maj \<and>
        Peer s (req_Source req) = Some src \<and> Peer s (req_Destination req) = Some dst \<and>
        s' = s\<lparr>srv_notifier := notify (srv_notifier s) src dst\<rparr> \<and> res = \<lparr>res_Encrypt = []\<rparr>)"
  by (auto simp: Server_OpenTunnel_def split: sum.splits option.splits)

lemma Server_OpenTunnel_Inl_frame:
  "Server_OpenTunnel vars semver notify s req = (Inl e, s') \<Longrightarrow> s' = s"
  by (auto simp: Server_OpenTunnel_def split: sum.splits option.splits if_splits)

lemma Server_OpenTunnel_frame [simp]:
  "srv_peers (snd (Server_OpenTunnel vars semver notify s req)) = srv_peers s"
  "srv_key (snd (Server_OpenTunnel vars semver notify s req)) = srv_key s"
  by (auto simp: Server_OpenTunnel_def split: sum.splits option.splits)

section \<open>Properties\<close>

definition heartbeats :: "'n Server \<Rightarrow> (string \<times> string \<times> time) list \<Rightarrow> 'n Server" where
  "heartbeats s hs = foldl (\<lambda>s (remote, v, t). Heartbeat s remote \<lparr>heartbeat_VirtAddress = v\<rparr> t) s hs"

lemma heartbeats_beats: "heartbeats s hs = dir.beats s hs"
  by (simp add: heartbeats_def dir.beats_def heartbeat_from_def)

text \<open>
  Whatever heartbeats the server has processed, in any order and from any addresses, the
  directory entry of a virtual address carries the UDP address and the time of the latest
  heartbeat of that address, and heartbeats of other peers do not touch it.
\<close>

theorem heartbeat_latest_wins:
  assumes "peers_wf s" and "v \<notin> fst ` snd ` set later"
  shows "Peer (heartbeats s (earlier @ (remote, v, t) # later)) v =
      Some \<lparr>VirtAddress = v, UDPAddress = remote, LastHeartbeat = t\<rparr> \<and>
    peers_wf (heartbeats s (earlier @ (remote, v, t) # later))"
  using dir.latest_beat [OF assms, of earlier remote t]
    dir.wf_beats [OF assms(1), of "earlier @ (remote, v, t) # later"]
  by (simp add: heartbeats_beats)

theorem heartbeat_latest_wins_witness:
  "Peer (heartbeats (NewServer () ''key'')
      [(''1.1.1.1:10'', ''10.0.0.1'', 5), (''2.2.2.2:20'', ''10.0.0.1'', 7), (''3.3.3.3:30'', ''10.0.0.2'', 9)])
      ''10.0.0.1'' = Some \<lparr>VirtAddress = ''10.0.0.1'', UDPAddress = ''2.2.2.2:20'', LastHeartbeat = 7\<rparr>"
  using heartbeat_latest_wins [of "NewServer () ''key''" "''10.0.0.1''" "[(''3.3.3.3:30'', ''10.0.0.2'', 9)]"
      "[(''1.1.1.1:10'', ''10.0.0.1'', 5)]" "''2.2.2.2:20''" 7] by simp

text \<open>
  A request to open a tunnel is accepted exactly when its version parses, its major number
  is not below the server's (as signed 64-bit numbers) and both peers have sent a heartbeat;
  the peers reach the notifier as the directory has them. A rejected request changes nothing,
  and its error carries the status code of an invalid or too old version in these two cases
  and no code otherwise. The server's key plays no part in the decision.
\<close>

theorem Server_OpenTunnel_decision:
  "(\<exists>res. fst (Server_OpenTunnel vars semver notify s req) = Inr res) =
     (\<exists>major. semver (req_Version req) = Inr major \<and> sint (MajorVersion vars) \<le> sint major \<and>
        Peer s (req_Source req) \<noteq> None \<and> Peer s (req_Destination req) \<noteq> None) \<and>
   snd (Server_OpenTunnel vars semver notify s req) =
     (if isl (fst (Server_OpenTunnel vars semver notify s req)) then s
      else s\<lparr>srv_notifier := notify (srv_notifier s) (the (Peer s (req_Source req))) (the (Peer s (req_Destination req)))\<rparr>) \<and>
   (\<forall>c e. fst (Server_OpenTunnel vars semver notify s req) = Inl (ErrAPI c e) \<longrightarrow>
      c = (if isl (semver (req_Version req)) then StatusCode_InvalidVersion else StatusCode_VersionTooOld)) \<and>
   fst (Server_OpenTunnel vars semver notify (s\<lparr>srv_key := key\<rparr>) req) = fst (Server_OpenTunnel vars semver notify s req)"
  by (auto simp: Server_OpenTunnel_def Peer_def ErrorWithCode_def split: sum.splits option.splits if_splits)

definition sample_server :: "nat Server" where
  "sample_server = heartbeats (NewServer 0 ''key'')
     [(''1.1.1.1:10'', ''10.0.0.1'', 5), (''2.2.2.2:20'', ''10.0.0.2'', 7)]"

definition sample_request :: "string \<Rightarrow> string \<Rightarrow> OpenTunnelRequest" where
  "sample_request src dst = \<lparr>req_Version = ''v0.1.0'', req_Algorithm = [], req_Nonce = [],
     req_Cipher = [], req_Source = src, req_Destination = dst\<rparr>"

theorem Server_OpenTunnel_decision_witness:
  "fst (Server_OpenTunnel version_defaults (\<lambda>_. Inl ''bad'') (\<lambda>n _ _. Suc n) sample_server
      (sample_request ''10.0.0.1'' ''10.0.0.2'')) = Inl (ErrAPI StatusCode_InvalidVersion (ErrWithStack (ErrNew ''bad''))) \<and>
   StatusCode_InvalidVersion = (if isl ((\<lambda>_. Inl ''bad'' :: string + int64) ''v0.1.0'')
      then StatusCode_InvalidVersion else StatusCode_VersionTooOld)"
proof
  show bad: "fst (Server_OpenTunnel version_defaults (\<lambda>_. Inl ''bad'') (\<lambda>n _ _. Suc n) sample_server
      (sample_request ''10.0.0.1'' ''10.0.0.2'')) = Inl (ErrAPI StatusCode_InvalidVersion (ErrWithStack (ErrNew ''bad'')))"
    by (simp add: Server_OpenTunnel_def ErrorWithCode_def)
  show "StatusCode_InvalidVersion = (if isl ((\<lambda>_. Inl ''bad'' :: string + int64) ''v0.1.0'')
      then StatusCode_InvalidVersion else StatusCode_VersionTooOld)"
    using Server_OpenTunnel_decision [of version_defaults "\<lambda>_. Inl ''bad''" "\<lambda>n _ _. Suc n" sample_server
        "sample_request ''10.0.0.1'' ''10.0.0.2''"] bad by (simp add: sample_request_def)
qed

end
