(* ===== verification/Constant.thy ===== *)
theory Constant
  imports Mesh_Prelude
begin

text \<open>Package \<open>constant\<close> (\<open>constant/constant.go\<close>); durations are in nanoseconds.\<close>

definition Second :: time where "Second = 1000000000"

definition HeartbeatInterval :: int where "HeartbeatInterval = 20"
definition MaxBufferSize :: nat where "MaxBufferSize = 4096"
definition MaxRetrySend :: int where "MaxRetrySend = 10"
definition ConnectingRetryDuration :: time where "ConnectingRetryDuration = 100000000"
definition PeerKeepaliveDuration :: time where "PeerKeepaliveDuration = 5 * Second"

end
