(* ===== verification/Notifier.thy ===== *)
theory Notifier
  imports Codec Api Constant
begin

text \<open>
  The gateway's notifier (\<open>gateway/notifier.go\<close>): the table of open-tunnel notifications that
  wait for an acknowledgement, the queue of relayed packets, and the dispatcher that spreads
  packets over the workers' channels in turn. Go's map iteration order is unspecified, so
  \<open>retry\<close> takes the order as an argument. The locale \<open>tunnel_notifier\<close> is the contract of the
  notification table (what is pending after opening and acknowledging tunnels); the notifier
  is its instance.
\<close>

section \<open>State\<close>

datatype payload = PayloadProto proto_message | PayloadRaw bytes

record packet =
  pk_destination :: string
  pk_typ :: PacketType
  pk_message :: payload

record retryPacket =
  rp_packet :: packet
  rp_counter :: int64

record notifier =
  nt_queue :: "packet chan"
  nt_ackID :: int64
  nt_data :: "int64 \<rightharpoonup> retryPacket"
  nt_read :: "unit chan"

definition newNotifier :: notifier where
  "newNotifier = \<lparr>nt_queue = make_chan 16, nt_ackID = 0, nt_data = Map.empty, nt_read = make_chan 16\<rparr>"

section \<open>Operations\<close>

definition notify :: "notifier \<Rightarrow> notifier" where
  "notify n = n\<lparr>nt_read := snd (chan_try_send (nt_read n) ())\<rparr>"

definition tunnel_packet :: "PeerInfo \<Rightarrow> PeerInfo \<Rightarrow> int64 \<Rightarrow> packet" where
  "tunnel_packet p other ackID =
     \<lparr>pk_destination = UDPAddress p,
      pk_typ = PacketType_OpenTunnel,
      pk_message = PayloadProto (MOpenTunnel
        \<lparr>tunnel_AckId = ackID, tunnel_VirtAddress = VirtAddress other,
         tunnel_UdpAddress = UDPAddress other\<rparr>)\<rparr>"

text \<open>One turn of the loop over \<open>peers\<close>: \<open>p\<close> is the peer notified, \<open>other\<close> is \<open>peers[1-i]\<close>.\<close>

definition open_one :: "notifier \<Rightarrow> PeerInfo \<Rightarrow> PeerInfo \<Rightarrow> notifier" where
  "open_one n p other =
     (let ackID = nt_ackID n + 1
      in n\<lparr>nt_ackID := ackID,
           nt_data := (nt_data n)(ackID \<mapsto> \<lparr>rp_packet = tunnel_packet p other ackID, rp_counter = 0\<rparr>)\<rparr>)"

definition Notifier_OpenTunnel :: "notifier \<Rightarrow> PeerInfo \<Rightarrow> PeerInfo \<Rightarrow> notifier" where
  "Notifier_OpenTunnel n src dst = notify (open_one (open_one n src dst) dst src)"

definition openTunnelAck :: "notifier \<Rightarrow> int64 \<Rightarrow> notifier" where
  "openTunnelAck n ackID = n\<lparr>nt_data := (nt_data n)(ackID := None)\<rparr>"

definition relay :: "notifier \<Rightarrow> string \<Rightarrow> bytes \<Rightarrow> notifier go" where
  "relay n dest data =
     go_bind (chan_send (nt_queue n)
       \<lparr>pk_destination = dest, pk_typ = PacketType_Data, pk_message = PayloadRaw data\<rparr>)
       (\<lambda>q. Ret (n\<lparr>nt_queue := q\<rparr>))"

section \<open>The dispatcher\<close>

record dispatcher =
  dp_chs :: "packet chan list"
  dp_roundTrip :: int64

definition start_dispatcher :: "int \<Rightarrow> dispatcher go" where
  "start_dispatcher concurrency =
     (if concurrency < 0 then Panic ''makeslice: len out of range''
      else Ret \<lparr>dp_chs = replicate (nat concurrency) (make_chan 256), dp_roundTrip = 0\<rparr>)"

text \<open>Go's \<open>%\<close> takes the sign of the dividend.\<close>

definition go_rem :: "int \<Rightarrow> int \<Rightarrow> int" where
  "go_rem a b = sgn a * (\<bar>a\<bar> mod \<bar>b\<bar>)"

definition dispatch_index :: "dispatcher \<Rightarrow> nat go" where
  "dispatch_index d =
     (if dp_chs d = [] then Panic ''integer divide by zero''
      else let i = go_rem (sint (dp_roundTrip d)) (int (length (dp_chs d)))
           in if i < 0 then Panic ''index out of range'' else Ret (nat i))"

definition dispatch :: "dispatcher \<Rightarrow> packet \<Rightarrow> dispatcher go" where
  "dispatch d p =
     go_bind (dispatch_index d) (\<lambda>i.
     go_bind (chan_send (dp_chs d ! i) p) (\<lambda>c.
       Ret (d\<lparr>dp_chs := (dp_chs d)[i := c], dp_roundTrip := dp_roundTrip d + 1\<rparr>)))"

text \<open>The body of \<open>retry\<close>'s loop for one key, and the loop over an order of the keys.\<close>

definition retry_entry :: "int64 \<Rightarrow> notifier \<times> dispatcher \<Rightarrow> (notifier \<times> dispatcher) go" where
  "retry_entry ackID nd =
     (case nd of (n, d) \<Rightarrow>
        (case nt_data n ackID of
           None \<Rightarrow> Ret (n, d)
         | Some rp \<Rightarrow>
             if MaxRetrySend < sint (rp_counter rp)
             then Ret (n\<lparr>nt_data := (nt_data n)(ackID := None)\<rparr>, d)
             else go_bind (dispatch d (rp_packet rp)) (\<lambda>d'. Ret (n, d'))))"

fun retry :: "int64 list \<Rightarrow> notifier \<times> dispatcher \<Rightarrow> (notifier \<times> dispatcher) go" where
  "retry [] nd = Ret nd"
| "retry (k # ks) nd = go_bind (retry_entry k nd) (retry ks)"

text \<open>
  What a worker does with a packet taken from its channel: \<open>resolve\<close> is \<open>net.ResolveUDPAddr\<close>
  (\<open>None\<close> on error, and the packet is dropped); the result is the datagram and its target.
\<close>

definition worker_write :: "proto_lib \<Rightarrow> (string \<Rightarrow> string option) \<Rightarrow> packet \<Rightarrow> (bytes \<times> string) option go" where
  "worker_write P resolve p =
     (case resolve (pk_destination p) of
        None \<Rightarrow> Ret None
      | Some dest \<Rightarrow>
          go_bind (case pk_message p of
                     PayloadProto m \<Rightarrow> Encode P (pk_typ p) m
                   | PayloadRaw b \<Rightarrow> Ret (EncodeRaw b))
            (\<lambda>data. Ret (Some (data, dest))))"

section \<open>The notification table\<close>

text \<open>
  The contract: opening a tunnel files two notifications under the next two ids, each telling
  one peer the addresses of the other; an acknowledgement removes the entry of its id.
\<close>

datatype table_event = Opened PeerInfo PeerInfo | Acked int64

locale tunnel_notifier =
  fixes open_op :: "'n \<Rightarrow> PeerInfo \<Rightarrow> PeerInfo \<Rightarrow> 'n"
    and ack_op :: "'n \<Rightarrow> int64 \<Rightarrow> 'n"
    and pending :: "'n \<Rightarrow> int64 \<Rightarrow> packet option"
    and last_id :: "'n \<Rightarrow> int64"
  assumes pending_open: "pending (open_op n src dst) =
      (pending n)(last_id n + 1 \<mapsto> tunnel_packet src dst (last_id n + 1),
                  last_id n + 2 \<mapsto> tunnel_packet dst src (last_id n + 2))"
    and last_open: "last_id (open_op n src dst) = last_id n + 2"
    and pending_ack: "pending (ack_op n i) = (pending n)(i := None)"
    and last_ack: "last_id (ack_op n i) = last_id n"
begin

fun event :: "'n \<Rightarrow> table_event \<Rightarrow> 'n" where
  "event n (Opened src dst) = open_op n src dst"
| "event n (Acked i) = ack_op n i"

definition events :: "'n \<Rightarrow> table_event list \<Rightarrow> 'n" where
  "events n es = foldl event n es"

lemma events_simps [simp]:
  "events n [] = n" "events n (e # es) = events (event n e) es"
  "events n (es @ fs) = events (events n es) fs"
  by (simp_all add: events_def)

text \<open>
  An id that is not pending stays so until the 64-bit counter comes round to it: each opened
  tunnel uses two ids, and \<open>i - last_id n\<close> ids lie ahead before \<open>i\<close> is handed out.
\<close>

lemma not_pending_event:
  assumes "pending n i = None" and "2 < unat (i - last_id n)"
  shows "pending (event n e) i = None"
proof (cases e)
  case (Opened src dst)
  have "i \<noteq> last_id n + 1" "i \<noteq> last_id n + 2" using assms(2) by auto
  with assms(1) Opened show ?thesis by (simp add: pending_open)
next
  case (Acked j)
  with assms(1) show ?thesis by (simp add: pending_ack)
qed

lemma distance_event:
  assumes "2 \<le> unat (i - last_id n)"
  shows "unat (i - last_id n) \<le> unat (i - last_id (event n e)) + 2"
proof (cases e)
  case (Opened src dst)
  have "(2::int64) \<le> i - last_id n" using assms by (simp add: word_le_nat_alt)
  then have "unat (i - last_id n - 2) = unat (i - last_id n) - 2"
    by (simp add: unat_sub)
  with Opened show ?thesis by (simp add: last_open diff_diff_eq add.commute)
next
  case (Acked j)
  then show ?thesis by (simp add: last_ack)
qed

lemma not_pending_events:
  assumes "pending n i = None" and "2 * length es < unat (i - last_id n)"
  shows "pending (events n es) i = None"
  using assms
proof (induction es arbitrary: n)
  case Nil
  then show ?case by simp
next
  case (Cons e es)
  then have "pending (event n e) i = None" by (intro not_pending_event) auto
  moreover have "2 * length es < unat (i - last_id (event n e))"
    using Cons.prems(2) distance_event [of i n e] by simp
  ultimately show ?case using Cons.IH by simp
qed

lemma acked_stays_gone:
  assumes "2 * length es < unat (i - last_id n)"
  shows "pending (events n (Acked i # es)) i = None"
  using assms not_pending_events [of "ack_op n i" i es] by (simp add: pending_ack last_ack)

text \<open>A notification keeps being pending through every event but its own acknowledgement.\<close>

lemma pending_until_ack:
  assumes "pending n i = Some p" and "Acked i \<notin> set es" and "2 * length es < unat (i - last_id n)"
  shows "pending (events n es) i = Some p"
  using assms
proof (induction es arbitrary: n)
  case Nil
  then show ?case by simp
next
  case (Cons e es)
  have far: "2 < unat (i - last_id n)" using Cons.prems(3) by simp
  then have "i \<noteq> last_id n + 1" "i \<noteq> last_id n + 2" by auto
  with Cons.prems have "pending (event n e) i = Some p"
    by (cases e) (auto simp: pending_open pending_ack)
  moreover have "2 * length es < unat (i - last_id (event n e))"
    using Cons.prems(3) far distance_event [of i n e] by simp
  ultimately show ?case using Cons by simp
qed

end

definition pending_packet :: "notifier \<Rightarrow> int64 \<Rightarrow> packet option" where
  "pending_packet n i = map_option rp_packet (nt_data n i)"

lemma notify_simps [simp]:
  "nt_data (notify n) = nt_data n" "nt_ackID (notify n) = nt_ackID n" "nt_queue (notify n) = nt_queue n"
  by (simp_all add: notify_def)

lemma open_one_simps [simp]:
  "nt_ackID (open_one n p q) = nt_ackID n + 1"
  "nt_queue (open_one n p q) = nt_queue n"
  "nt_read (open_one n p q) = nt_read n"
  "nt_data (open_one n p q) = (nt_data n)(nt_ackID n + 1 \<mapsto>
     \<lparr>rp_packet = tunnel_packet p q (nt_ackID n + 1), rp_counter = 0\<rparr>)"
  by (simp_all add: open_one_def Let_def)

lemma Notifier_OpenTunnel_simps [simp]:
  "nt_ackID (Notifier_OpenTunnel n src dst) = nt_ackID n + 2"
  "nt_queue (Notifier_OpenTunnel n src dst) = nt_queue n"
  "nt_data (Notifier_OpenTunnel n src dst) = (nt_data n)
     (nt_ackID n + 1 \<mapsto> \<lparr>rp_packet = tunnel_packet src dst (nt_ackID n + 1), rp_counter = 0\<rparr>,
      nt_ackID n + 2 \<mapsto> \<lparr>rp_packet = tunnel_packet dst src (nt_ackID n + 2), rp_counter = 0\<rparr>)"
  by (simp_all add: Notifier_OpenTunnel_def add.commute [of 2])

lemma openTunnelAck_simps [simp]:
  "nt_data (openTunnelAck n i) = (nt_data n)(i := None)"
  "nt_ackID (openTunnelAck n i) = nt_ackID n"
  "nt_queue (openTunnelAck n i) = nt_queue n"
  "nt_read (openTunnelAck n i) = nt_read n"
  by (simp_all add: openTunnelAck_def)

interpretation tab: tunnel_notifier Notifier_OpenTunnel openTunnelAck pending_packet nt_ackID
  by unfold_locales (auto simp: pending_packet_def fun_eq_iff)

section \<open>The shape of the table's entries\<close>

text \<open>
  Every entry is an open-tunnel notification that carries its own key as \<open>AckId\<close>, and its
  retry counter is zero: no statement of the notifier ever increments a counter.
\<close>

definition entry_ok :: "int64 \<Rightarrow> retryPacket \<Rightarrow> bool" where
  "entry_ok k rp \<longleftrightarrow> rp_counter rp = 0 \<and> (\<exists>p other. rp_packet rp = tunnel_packet p other k)"

definition table_wf :: "notifier \<Rightarrow> bool" where
  "table_wf n \<longleftrightarrow> (\<forall>k rp. nt_data n k = Some rp \<longrightarrow> entry_ok k rp)"

lemma table_wf_new [simp]: "table_wf newNotifier"
  by (simp add: table_wf_def newNotifier_def)

lemma table_wf_OpenTunnel: "table_wf n \<Longrightarrow> table_wf (Notifier_OpenTunnel n src dst)"
  by (auto simp: table_wf_def entry_ok_def)

lemma table_wf_Ack: "table_wf n \<Longrightarrow> table_wf (openTunnelAck n i)"
  by (auto simp: table_wf_def)

lemma table_wf_queue [simp]: "table_wf (n\<lparr>nt_queue := q\<rparr>) = table_wf n"
  and table_wf_read [simp]: "table_wf (n\<lparr>nt_read := r\<rparr>) = table_wf n"
  by (simp_all add: table_wf_def)

lemma table_wf_counter: "table_wf n \<Longrightarrow> nt_data n k = Some rp \<Longrightarrow> \<not> MaxRetrySend < sint (rp_counter rp)"
  by (auto simp: table_wf_def entry_ok_def MaxRetrySend_def)

section \<open>Dispatching\<close>

definition in_flight :: "dispatcher \<Rightarrow> packet multiset" where
  "in_flight d = sum_list (map (\<lambda>c. mset (chan_buf c)) (dp_chs d))"

definition has_room :: "dispatcher \<Rightarrow> nat \<Rightarrow> bool" where
  "has_room d k \<longleftrightarrow> dp_chs d \<noteq> [] \<and> 0 \<le> sint (dp_roundTrip d) \<and>
     sint (dp_roundTrip d) + int k < 2 ^ 63 \<and>
     (\<forall>c \<in> set (dp_chs d). length (chan_buf c) + k \<le> chan_cap c)"

lemma go_rem_nonneg: "0 \<le> a \<Longrightarrow> 0 < b \<Longrightarrow> go_rem a b = a mod b"
  by (auto simp: go_rem_def sgn_if)

lemma dispatch_index_Ret:
  assumes "dp_chs d \<noteq> []" and "0 \<le> sint (dp_roundTrip d)"
  shows "dispatch_index d = Ret (nat (sint (dp_roundTrip d) mod int (length (dp_chs d))))"
  using assms by (simp add: dispatch_index_def go_rem_nonneg Let_def not_less)

lemma dispatch_index_bound: "dispatch_index d = Ret i \<Longrightarrow> i < length (dp_chs d)"
proof -
  assume i: "dispatch_index d = Ret i"
  have lt: "\<bar>x\<bar> mod int (length (dp_chs d)) < int (length (dp_chs d))" if "dp_chs d \<noteq> []" for x
    using that by (intro pos_mod_bound) simp
  show "i < length (dp_chs d)"
    using i lt [of "sint (dp_roundTrip d)"]
    by (auto simp: dispatch_index_def go_rem_def Let_def sgn_if nat_less_iff split: if_splits)
qed

lemma sum_list_update_mset:
  "i < length xs \<Longrightarrow>
    sum_list (map f (xs[i := y])) + f (xs ! i) = sum_list (map f xs) + (f y :: 'b multiset)"
proof (induction xs arbitrary: i)
  case Nil
  then show ?case by simp
next
  case (Cons x xs)
  then show ?case by (cases i) (auto simp: ac_simps)
qed

lemma dispatch_Ret_iff:
  "dispatch d p = Ret d' \<longleftrightarrow> (\<exists>i. dispatch_index d = Ret i \<and> \<not> chan_full (dp_chs d ! i) \<and>
     d' = d\<lparr>dp_chs := (dp_chs d)[i := (dp_chs d ! i)\<lparr>chan_buf := chan_buf (dp_chs d ! i) @ [p]\<rparr>],
            dp_roundTrip := dp_roundTrip d + 1\<rparr>)"
  by (auto simp: dispatch_def go_simps chan_simps)

lemma dispatch_conserves:
  assumes "dispatch d p = Ret d'"
  shows "in_flight d' = add_mset p (in_flight d)"
proof -
  from assms obtain i where i: "dispatch_index d = Ret i"
    and d': "d' = d\<lparr>dp_chs := (dp_chs d)[i := (dp_chs d ! i)\<lparr>chan_buf := chan_buf (dp_chs d ! i) @ [p]\<rparr>],
            dp_roundTrip := dp_roundTrip d + 1\<rparr>"
    by (auto simp: dispatch_Ret_iff)
  let ?f = "\<lambda>c. mset (chan_buf c)"
  have "in_flight d' + ?f (dp_chs d ! i) = in_flight d + (?f (dp_chs d ! i) + {#p#})"
    using sum_list_update_mset [OF dispatch_index_bound [OF i], of ?f] d' by (simp add: in_flight_def)
  then show ?thesis by (simp add: add.assoc [symmetric] add.commute add.left_commute)
qed

lemma sint_add_one:
  fixes w :: int64
  assumes "0 \<le> sint w" and "sint w + 1 < 2 ^ 63"
  shows "sint (w + 1) = sint w + 1"
proof -
  have "sint (w + 1) = signed_take_bit 63 (sint w + 1)"
    by (simp add: sint_word_ariths)
  also have "\<dots> = sint w + 1"
    using assms by (intro signed_take_bit_int_eq_self) auto
  finally show ?thesis .
qed

lemma dispatch_room:
  assumes "has_room d (Suc k)"
  shows "\<exists>d'. dispatch d p = Ret d' \<and> has_room d' k"
proof -
  let ?i = "nat (sint (dp_roundTrip d) mod int (length (dp_chs d)))"
  from assms have ix: "dispatch_index d = Ret ?i"
    by (auto simp: has_room_def dispatch_index_Ret)
  then have lt: "?i < length (dp_chs d)" by (rule dispatch_index_bound)
  let ?c = "dp_chs d ! ?i"
  have room: "length (chan_buf ?c) + Suc k \<le> chan_cap ?c" using assms lt by (auto simp: has_room_def)
  then have nf: "\<not> chan_full ?c" by (simp add: chan_full_def)
  let ?d = "d\<lparr>dp_chs := (dp_chs d)[?i := ?c\<lparr>chan_buf := chan_buf ?c @ [p]\<rparr>],
              dp_roundTrip := dp_roundTrip d + 1\<rparr>"
  have "dispatch d p = Ret ?d" using ix nf by (auto simp: dispatch_Ret_iff)
  moreover have "sint (dp_roundTrip d + 1) = sint (dp_roundTrip d) + 1"
    using assms by (intro sint_add_one) (auto simp: has_room_def)
  then have "has_room ?d k"
    using assms room set_update_subset_insert [of "dp_chs d" ?i] by (fastforce simp: has_room_def)
  ultimately show ?thesis by blast
qed

section \<open>Retrying\<close>

lemma retry_entry_keeps:
  assumes "table_wf n" and "retry_entry k (n, d) = Ret (n', d')"
  shows "n' = n"
  using assms table_wf_counter [OF assms(1)]
  by (auto simp: retry_entry_def go_simps split: option.splits if_splits)

lemma retry_entry_sends:
  assumes "table_wf n" and "pending_packet n k = Some p"
  shows "retry_entry k (n, d) = go_bind (dispatch d p) (\<lambda>d'. Ret (n, d'))"
  using assms table_wf_counter [OF assms(1)]
  by (auto simp: retry_entry_def pending_packet_def)

definition pending_msgs :: "notifier \<Rightarrow> int64 list \<Rightarrow> packet list" where
  "pending_msgs n ks = List.map_filter (pending_packet n) ks"

lemma retry_conserves:
  assumes "table_wf n" and "retry ks (n, d) = Ret (n', d')"
  shows "n' = n \<and> in_flight d' = in_flight d + mset (pending_msgs n ks)"
  using assms(2)
proof (induction ks arbitrary: d)
  case Nil
  then show ?case by (simp add: pending_msgs_def map_filter_simps)
next
  case (Cons k ks)
  then obtain n1 d1 where step: "retry_entry k (n, d) = Ret (n1, d1)" and rest: "retry ks (n1, d1) = Ret (n', d')"
    by (auto simp: go_simps)
  have n1: "n1 = n" using retry_entry_keeps [OF assms(1) step] .
  with rest Cons.IH have ih: "n' = n" "in_flight d' = in_flight d1 + mset (pending_msgs n ks)" by auto
  show ?case
  proof (cases "pending_packet n k")
    case None
    then have "d1 = d" using step by (auto simp: retry_entry_def pending_packet_def)
    with ih None show ?thesis by (simp add: pending_msgs_def map_filter_simps)
  next
    case (Some p)
    then have "dispatch d p = Ret d1" using step retry_entry_sends [OF assms(1) Some] by (auto simp: go_simps)
    then have "in_flight d1 = add_mset p (in_flight d)" by (rule dispatch_conserves)
    with ih Some show ?thesis by (simp add: pending_msgs_def map_filter_simps)
  qed
qed

lemma retry_returns:
  assumes "table_wf n" and "has_room d (length ks)"
  shows "\<exists>d'. retry ks (n, d) = Ret (n, d')"
  using assms(2)
proof (induction ks arbitrary: d)
  case Nil
  then show ?case by simp
next
  case (Cons k ks)
  show ?case
  proof (cases "pending_packet n k")
    case None
    then have "retry_entry k (n, d) = Ret (n, d)" by (simp add: retry_entry_def pending_packet_def)
    moreover have "has_room d (length ks)" using Cons.prems by (fastforce simp: has_room_def)
    ultimately show ?thesis using Cons.IH by simp
  next
    case (Some p)
    from Cons.prems obtain d1 where "dispatch d p = Ret d1" "has_room d1 (length ks)"
      using dispatch_room [of d "length ks" p] by auto
    with retry_entry_sends [OF assms(1) Some] Cons.IH [of d1] show ?thesis by simp
  qed
qed

section \<open>Round robin\<close>

text \<open>Dispatching a sequence of packets.\<close>

fun dispatches :: "dispatcher \<Rightarrow> packet list \<Rightarrow> dispatcher go" where
  "dispatches d [] = Ret d"
| "dispatches d (p # ps) = go_bind (dispatch d p) (\<lambda>d'. dispatches d' ps)"

text \<open>The packets of \<open>ps\<close> that fall to channel \<open>i\<close> of \<open>n\<close> when the counter starts at \<open>r\<close>.\<close>

fun share :: "nat \<Rightarrow> nat \<Rightarrow> nat \<Rightarrow> packet list \<Rightarrow> packet list" where
  "share n i r [] = []"
| "share n i r (p # ps) = (if r mod n = i then [p] else []) @ share n i (Suc r) ps"

lemma dispatch_room_step:
  assumes "has_room d (Suc k)"
  shows "\<exists>d'. dispatch d p = Ret d' \<and> has_room d' k \<and> length (dp_chs d') = length (dp_chs d) \<and>
     nat (sint (dp_roundTrip d')) = Suc (nat (sint (dp_roundTrip d))) \<and>
     (\<forall>i < length (dp_chs d). chan_buf (dp_chs d' ! i) =
        chan_buf (dp_chs d ! i) @ share (length (dp_chs d)) i (nat (sint (dp_roundTrip d))) [p])"
proof -
  from dispatch_room [OF assms] obtain d' where d': "dispatch d p = Ret d'" "has_room d' k" by blast
  have nn: "dp_chs d \<noteq> []" "0 \<le> sint (dp_roundTrip d)" "sint (dp_roundTrip d) + 1 < 2 ^ 63"
    using assms by (auto simp: has_room_def)
  let ?i = "nat (sint (dp_roundTrip d) mod int (length (dp_chs d)))"
  have i: "?i = nat (sint (dp_roundTrip d)) mod length (dp_chs d)"
    using nn(2) by (simp add: nat_mod_distrib)
  from d'(1) have eq: "d' = d\<lparr>dp_chs := (dp_chs d)[?i := (dp_chs d ! ?i)\<lparr>chan_buf := chan_buf (dp_chs d ! ?i) @ [p]\<rparr>],
            dp_roundTrip := dp_roundTrip d + 1\<rparr>"
    by (auto simp: dispatch_Ret_iff dispatch_index_Ret [OF nn(1,2)])
  have "sint (dp_roundTrip d + 1) = sint (dp_roundTrip d) + 1" using nn by (intro sint_add_one) auto
  then show ?thesis using d' nn(2) i by (auto simp: eq nth_list_update)
qed

lemma dispatches_share:
  assumes "has_room d (length ps)"
  shows "\<exists>d'. dispatches d ps = Ret d' \<and> length (dp_chs d') = length (dp_chs d) \<and>
     (\<forall>i < length (dp_chs d). chan_buf (dp_chs d' ! i) =
        chan_buf (dp_chs d ! i) @ share (length (dp_chs d)) i (nat (sint (dp_roundTrip d))) ps)"
  using assms
proof (induction ps arbitrary: d)
  case Nil
  then show ?case by simp
next
  case (Cons p ps)
  then obtain d1 where d1: "dispatch d p = Ret d1" "has_room d1 (length ps)"
      "length (dp_chs d1) = length (dp_chs d)" "nat (sint (dp_roundTrip d1)) = Suc (nat (sint (dp_roundTrip d)))"
      "\<forall>i < length (dp_chs d). chan_buf (dp_chs d1 ! i) =
        chan_buf (dp_chs d ! i) @ share (length (dp_chs d)) i (nat (sint (dp_roundTrip d))) [p]"
    using dispatch_room_step [of d "length ps" p] by auto
  from Cons.IH [OF d1(2)] obtain d2 where "dispatches d1 ps = Ret d2" "length (dp_chs d2) = length (dp_chs d)"
      "\<forall>i < length (dp_chs d). chan_buf (dp_chs d2 ! i) = chan_buf (dp_chs d1 ! i) @
         share (length (dp_chs d)) i (Suc (nat (sint (dp_roundTrip d)))) ps"
    using d1(3,4) by auto
  with d1 show ?case by auto
qed

section \<open>Properties\<close>

definition peer_a :: PeerInfo where
  "peer_a = \<lparr>VirtAddress = ''10.0.0.1'', UDPAddress = ''1.1.1.1:10'', LastHeartbeat = 5\<rparr>"

definition peer_b :: PeerInfo where
  "peer_b = \<lparr>VirtAddress = ''10.0.0.2'', UDPAddress = ''2.2.2.2:20'', LastHeartbeat = 7\<rparr>"

text \<open>
  Round robin. With room in every channel and the counter clear of its overflow, any
  sequence of packets is dispatched without blocking or panicking, and channel \<open>i\<close> of \<open>n\<close>
  receives, in order, exactly the packets whose sequence number is \<open>i\<close> modulo \<open>n\<close>.
\<close>

theorem dispatch_round_robin:
  assumes "has_room d (length ps)"
  shows "\<exists>d'. dispatches d ps = Ret d' \<and>
     map chan_buf (dp_chs d') =
       map (\<lambda>i. chan_buf (dp_chs d ! i) @ share (length (dp_chs d)) i (nat (sint (dp_roundTrip d))) ps)
         [0..<length (dp_chs d)]"
proof -
  from dispatches_share [OF assms] obtain d' where d': "dispatches d ps = Ret d'"
    "length (dp_chs d') = length (dp_chs d)" "\<forall>i < length (dp_chs d). chan_buf (dp_chs d' ! i) =
        chan_buf (dp_chs d ! i) @ share (length (dp_chs d)) i (nat (sint (dp_roundTrip d))) ps" by blast
  then have "map chan_buf (dp_chs d') =
       map (\<lambda>i. chan_buf (dp_chs d ! i) @ share (length (dp_chs d)) i (nat (sint (dp_roundTrip d))) ps)
         [0..<length (dp_chs d)]" by (intro nth_equalityI) auto
  with d'(1) show ?thesis by blast
qed

definition fresh_dispatcher :: "nat \<Rightarrow> dispatcher" where
  "fresh_dispatcher c = \<lparr>dp_chs = replicate c (make_chan 256), dp_roundTrip = 0\<rparr>"

theorem dispatch_round_robin_witness:
  "\<exists>d'. dispatches (fresh_dispatcher 2) [tunnel_packet peer_a peer_b 1, tunnel_packet peer_b peer_a 2, tunnel_packet peer_a peer_b 3] = Ret d' \<and>
     map chan_buf (dp_chs d') =
       [[tunnel_packet peer_a peer_b 1, tunnel_packet peer_a peer_b 3], [tunnel_packet peer_b peer_a 2]]"
  using dispatch_round_robin [of "fresh_dispatcher 2"
      "[tunnel_packet peer_a peer_b 1, tunnel_packet peer_b peer_a 2, tunnel_packet peer_a peer_b 3]"]
  by (simp add: fresh_dispatcher_def has_room_def numeral_2_eq_2)

text \<open>
  Opening a tunnel. Exactly two notifications become pending, under the next two ids: the
  source learns the destination's virtual and UDP address and the destination the source's.
  No earlier notification is disturbed, unless its id is handed out again after the 64-bit
  counter has come round, and nothing is queued for relaying.
\<close>

theorem OpenTunnel_crosses_addresses:
  assumes "j \<noteq> nt_ackID n + 1" and "j \<noteq> nt_ackID n + 2"
  shows "pending_packet (Notifier_OpenTunnel n src dst) (nt_ackID n + 1) =
      Some \<lparr>pk_destination = UDPAddress src, pk_typ = PacketType_OpenTunnel,
        pk_message = PayloadProto (MOpenTunnel \<lparr>tunnel_AckId = nt_ackID n + 1,
          tunnel_VirtAddress = VirtAddress dst, tunnel_UdpAddress = UDPAddress dst\<rparr>)\<rparr> \<and>
    pending_packet (Notifier_OpenTunnel n src dst) (nt_ackID n + 2) =
      Some \<lparr>pk_destination = UDPAddress dst, pk_typ = PacketType_OpenTunnel,
        pk_message = PayloadProto (MOpenTunnel \<lparr>tunnel_AckId = nt_ackID n + 2,
          tunnel_VirtAddress = VirtAddress src, tunnel_UdpAddress = UDPAddress src\<rparr>)\<rparr> \<and>
    pending_packet (Notifier_OpenTunnel n src dst) j = pending_packet n j \<and>
    nt_queue (Notifier_OpenTunnel n src dst) = nt_queue n"
  using assms by (simp add: tab.pending_open tunnel_packet_def)

theorem OpenTunnel_crosses_addresses_witness:
  "pending_packet (Notifier_OpenTunnel newNotifier peer_a peer_b) 1 =
      Some \<lparr>pk_destination = ''1.1.1.1:10'', pk_typ = PacketType_OpenTunnel,
        pk_message = PayloadProto (MOpenTunnel \<lparr>tunnel_AckId = 1,
          tunnel_VirtAddress = ''10.0.0.2'', tunnel_UdpAddress = ''2.2.2.2:20''\<rparr>)\<rparr> \<and>
    pending_packet (Notifier_OpenTunnel newNotifier peer_a peer_b) 3 = None"
  using OpenTunnel_crosses_addresses [of 3 newNotifier peer_a peer_b]
  by (simp add: newNotifier_def pending_packet_def peer_a_def peer_b_def)

text \<open>The events of the table, folded over the notifier's operations.\<close>

fun table_event_step :: "notifier \<Rightarrow> table_event \<Rightarrow> notifier" where
  "table_event_step n (Opened src dst) = Notifier_OpenTunnel n src dst"
| "table_event_step n (Acked i) = openTunnelAck n i"

definition table_events :: "notifier \<Rightarrow> table_event list \<Rightarrow> notifier" where
  "table_events n es = foldl table_event_step n es"

lemma table_events_tab: "table_events n es = tab.events n es"
proof -
  have "table_event_step = tab.event" by (intro ext, case_tac xa) auto
  then show ?thesis by (simp add: table_events_def tab.events_def)
qed

text \<open>
  A pending notification survives every sequence of further tunnels and acknowledgements
  that does not contain its own acknowledgement, as long as the 64-bit id counter does not come
  round to it; and once acknowledged it is gone, with the same proviso.
\<close>

theorem notification_lives_until_acked:
  assumes "pending_packet n i = Some p" and "Acked i \<notin> set es" and "2 * (length es + length fs) < unat (i - nt_ackID n)"
  shows "pending_packet (table_events n es) i = Some p \<and>
     pending_packet (table_events n (Acked i # fs)) i = None"
  using assms tab.pending_until_ack [of n i p es] tab.acked_stays_gone [of fs i n]
  by (simp add: table_events_tab)

theorem notification_lives_until_acked_witness:
  "pending_packet (table_events (Notifier_OpenTunnel newNotifier peer_a peer_b) [Opened peer_b peer_a, Acked 2]) 1 =
     Some (tunnel_packet peer_a peer_b 1) \<and>
   pending_packet (table_events (Notifier_OpenTunnel newNotifier peer_a peer_b) [Acked 1, Opened peer_a peer_b]) 1 = None"
  using notification_lives_until_acked [of "Notifier_OpenTunnel newNotifier peer_a peer_b" 1
      "tunnel_packet peer_a peer_b 1" "[Opened peer_b peer_a, Acked 2]" "[Opened peer_a peer_b]"]
  by (simp add: newNotifier_def pending_packet_def unsigned_minus_1_eq_mask mask_eq_exp_minus_1)


text \<open>
  C16: one pass of \<open>retry\<close>. If every channel has room for as many packets as there are entries,
  the pass neither blocks nor panics, whatever order Go's map iteration takes; it hands every
  pending notification to the workers exactly once and leaves the table as it was.
\<close>

theorem retry_sends_all_pending:
  assumes "table_wf n" and "distinct ks" and "set ks = dom (nt_data n)" and "has_room d (length ks)"
  shows "\<exists>d'. retry ks (n, d) = Ret (n, d') \<and>
     in_flight d' = in_flight d + image_mset (\<lambda>k. the (pending_packet n k)) (mset_set (dom (nt_data n)))"
proof -
  from retry_returns [OF assms(1,4)] obtain d' where d': "retry ks (n, d) = Ret (n, d')" by blast
  have "pending_msgs n xs = map (\<lambda>k. the (pending_packet n k)) xs" if "set xs \<subseteq> dom (nt_data n)" for xs
    using that by (induction xs) (auto simp: pending_msgs_def map_filter_simps pending_packet_def)
  then have "mset (pending_msgs n ks) = image_mset (\<lambda>k. the (pending_packet n k)) (mset ks)"
    using assms(3) by simp
  also have "mset ks = mset_set (dom (nt_data n))" using assms(2,3) by (metis mset_set_set)
  finally show ?thesis using d' retry_conserves [OF assms(1) d'] by auto
qed

theorem retry_sends_all_pending_witness:
  "\<exists>d'. retry [2, 1] (Notifier_OpenTunnel newNotifier peer_a peer_b, fresh_dispatcher 3) =
       Ret (Notifier_OpenTunnel newNotifier peer_a peer_b, d') \<and>
     in_flight d' = {#tunnel_packet peer_a peer_b 1, tunnel_packet peer_b peer_a 2#}"
proof -
  let ?n = "Notifier_OpenTunnel newNotifier peer_a peer_b"
  have wf: "table_wf ?n" by (simp add: table_wf_OpenTunnel)
  have dom: "dom (nt_data ?n) = {1, 2}" by (auto simp: newNotifier_def)
  have room: "has_room (fresh_dispatcher 3) (length [2 :: int64, 1])" by (simp add: has_room_def fresh_dispatcher_def)
  have "in_flight (fresh_dispatcher 3) = {#}" by (simp add: in_flight_def fresh_dispatcher_def)
  moreover have "the (pending_packet ?n 1) = tunnel_packet peer_a peer_b 1"
    "the (pending_packet ?n 2) = tunnel_packet peer_b peer_a 2"
    by (simp_all add: pending_packet_def newNotifier_def)
  ultimately show ?thesis
    using retry_sends_all_pending [OF wf _ _ room] unfolding dom
    by (simp del: retry.simps add: insert_commute add_mset_commute)
qed

text \<open>Passes of \<open>retry\<close> with any orders and any work of the workers between them.\<close>

inductive retry_passes :: "notifier \<Rightarrow> nat \<Rightarrow> notifier \<Rightarrow> bool" where
  no_pass: "retry_passes n 0 n"
| pass: "retry_passes n k m \<Longrightarrow> retry ks (m, d) = Ret (m', d') \<Longrightarrow> retry_passes n (Suc k) m'"

lemma retry_passes_keep: "retry_passes n k m \<Longrightarrow> table_wf n \<Longrightarrow> m = n"
proof (induction rule: retry_passes.induct)
  case (no_pass n)
  then show ?case by simp
next
  case (pass n k m ks d m' d')
  then show ?case using retry_conserves by blast
qed

text \<open>
  C17: the notifier never gives up. No number of retry passes removes a pending notification:
  the bound \<open>MaxRetrySend\<close> on the retry counter is never reached because nothing increments
  the counter, so a notification whose acknowledgement never arrives is sent for ever.
\<close>

theorem retry_never_gives_up:
  assumes "table_wf n" and "pending_packet n i = Some p" and "retry_passes n k m"
  shows "pending_packet m i = Some p \<and> (\<forall>d. retry_entry i (m, d) = go_bind (dispatch d p) (\<lambda>d'. Ret (m, d')))"
  using assms retry_passes_keep [OF assms(3,1)] retry_entry_sends [OF assms(1,2)] by simp

theorem retry_never_gives_up_witness:
  "\<exists>m. retry_passes (Notifier_OpenTunnel newNotifier peer_a peer_b) 2 m \<and>
     pending_packet m 1 = Some (tunnel_packet peer_a peer_b 1)"
proof -
  let ?n = "Notifier_OpenTunnel newNotifier peer_a peer_b"
  have wf: "table_wf ?n" by (simp add: table_wf_OpenTunnel)
  have p: "pending_packet ?n 1 = Some (tunnel_packet peer_a peer_b 1)" by (simp add: pending_packet_def newNotifier_def)
  have "has_room (fresh_dispatcher 1) (length [1 :: int64, 2])" by (simp add: has_room_def fresh_dispatcher_def)
  then have "\<exists>d'. retry [1, 2] (?n, fresh_dispatcher 1) = Ret (?n, d')" by (rule retry_returns [OF wf])
  then have "retry_passes ?n (Suc (Suc 0)) ?n" by (metis retry_passes.intros)
  then show ?thesis using retry_never_gives_up [OF wf p] by (metis numeral_2_eq_2)
qed

lemma dispatch_negative:
  assumes "sint (dp_roundTrip d) < 0" "dp_chs d \<noteq> []" "\<not> int (length (dp_chs d)) dvd sint (dp_roundTrip d)"
  shows "dispatch d q = Panic ''index out of range''"
proof -
  have "0 < \<bar>sint (dp_roundTrip d)\<bar> mod int (length (dp_chs d))"
    using assms pos_mod_sign [of "int (length (dp_chs d))" "\<bar>sint (dp_roundTrip d)\<bar>"]
    by (auto simp: less_le dvd_eq_mod_eq_0 [symmetric])
  with assms show ?thesis by (simp add: dispatch_def dispatch_index_def go_rem_def Let_def)
qed

lemma dispatch_fresh:
  assumes "0 < c" and "0 \<le> sint r"
  shows "\<exists>d. dispatch \<lparr>dp_chs = replicate c (make_chan 256), dp_roundTrip = r\<rparr> p = Ret d \<and>
     length (dp_chs d) = c \<and> dp_roundTrip d = r + 1"
proof -
  let ?d = "\<lparr>dp_chs = replicate c (make_chan 256 :: packet chan), dp_roundTrip = r\<rparr>"
  obtain i where i: "dispatch_index ?d = Ret i" using assms dispatch_index_Ret [of ?d] by fastforce
  then have "i < c" using dispatch_index_bound [OF i] by simp
  with i show ?thesis by (simp add: dispatch_def chan_send_def)
qed

text \<open>
  C36: where the dispatcher panics. With no worker (\<open>concurrency\<close> 0) the first packet divides by
  zero, a negative \<open>concurrency\<close> panics at start, and a dispatcher whose number of workers does
  not divide \<open>2 ^ 63\<close> panics on the packet after its counter reached the largest 64-bit integer:
  the counter wraps round to a negative number and so does the index.
\<close>

theorem dispatch_panics:
  assumes "0 < c" and "\<not> int c dvd 2 ^ 63"
  shows "(\<exists>d e. start_dispatcher 0 = Ret d \<and> dispatch d p = Panic e) \<and> (\<exists>e. start_dispatcher (- int c) = Panic e) \<and>
    (\<exists>d e. dispatch \<lparr>dp_chs = replicate c (make_chan 256), dp_roundTrip = 0x7FFFFFFFFFFFFFFF\<rparr> p = Ret d \<and>
       dispatch d q = Panic e)"
proof (intro conjI)
  show "\<exists>d e. start_dispatcher 0 = Ret d \<and> dispatch d p = Panic e"
    by (simp add: start_dispatcher_def dispatch_def dispatch_index_def)
  show "\<exists>e. start_dispatcher (- int c) = Panic e" using assms(1) by (simp add: start_dispatcher_def)
  have top: "0 \<le> sint (0x7FFFFFFFFFFFFFFF :: int64)" "sint (0x7FFFFFFFFFFFFFFF + 1 :: int64) = - (2 ^ 63)" by simp_all
  obtain d where d: "dispatch \<lparr>dp_chs = replicate c (make_chan 256), dp_roundTrip = 0x7FFFFFFFFFFFFFFF\<rparr> p = Ret d"
    "length (dp_chs d) = c" "dp_roundTrip d = 0x7FFFFFFFFFFFFFFF + 1"
    using dispatch_fresh [OF assms(1) top(1)] by blast
  have "dp_chs d \<noteq> []" using d(2) assms(1) by auto
  moreover have "\<not> int (length (dp_chs d)) dvd sint (dp_roundTrip d)"
    unfolding d(2,3) top(2) dvd_minus_iff by (rule assms(2))
  moreover have "sint (dp_roundTrip d) < 0" unfolding d(3) top(2) by simp
  ultimately have "dispatch d q = Panic ''index out of range''" by (intro dispatch_negative)
  with d(1) show "\<exists>d e. dispatch \<lparr>dp_chs = replicate c (make_chan 256), dp_roundTrip = 0x7FFFFFFFFFFFFFFF\<rparr> p = Ret d \<and>
       dispatch d q = Panic e" by blast
qed

theorem dispatch_panics_witness:
  "\<exists>d e. dispatch \<lparr>dp_chs = replicate 3 (make_chan 256), dp_roundTrip = 0x7FFFFFFFFFFFFFFF\<rparr>
     (tunnel_packet peer_a peer_b 1) = Ret d \<and> dispatch d (tunnel_packet peer_b peer_a 2) = Panic e"
proof -
  have "(0::nat) < 3" and "\<not> int 3 dvd 2 ^ 63" by simp_all
  from dispatch_panics [OF this] show ?thesis by blast
qed

end
