(* ===== verification/Api_Client.thy ===== *)
theory Api_Client
  imports Api
begin

text \<open>
  Package \<open>api\<close>, the client's half (\<open>api/api_client.go\<close>). HTTP is the environment of the
  client: an \<open>http_env\<close> says how \<open>http.NewRequest\<close> and \<open>http.DefaultClient.Do\<close> answer, the latter
  threading the state of the remote side. A request carries the structure its JSON body
  encodes (a structure of strings always encodes), a response the outcome of decoding its body
  into a \<open>Result\<close>.
\<close>

record Client =
  cl_gateway :: string
  cl_key :: string
  cl_tls :: bool

definition NewClient :: "string \<Rightarrow> string \<Rightarrow> bool \<Rightarrow> Client" where
  "NewClient gateway key tls = \<lparr>cl_gateway = gateway, cl_key = key, cl_tls = tls\<rparr>"

record http_request =
  hr_verb :: string
  hr_url :: string
  hr_content_type :: string
  hr_body :: OpenTunnelRequest

record http_response =
  resp_StatusCode :: int
  resp_Status :: string
  resp_Body :: "string + Result"

record 'w http_env =
  env_NewRequest :: "string \<Rightarrow> string \<Rightarrow> string option"
  env_Do :: "'w \<Rightarrow> http_request \<Rightarrow> (string + http_response) \<times> 'w"

definition StatusOK :: int where "StatusOK = 200"

text \<open>What \<open>do\<close> makes of a response.\<close>

definition do_response :: "string \<Rightarrow> http_response \<Rightarrow> go_error option" where
  "do_response api resp =
     (if resp_StatusCode resp \<noteq> StatusOK then Some (ErrNew (resp_Status resp))
      else case resp_Body resp of
        Inl err \<Rightarrow> Some (ErrWithMessage (ErrNew err) (''invalid json response when request '' @ api))
      | Inr result \<Rightarrow>
          if \<not> isSuccess (result_Code result)
          then Some (ErrorWithCode (result_Code result) (ErrNew (result_Error result)))
          else None)"

text \<open>
  \<open>do\<close>: a nil reader leaves \<open>request.Body\<close> nil, and \<open>request.Body.Close()\<close> on a nil interface
  panics.
\<close>

definition Client_do ::
  "'w http_env \<Rightarrow> 'w \<Rightarrow> Client \<Rightarrow> string \<Rightarrow> string \<Rightarrow> OpenTunnelRequest option \<Rightarrow> go_error option go \<times> 'w" where
  "Client_do env w c verb api reader =
     (let prefix = (if cl_tls c then ''https://'' @ cl_gateway c else ''http://'' @ cl_gateway c);
          url = prefix @ api
      in case env_NewRequest env verb url of
           Some err \<Rightarrow> (Ret (Some (ErrWithStack (ErrNew err))), w)
         | None \<Rightarrow>
             (case reader of
                None \<Rightarrow> (Panic ''invalid memory address or nil pointer dereference'', w)
              | Some body \<Rightarrow>
                  (case env_Do env w \<lparr>hr_verb = verb, hr_url = url,
                      hr_content_type = ''application/json; charset=utf-8'', hr_body = body\<rparr> of
                     (Inl err, w') \<Rightarrow> (Ret (Some (ErrWithStack (ErrNew err))), w')
                   | (Inr resp, w') \<Rightarrow> (Ret (do_response api resp), w'))))"

definition Client_get :: "'w http_env \<Rightarrow> 'w \<Rightarrow> Client \<Rightarrow> string \<Rightarrow> go_error option go \<times> 'w" where
  "Client_get env w c api = Client_do env w c ''GET'' api None"

definition Client_post ::
  "'w http_env \<Rightarrow> 'w \<Rightarrow> Client \<Rightarrow> string \<Rightarrow> OpenTunnelRequest \<Rightarrow> go_error option go \<times> 'w" where
  "Client_post env w c api req = Client_do env w c ''POST'' api (Some req)"

definition Client_OpenTunnel ::
  "version_vars \<Rightarrow> 'w http_env \<Rightarrow> 'w \<Rightarrow> Client \<Rightarrow> string \<Rightarrow> string \<Rightarrow> go_error option go \<times> 'w" where
  "Client_OpenTunnel vars env w c src dst =
     (let req = \<lparr>req_Version = Version_String (NewVersion vars []), req_Algorithm = [], req_Nonce = [],
                 req_Cipher = [], req_Source = src, req_Destination = dst\<rparr>;
          (r, w') = Client_post env w c URIOpenTunnel req
      in (go_bind r (\<lambda>err. Ret (map_option (\<lambda>e. ErrWithMessage e ''open tunnel failed'') err)), w'))"

lemma do_response_None_iff:
  "do_response api resp = None \<longleftrightarrow> resp_StatusCode resp = StatusOK \<and>
     (\<exists>res. resp_Body resp = Inr res \<and> result_Code res = StatusCode_Success)"
  by (auto simp: do_response_def isSuccess_def split: sum.splits)

lemma Client_post_Ret: "\<exists>e. fst (Client_post env w c api req) = Ret e"
  by (auto simp: Client_post_def Client_do_def Let_def split: option.splits prod.splits sum.splits)

text \<open>The client never sends the key: two clients that differ only there send the same requests.\<close>

lemma Client_do_key: "Client_do env w (c\<lparr>cl_key := k\<rparr>) verb api body = Client_do env w c verb api body"
  by (simp add: Client_do_def)


section \<open>Properties\<close>

text \<open>
  \<open>Client.get\<close> cannot be used: whenever \<open>http.NewRequest\<close> accepts the URL, it panics on the
  nil body of the request before anything is sent, and the remote side is not reached. It
  returns an error in the only other case.
\<close>

theorem Client_get_panics:
  "fst (Client_get env w c api) =
     (case env_NewRequest env ''GET'' ((if cl_tls c then ''https://'' else ''http://'') @ cl_gateway c @ api) of
        None \<Rightarrow> Panic ''invalid memory address or nil pointer dereference''
      | Some err \<Rightarrow> Ret (Some (ErrWithStack (ErrNew err)))) \<and>
   snd (Client_get env w c api) = w"
  by (auto simp: Client_get_def Client_do_def Let_def split: option.splits)

end
