(* ===== verification/Gateway.thy ===== *)
theory Gateway
  imports Notifier Api_Client
begin

text \<open>
  The gateway (\<open>gateway/processor.go\<close>, \<open>gateway/gateway.go\<close>): the handler of one datagram, the
  turn of the UDP loop around it, the encoders that wrap API results, and the HTTP route from a client
  through the server and back.
\<close>

section \<open>The processor\<close>

text \<open>
  The array \<open>protos\<close> has length 4 (index 2 is nil). Its messages are reset before each use, so
  only their dynamic types matter.
\<close>

definition gw_protos :: "proto_message option list" where
  "gw_protos =
     [Some (MHeartbeat \<lparr>heartbeat_VirtAddress = ''''\<rparr>),
      Some (MRelay \<lparr>relay_VirtAddress = '''', relay_Data = []\<rparr>),
      None,
      Some (MOpenTunnelAck \<lparr>ack_AckId = 0\<rparr>)]"

text \<open>The two branches of the type switch that touch the server and the notifier.\<close>

definition process_relay :: "notifier Server \<Rightarrow> CtrlRelay \<Rightarrow> (go_error option \<times> notifier Server) go" where
  "process_relay s r =
     (case Peer s (relay_VirtAddress r) of
        None \<Rightarrow> Ret (Some (ErrNew (''destination peer '' @ quoted (relay_VirtAddress r) @ '' not found'')), s)
      | Some dst \<Rightarrow>
          go_bind (relay (srv_notifier s) (UDPAddress dst) (relay_Data r))
            (\<lambda>n. Ret (None, s\<lparr>srv_notifier := n\<rparr>)))"

definition process_switch ::
  "notifier Server \<Rightarrow> string \<Rightarrow> PacketType \<Rightarrow> proto_message \<Rightarrow> time \<Rightarrow> (go_error option \<times> notifier Server) go" where
  "process_switch s addr packetType m now =
     (if packetType = PacketType_Heartbeat then
        (case m of MHeartbeat hb \<Rightarrow>
           if heartbeat_VirtAddress hb = '''' then Ret (None, s)
           else Ret (None, Heartbeat s addr hb now)
         | _ \<Rightarrow> Panic ''interface conversion'')
      else if packetType = PacketType_OpenTunnelAck then
        (case m of MOpenTunnelAck a \<Rightarrow>
           Ret (None, s\<lparr>srv_notifier := openTunnelAck (srv_notifier s) (ack_AckId a)\<rparr>)
         | _ \<Rightarrow> Panic ''interface conversion'')
      else if packetType = PacketType_Relay then
        (case m of MRelay r \<Rightarrow> process_relay s r | _ \<Rightarrow> Panic ''interface conversion'')
      else Ret (None, s))"

definition process ::
  "proto_lib \<Rightarrow> notifier Server \<Rightarrow> string \<Rightarrow> bytes \<Rightarrow> time \<Rightarrow> (go_error option \<times> notifier Server) go" where
  "process P s addr data now =
     (if data = [] then Panic ''index out of range''
      else let packetType = packetType_of data
      in if int (length gw_protos) \<le> sint packetType
         then Ret (Some (ErrNew (''unrecognized message type: '' @ dec_int (sint packetType))), s)
         else if sint packetType < 0 then Panic ''index out of range''
         else (case gw_protos ! nat (sint packetType) of
                 None \<Rightarrow> Ret (None, s)
               | Some protoType \<Rightarrow>
                   (case proto_Unmarshal P (proto_Reset protoType) (tl data) of
                      Inl err \<Rightarrow> Ret (Some (ErrWithMessage (ErrNew err)
                          (''unmarshal message '' @ proto_EnumString P packetType @ '' failed'')), s)
                    | Inr m \<Rightarrow> process_switch s addr packetType m now)))"

text \<open>
  One turn of the loop of \<open>Serve\<close>: \<open>ReadFromUDP\<close> fills a buffer of \<open>MaxBufferSize\<close> bytes, so a
  longer datagram arrives cut off; errors of \<open>process\<close> are logged.
\<close>

definition serve_turn :: "proto_lib \<Rightarrow> notifier Server \<Rightarrow> string \<Rightarrow> bytes \<Rightarrow> time \<Rightarrow> notifier Server go" where
  "serve_turn P s remote datagram now =
     (let data = take MaxBufferSize datagram
      in if length data < 1 then Ret s
         else go_bind (process P s remote data now) (\<lambda>(err, s'). Ret s'))"

section \<open>The HTTP side\<close>

definition errorEncoder :: "go_error \<Rightarrow> Result" where
  "errorEncoder err =
     \<lparr>result_Code = (case err of ErrAPI c _ \<Rightarrow> c | _ \<Rightarrow> StatusCode_ServerInternal),
      result_Error = Error_text err, result_Data = None\<rparr>"

definition responseEncoder :: "OpenTunnelResponse \<Rightarrow> Result" where
  "responseEncoder payload =
     \<lparr>result_Code = StatusCode_Success, result_Error = [], result_Data = Some payload\<rparr>"

text \<open>
  The middleware: the plugin stores the request in the context under \<open>KeyRawRequest\<close>, from where the encoders take it for
  their log; without it, the type assertion would panic.
\<close>

record http_context =
  ctx_raw_request :: "string option"  \<comment> \<open>the URI of the stored request\<close>

definition request_plugin :: "http_context \<Rightarrow> string \<Rightarrow> http_context" where
  "request_plugin ctx request = ctx\<lparr>ctx_raw_request := Some request\<rparr>"

definition encode_error :: "http_context \<Rightarrow> go_error \<Rightarrow> Result go" where
  "encode_error ctx err = (case ctx_raw_request ctx of None \<Rightarrow> Panic ''interface conversion'' | Some _ \<Rightarrow> Ret (errorEncoder err))"

definition encode_response :: "http_context \<Rightarrow> OpenTunnelResponse \<Rightarrow> Result go" where
  "encode_response ctx payload =
     (case ctx_raw_request ctx of None \<Rightarrow> Panic ''interface conversion'' | Some _ \<Rightarrow> Ret (responseEncoder payload))"

lemma encoders_after_plugin:
  "encode_error (request_plugin ctx request) err = Ret (errorEncoder err)"
  "encode_response (request_plugin ctx request) payload = Ret (responseEncoder payload)"
  by (simp_all add: encode_error_def encode_response_def request_plugin_def)

text \<open>
  The gateway as the environment of an API client: the route of \<open>Serve\<close>, with the library
  \<open>fn\<close>'s choice of the HTTP status of a failed handler as the parameter \<open>fail\<close>. The HTTP transport
  between them may fail at every stage: \<open>http.NewRequest\<close> refuses the URL, the request does not reach the gateway, the
  gateway handles it and the response is lost, or the body of the response is cut off, so that it is no JSON text.
\<close>

datatype transport = BadURL string | Unsent string | Lost string | CutOff string | Delivered

definition deliver :: "transport \<Rightarrow> http_response \<Rightarrow> string + http_response" where
  "deliver tr resp = (case tr of Lost e \<Rightarrow> Inl e | CutOff e \<Rightarrow> Inr (resp\<lparr>resp_Body := Inl e\<rparr>) | _ \<Rightarrow> Inr resp)"

definition gateway_env ::
  "version_vars \<Rightarrow> (string \<Rightarrow> string + int64) \<Rightarrow> (go_error \<Rightarrow> int \<times> string) \<Rightarrow> transport \<Rightarrow> string \<Rightarrow> notifier Server http_env" where
  "gateway_env vars semver fail tr base =
     \<lparr>env_NewRequest = (\<lambda>_ _. case tr of BadURL e \<Rightarrow> Some e | _ \<Rightarrow> None),
      env_Do = (\<lambda>s req. case tr of
        Unsent e \<Rightarrow> (Inl e, s)
      | _ \<Rightarrow>
        if hr_verb req = ''POST'' \<and> hr_url req = base @ URIOpenTunnel then
          (case Server_OpenTunnel vars semver Notifier_OpenTunnel s (hr_body req) of
             (Inl e, s') \<Rightarrow> (deliver tr \<lparr>resp_StatusCode = fst (fail e), resp_Status = snd (fail e),
                                resp_Body = Inr (errorEncoder e)\<rparr>, s')
           | (Inr r, s') \<Rightarrow> (deliver tr \<lparr>resp_StatusCode = StatusOK, resp_Status = ''200 OK'',
                                resp_Body = Inr (responseEncoder r)\<rparr>, s'))
        else (deliver tr \<lparr>resp_StatusCode = 404, resp_Status = ''404 Not Found'', resp_Body = Inl ''EOF''\<rparr>, s))\<rparr>"

section \<open>The processor's behaviour\<close>

lemma byte_lt_4_cases:
  assumes "uint (b :: byte) < 4"
  shows "b = 0 \<or> b = 1 \<or> b = 2 \<or> b = 3"
proof -
  have "uint b = 0 \<or> uint b = 1 \<or> uint b = 2 \<or> uint b = 3"
    using assms uint_ge_0 [of b] by linarith
  then show ?thesis by (auto simp: word_uint_eq_iff)
qed

definition gw_unmarshal_failed :: "proto_lib \<Rightarrow> PacketType \<Rightarrow> string \<Rightarrow> go_error option" where
  "gw_unmarshal_failed P t err = Some (ErrWithMessage (ErrNew err)
     (''unmarshal message '' @ proto_EnumString P t @ '' failed''))"

text \<open>The handler by the value of the type byte.\<close>

lemma process_Cons:
  "process P s addr (b # d) now =
    (if b = 0 then
       (case proto_Unmarshal P (MHeartbeat \<lparr>heartbeat_VirtAddress = ''''\<rparr>) d of
          Inl err \<Rightarrow> Ret (gw_unmarshal_failed P 0 err, s)
        | Inr m \<Rightarrow> process_switch s addr PacketType_Heartbeat m now)
     else if b = 1 then
       (case proto_Unmarshal P (MRelay \<lparr>relay_VirtAddress = '''', relay_Data = []\<rparr>) d of
          Inl err \<Rightarrow> Ret (gw_unmarshal_failed P 1 err, s)
        | Inr m \<Rightarrow> process_switch s addr PacketType_Relay m now)
     else if b = 2 then Ret (None, s)
     else if b = 3 then
       (case proto_Unmarshal P (MOpenTunnelAck \<lparr>ack_AckId = 0\<rparr>) d of
          Inl err \<Rightarrow> Ret (gw_unmarshal_failed P 3 err, s)
        | Inr m \<Rightarrow> process_switch s addr PacketType_OpenTunnelAck m now)
     else Ret (Some (ErrNew (''unrecognized message type: '' @ dec_int (uint b))), s))"
proof (cases "uint b < 4")
  case True
  then show ?thesis
    using byte_lt_4_cases [OF True]
    by (auto simp: process_def packetType_of_def gw_protos_def PacketType_defs Reset_defs
        gw_unmarshal_failed_def split: sum.splits)
next
  case False
  then have "b \<noteq> 0" "b \<noteq> 1" "b \<noteq> 2" "b \<noteq> 3" by auto
  with False show ?thesis
    by (simp add: process_def packetType_of_def sint_byte_ucast gw_protos_def)
qed

lemma process_relay_not_Panic [simp]: "process_relay s r \<noteq> Panic e"
  by (auto simp: process_relay_def relay_def go_simps split: option.splits)

lemma process_Heartbeat_switch [simp]:
  "process_switch s addr PacketType_Heartbeat (MHeartbeat hb) now =
     (if heartbeat_VirtAddress hb = '''' then Ret (None, s) else Ret (None, Heartbeat s addr hb now))"
  by (simp add: process_switch_def)

lemma process_Relay_switch [simp]:
  "process_switch s addr PacketType_Relay (MRelay r) now = process_relay s r"
  by (simp add: process_switch_def PacketType_defs)

lemma process_Ack_switch [simp]:
  "process_switch s addr PacketType_OpenTunnelAck (MOpenTunnelAck a) now =
     Ret (None, s\<lparr>srv_notifier := openTunnelAck (srv_notifier s) (ack_AckId a)\<rparr>)"
  by (simp add: process_switch_def PacketType_defs)

lemma process_not_Panic:
  assumes "proto_typed P" and "data \<noteq> []"
  shows "process P s addr data now \<noteq> Panic e"
proof -
  from assms(2) obtain b d where data: "data = b # d" by (cases data) auto
  note typed = proto_typedD [OF assms(1)]
  show ?thesis unfolding data process_Cons
    by (auto split: sum.splits if_splits dest!: typed)
qed

text \<open>How a datagram can change the server: the four shapes of a successful turn.\<close>

lemma process_Ret_cases:
  assumes "proto_typed P" and "process P s addr (b # d) now = Ret (err, s')"
  obtains (unchanged) "s' = s"
  | (heartbeat) hb where "b = 0" "err = None" "heartbeat_VirtAddress hb \<noteq> ''''" "s' = Heartbeat s addr hb now"
      "proto_Unmarshal P (MHeartbeat \<lparr>heartbeat_VirtAddress = ''''\<rparr>) d = Inr (MHeartbeat hb)"
  | (relayed) r dst q where "b = 1" "err = None"
      "proto_Unmarshal P (MRelay \<lparr>relay_VirtAddress = '''', relay_Data = []\<rparr>) d = Inr (MRelay r)"
      "Peer s (relay_VirtAddress r) = Some dst"
      "relay (srv_notifier s) (UDPAddress dst) (relay_Data r) = Ret q" "s' = s\<lparr>srv_notifier := q\<rparr>"
  | (acked) a where "b = 3" "err = None" "s' = s\<lparr>srv_notifier := openTunnelAck (srv_notifier s) a\<rparr>"
proof -
  note typed = proto_typedD [OF assms(1)]
  from assms(2) consider "s' = s"
    | "b = 0" "\<exists>m. proto_Unmarshal P (MHeartbeat \<lparr>heartbeat_VirtAddress = ''''\<rparr>) d = Inr m \<and>
        process_switch s addr PacketType_Heartbeat m now = Ret (err, s')"
    | "b = 1" "\<exists>m. proto_Unmarshal P (MRelay \<lparr>relay_VirtAddress = '''', relay_Data = []\<rparr>) d = Inr m \<and>
        process_switch s addr PacketType_Relay m now = Ret (err, s')"
    | "b = 3" "\<exists>m. proto_Unmarshal P (MOpenTunnelAck \<lparr>ack_AckId = 0\<rparr>) d = Inr m \<and>
        process_switch s addr PacketType_OpenTunnelAck m now = Ret (err, s')"
    unfolding process_Cons by (auto split: if_splits sum.splits)
  then show thesis
  proof cases
    case 1 then show thesis by (rule unchanged)
  next
    case 2
    then obtain hb where "proto_Unmarshal P (MHeartbeat \<lparr>heartbeat_VirtAddress = ''''\<rparr>) d = Inr (MHeartbeat hb)"
        "process_switch s addr PacketType_Heartbeat (MHeartbeat hb) now = Ret (err, s')"
      using typed by (metis same_type_simps(1))
    with 2 show thesis by (auto split: if_splits intro: unchanged heartbeat)
  next
    case 3
    then obtain r where r: "proto_Unmarshal P (MRelay \<lparr>relay_VirtAddress = '''', relay_Data = []\<rparr>) d = Inr (MRelay r)"
        "process_relay s r = Ret (err, s')"
      using typed by (metis process_Relay_switch same_type_simps(6))
    with 3 show thesis
      by (auto simp: process_relay_def go_simps split: option.splits intro: unchanged relayed)
  next
    case 4
    then obtain a where "process_switch s addr PacketType_OpenTunnelAck (MOpenTunnelAck a) now = Ret (err, s')"
      by (auto dest!: typed)
    with 4 show thesis by (auto intro: acked)
  qed
qed

text \<open>A datagram that a peer encoded reaches the type switch with the message it was built from.\<close>

lemma serve_turn_Encode:
  assumes rt: "proto_roundtrip P" and enc: "Encode P t m = Ret d" and len: "length d \<le> MaxBufferSize"
    and m: "(t = PacketType_Heartbeat \<and> (\<exists>x. m = MHeartbeat x)) \<or> (t = PacketType_Relay \<and> (\<exists>x. m = MRelay x)) \<or>
      (t = PacketType_OpenTunnelAck \<and> (\<exists>x. m = MOpenTunnelAck x))"
  shows "serve_turn P s remote d now = go_bind (process_switch s remote t m now) (\<lambda>(err, s'). Ret s')"
proof -
  from enc obtain b where b: "proto_Marshal P m = Inr b" and d: "d = ucast t # b" by (auto simp: Encode_Ret_iff)
  have un: "proto_Unmarshal P (proto_Reset m) b = Inr m" by (rule proto_roundtripD [OF rt b])
  have "serve_turn P s remote d now = go_bind (process P s remote d now) (\<lambda>(err, s'). Ret s')"
    using len d by (simp add: serve_turn_def)
  moreover have "process P s remote d now = process_switch s remote t m now"
    using m un by (elim disjE conjE exE) (simp_all add: d process_Cons PacketType_defs Reset_defs)
  ultimately show ?thesis by simp
qed

section \<open>Properties\<close>

definition api_base :: "Client \<Rightarrow> string" where
  "api_base c = (if cl_tls c then ''https://'' @ cl_gateway c else ''http://'' @ cl_gateway c)"

lemma errorEncoder_not_success:
  assumes "Server_OpenTunnel vars semver nf s req = (Inl e, s')"
  shows "result_Code (errorEncoder e) \<noteq> StatusCode_Success"
  using assms
  by (auto simp: errorEncoder_def Server_OpenTunnel_def ErrorWithCode_def StatusCode_defs
      split: sum.splits option.splits if_splits go_error.splits)

text \<open>Whether the request reaches the handler, and what the client makes of the handler's answer.\<close>

definition handled :: "transport \<Rightarrow> bool" where
  "handled tr \<longleftrightarrow> (case tr of BadURL _ \<Rightarrow> False | Unsent _ \<Rightarrow> False | _ \<Rightarrow> True)"

lemma Client_OpenTunnel_gateway:
  assumes "req = \<lparr>req_Version = Version_String (NewVersion vars []), req_Algorithm = [], req_Nonce = [],
      req_Cipher = [], req_Source = src, req_Destination = dst\<rparr>"
    and "Server_OpenTunnel vars' semver Notifier_OpenTunnel s req = (r, s')"
  shows "\<exists>e. Client_OpenTunnel vars (gateway_env vars' semver fail tr (api_base c)) s c src dst =
     (Ret (if tr = Delivered \<and> \<not> isl r then None else Some (ErrWithMessage e ''open tunnel failed'')), if handled tr then s' else s)"
proof (cases r)
  case (Inl err)
  let ?resp = "\<lparr>resp_StatusCode = fst (fail err), resp_Status = snd (fail err), resp_Body = Inr (errorEncoder err)\<rparr>"
  have "do_response URIOpenTunnel ?resp \<noteq> None"
    using errorEncoder_not_success [OF assms(2) [unfolded Inl]] by (simp add: do_response_None_iff)
  moreover have "do_response URIOpenTunnel (?resp\<lparr>resp_Body := Inl e\<rparr>) \<noteq> None" for e by (simp add: do_response_None_iff)
  ultimately show ?thesis using assms Inl
    by (cases tr) (auto simp: Client_OpenTunnel_def Client_post_def Client_do_def gateway_env_def api_base_def Let_def deliver_def handled_def)
next
  case (Inr res)
  have "do_response URIOpenTunnel \<lparr>resp_StatusCode = StatusOK, resp_Status = ''200 OK'',
      resp_Body = Inr (responseEncoder res)\<rparr> = None"
    by (simp add: do_response_None_iff responseEncoder_def)
  moreover have "do_response URIOpenTunnel \<lparr>resp_StatusCode = StatusOK, resp_Status = ''200 OK'', resp_Body = Inl e\<rparr> \<noteq> None" for e
    by (simp add: do_response_None_iff)
  ultimately show ?thesis using assms Inr
    by (cases tr) (auto simp: Client_OpenTunnel_def Client_post_def Client_do_def gateway_env_def api_base_def Let_def deliver_def handled_def)
qed

lemma gateway_env_key:
  "fst (Client_OpenTunnel vars (gateway_env vars' semver fail tr base) (s\<lparr>srv_key := key\<rparr>) (c\<lparr>cl_key := key'\<rparr>) src dst) =
   fst (Client_OpenTunnel vars (gateway_env vars' semver fail tr base) s c src dst)"
  by (cases tr) (auto simp: Client_OpenTunnel_def Client_post_def Client_do_def gateway_env_def Let_def
      Server_OpenTunnel_def Peer_def deliver_def split: sum.splits option.splits prod.splits)

text \<open>What the gateway demands of a request, and the directory entries it then acts on.\<close>

definition accepts :: "version_vars \<Rightarrow> (string \<Rightarrow> string + int64) \<Rightarrow> 'n Server \<Rightarrow> string \<Rightarrow> string \<Rightarrow> string \<Rightarrow> PeerInfo \<Rightarrow> PeerInfo \<Rightarrow> bool" where
  "accepts vars semver s version src dst p q \<longleftrightarrow>
     (\<exists>major. semver version = Inr major \<and> sint (MajorVersion vars) \<le> sint major) \<and> Peer s src = Some p \<and> Peer s dst = Some q"

text \<open>
  C9: requesting a tunnel, from the client's call to the gateway's notification table and back, over an HTTP transport that may
  fail at every stage. The gateway accepts a request when its version parses, is not older than the gateway's and both peers are
  in the directory. The client's \<open>OpenTunnel\<close> returns nil exactly when the gateway accepts and the response arrives. Whenever the request
  reaches a gateway that accepts, the notifier has opened the tunnel between these two entries, also when the response is
  lost or cut off and the client reports an error; in all other cases the gateway is unchanged. An error says that
  opening the tunnel failed, whatever HTTP status the HTTP library gives a failed handler. The
  client's key and the gateway's key have no influence on the answer.
\<close>

theorem open_tunnel_end_to_end:
  "\<exists>answer s'. Client_OpenTunnel vars (gateway_env vars' semver fail tr (api_base c)) s c src dst = (Ret answer, s') \<and>
     (answer = None \<longleftrightarrow> tr = Delivered \<and> (\<exists>p q. accepts vars' semver s (Version_String (NewVersion vars [])) src dst p q)) \<and>
     (answer = None \<or> (\<exists>e. answer = Some (ErrWithMessage e ''open tunnel failed''))) \<and>
     (if (\<exists>p q. accepts vars' semver s (Version_String (NewVersion vars [])) src dst p q) \<and> (tr = Delivered \<or> (\<exists>e. tr = Lost e) \<or> (\<exists>e. tr = CutOff e))
      then \<exists>p q. accepts vars' semver s (Version_String (NewVersion vars [])) src dst p q \<and> s' = s\<lparr>srv_notifier := Notifier_OpenTunnel (srv_notifier s) p q\<rparr> else s' = s) \<and>
     fst (Client_OpenTunnel vars (gateway_env vars' semver fail tr (api_base c))
        (s\<lparr>srv_key := key\<rparr>) (c\<lparr>cl_key := key'\<rparr>) src dst) = Ret answer"
proof -
  define req where "req = \<lparr>req_Version = Version_String (NewVersion vars []), req_Algorithm = [], req_Nonce = [],
      req_Cipher = [], req_Source = src, req_Destination = dst\<rparr>"
  obtain r s' where r: "Server_OpenTunnel vars' semver Notifier_OpenTunnel s req = (r, s')" by fastforce
  from Client_OpenTunnel_gateway [OF req_def r, of fail tr c] obtain e where
    e: "Client_OpenTunnel vars (gateway_env vars' semver fail tr (api_base c)) s c src dst =
     (Ret (if tr = Delivered \<and> \<not> isl r then None else Some (ErrWithMessage e ''open tunnel failed'')), if handled tr then s' else s)" by blast
  have reach: "handled tr \<longleftrightarrow> tr = Delivered \<or> (\<exists>e. tr = Lost e) \<or> (\<exists>e. tr = CutOff e)" by (cases tr) (simp_all add: handled_def)
  show ?thesis
  proof (cases r)
    case (Inl err)
    then have "s' = s" using r Server_OpenTunnel_Inl_frame by blast
    moreover have "\<not> (\<exists>p q. accepts vars' semver s (Version_String (NewVersion vars [])) src dst p q)"
      using r Inl by (auto simp: accepts_def Server_OpenTunnel_def req_def split: option.splits)
    ultimately show ?thesis using e gateway_env_key [where s = s and c = c] Inl by simp
  next
    case (Inr res)
    with r obtain p q where "accepts vars' semver s (Version_String (NewVersion vars [])) src dst p q" "s' = s\<lparr>srv_notifier := Notifier_OpenTunnel (srv_notifier s) p q\<rparr>"
      by (auto simp: Server_OpenTunnel_Inr_iff accepts_def) (auto simp: req_def)
    then show ?thesis
      using e gateway_env_key [where s = s and c = c] Inr unfolding reach by auto
  qed
qed

text \<open>
  No datagram can crash or wedge the gateway's UDP loop. A turn of the loop never panics,
  for any bytes from any address (the protobuf library keeping the dynamic type of the message
  it fills); it blocks only on a relay request while the relay queue is full. The messages that
  are not for the gateway change nothing.
\<close>

theorem serve_turn_robust:
  assumes "proto_typed P"
  shows "serve_turn P s remote datagram now \<noteq> Panic e \<and>
    (serve_turn P s remote datagram now = Block \<longrightarrow>
       datagram \<noteq> [] \<and> hd datagram = 1 \<and> chan_full (nt_queue (srv_notifier s))) \<and>
    (datagram = [] \<or> hd datagram \<notin> {0, 1, 3} \<longrightarrow> serve_turn P s remote datagram now = Ret s)"
proof (cases datagram)
  case Nil
  then show ?thesis by (simp add: serve_turn_def)
next
  case (Cons b d)
  note typed = proto_typedD [OF assms]
  let ?p = "process P s remote (b # take (MaxBufferSize - 1) d) now"
  have turn: "serve_turn P s remote datagram now = go_bind ?p (\<lambda>(err, s'). Ret s')"
    by (simp add: Cons serve_turn_def MaxBufferSize_def take_Cons')
  have "?p \<noteq> Panic e" using process_not_Panic [OF assms] by simp
  moreover have "?p = Block \<Longrightarrow> b = 1 \<and> chan_full (nt_queue (srv_notifier s))"
    unfolding process_Cons
    by (auto simp: process_relay_def relay_def go_simps chan_simps
        split: sum.splits if_splits option.splits dest!: typed)
  moreover have "b \<notin> {0, 1, 3} \<Longrightarrow> go_bind ?p (\<lambda>(err, s'). Ret s') = Ret s"
    unfolding process_Cons by simp
  ultimately show ?thesis unfolding turn by (auto simp: go_simps Cons)
qed

theorem serve_turn_robust_witness:
  "serve_turn sample_lib (NewServer newNotifier ''key'') ''1.1.1.1:10'' [255, 0, 7] 3 =
     Ret (NewServer newNotifier ''key'')"
  using serve_turn_robust [OF sample_lib_typed, of "NewServer newNotifier ''key''" "''1.1.1.1:10''" "[255, 0, 7]" 3]
  by simp

end
