(* ===== verification/Gateway_System.thy ===== *)
theory Gateway_System
  imports Gateway
begin

text \<open>
  The running gateway as a transition system: the UDP loop of \<open>Serve\<close>, the HTTP handlers, the
  \<open>select\<close> loop of \<open>notifier.start\<close> and its workers are goroutines whose steps interleave. A
  step is enabled only when no channel operation in it blocks and, where it takes the mutex,
  when the dispatcher is not inside \<open>retry\<close>. Two history fields record what was relayed and
  what the workers have taken, for the conservation law: every relayed packet is in exactly
  one place until a worker writes it.
\<close>

section \<open>States and steps\<close>

datatype disp_pc = Idle | Sending packet | Retrying "int64 list"

record gateway =
  gw_server :: "notifier Server"
  gw_disp :: dispatcher
  gw_pc :: disp_pc
  gw_out :: "(bytes \<times> string) list"
  gw_relayed :: "packet list"  \<comment> \<open>history: packets accepted by \<open>relay\<close>\<close>
  gw_done :: "packet list"  \<comment> \<open>history: packets taken by workers\<close>

datatype gw_label =
    LRecv string bytes time
  | LHttp OpenTunnelRequest
  | LTick "int64 list"
  | LRead "int64 list"
  | LQueue
  | LSend
  | LRetry
  | LRetryDone
  | LWorker nat

definition gw_notifier :: "gateway \<Rightarrow> notifier" where
  "gw_notifier g = srv_notifier (gw_server g)"

definition set_notifier :: "gateway \<Rightarrow> notifier \<Rightarrow> gateway" where
  "set_notifier g n = g\<lparr>gw_server := (gw_server g)\<lparr>srv_notifier := n\<rparr>\<rparr>"

definition lock_held :: "gateway \<Rightarrow> bool" where
  "lock_held g \<longleftrightarrow> (case gw_pc g of Retrying _ \<Rightarrow> True | _ \<Rightarrow> False)"

definition is_order :: "notifier \<Rightarrow> int64 list \<Rightarrow> bool" where
  "is_order n ks \<longleftrightarrow> distinct ks \<and> set ks = dom (nt_data n)"

text \<open>The packets added to the queue when the notifier goes from \<open>n\<close> to \<open>n'\<close>.\<close>

definition newly_queued :: "notifier \<Rightarrow> notifier \<Rightarrow> packet list" where
  "newly_queued n n' = drop (length (chan_buf (nt_queue n))) (chan_buf (nt_queue n'))"

inductive gw_step ::
  "proto_lib \<Rightarrow> (string \<Rightarrow> string option) \<Rightarrow> version_vars \<Rightarrow> (string \<Rightarrow> string + int64) \<Rightarrow>
   gateway \<Rightarrow> gw_label \<Rightarrow> gateway \<Rightarrow> bool"
  for P resolve vars semver where
  recv: "serve_turn P (gw_server g) remote datagram now = Ret s' \<Longrightarrow>
     datagram \<noteq> [] \<and> packetType_of datagram = PacketType_OpenTunnelAck \<longrightarrow> \<not> lock_held g \<Longrightarrow>
     gw_step P resolve vars semver g (LRecv remote datagram now)
       (g\<lparr>gw_server := s', gw_relayed := gw_relayed g @ newly_queued (gw_notifier g) (srv_notifier s')\<rparr>)"
| http: "Server_OpenTunnel vars semver Notifier_OpenTunnel (gw_server g) req = (r, s') \<Longrightarrow>
     isl r \<or> \<not> lock_held g \<Longrightarrow>
     gw_step P resolve vars semver g (LHttp req) (g\<lparr>gw_server := s'\<rparr>)"
| tick: "gw_pc g = Idle \<Longrightarrow> is_order (gw_notifier g) ks \<Longrightarrow>
     gw_step P resolve vars semver g (LTick ks) (g\<lparr>gw_pc := Retrying ks\<rparr>)"
| read: "gw_pc g = Idle \<Longrightarrow> chan_recv (nt_read (gw_notifier g)) = Ret (u, c) \<Longrightarrow>
     is_order (gw_notifier g) ks \<Longrightarrow>
     gw_step P resolve vars semver g (LRead ks)
       ((set_notifier g ((gw_notifier g)\<lparr>nt_read := c\<rparr>))\<lparr>gw_pc := Retrying ks\<rparr>)"
| queue: "gw_pc g = Idle \<Longrightarrow> chan_recv (nt_queue (gw_notifier g)) = Ret (p, c) \<Longrightarrow>
     gw_step P resolve vars semver g LQueue
       ((set_notifier g ((gw_notifier g)\<lparr>nt_queue := c\<rparr>))\<lparr>gw_pc := Sending p\<rparr>)"
| send: "gw_pc g = Sending p \<Longrightarrow> dispatch (gw_disp g) p = Ret d \<Longrightarrow>
     gw_step P resolve vars semver g LSend (g\<lparr>gw_disp := d, gw_pc := Idle\<rparr>)"
| retrying: "gw_pc g = Retrying (k # ks) \<Longrightarrow> retry_entry k (gw_notifier g, gw_disp g) = Ret (n, d) \<Longrightarrow>
     gw_step P resolve vars semver g LRetry ((set_notifier g n)\<lparr>gw_disp := d, gw_pc := Retrying ks\<rparr>)"
| retried: "gw_pc g = Retrying [] \<Longrightarrow> gw_step P resolve vars semver g LRetryDone (g\<lparr>gw_pc := Idle\<rparr>)"
| worker: "i < length (dp_chs (gw_disp g)) \<Longrightarrow> chan_recv (dp_chs (gw_disp g) ! i) = Ret (p, c) \<Longrightarrow>
     worker_write P resolve p = Ret w \<Longrightarrow>
     gw_step P resolve vars semver g (LWorker i)
       (g\<lparr>gw_disp := (gw_disp g)\<lparr>dp_chs := (dp_chs (gw_disp g))[i := c]\<rparr>,
          gw_out := gw_out g @ (case w of None \<Rightarrow> [] | Some x \<Rightarrow> [x]),
          gw_done := gw_done g @ [p]\<rparr>)"

inductive_cases gw_recvE: "gw_step P resolve vars semver g (LRecv remote datagram now) g'"
inductive_cases gw_httpE: "gw_step P resolve vars semver g (LHttp req) g'"
inductive_cases gw_retryE: "gw_step P resolve vars semver g LRetry g'"
inductive_cases gw_workerE: "gw_step P resolve vars semver g (LWorker i) g'"

text \<open>The start: \<open>Serve\<close> before its goroutines run, with \<open>d\<close> the dispatcher of \<open>start\<close>.\<close>

definition gw_init :: "string \<Rightarrow> dispatcher \<Rightarrow> gateway" where
  "gw_init key d = \<lparr>gw_server = NewServer newNotifier key, gw_disp = d, gw_pc = Idle, gw_out = [],
     gw_relayed = [], gw_done = []\<rparr>"

inductive gw_run ::
  "proto_lib \<Rightarrow> (string \<Rightarrow> string option) \<Rightarrow> version_vars \<Rightarrow> (string \<Rightarrow> string + int64) \<Rightarrow>
   gateway \<Rightarrow> gw_label list \<Rightarrow> gateway \<Rightarrow> bool"
  for P resolve vars semver g where
  run_nil: "gw_run P resolve vars semver g [] g"
| run_snoc: "gw_run P resolve vars semver g ls g' \<Longrightarrow> gw_step P resolve vars semver g' l g'' \<Longrightarrow>
     gw_run P resolve vars semver g (ls @ [l]) g''"

section \<open>The invariant\<close>

definition is_raw :: "packet \<Rightarrow> bool" where
  "is_raw p \<longleftrightarrow> pk_typ p = PacketType_Data \<and> (\<exists>b. pk_message p = PayloadRaw b)"

definition is_tunnel :: "packet \<Rightarrow> bool" where
  "is_tunnel p \<longleftrightarrow> (\<exists>a b k. p = tunnel_packet a b k)"

definition held :: "disp_pc \<Rightarrow> packet multiset" where
  "held pc = (case pc of Sending p \<Rightarrow> {#p#} | _ \<Rightarrow> {#})"

definition keys_left :: "disp_pc \<Rightarrow> int64 list" where
  "keys_left pc = (case pc of Retrying ks \<Rightarrow> ks | _ \<Rightarrow> [])"

text \<open>Where the relayed packets are: the queue, the dispatcher's hand, a channel, a worker.\<close>

definition relay_places :: "gateway \<Rightarrow> packet multiset" where
  "relay_places g = mset (chan_buf (nt_queue (gw_notifier g))) + held (gw_pc g) +
     filter_mset is_raw (in_flight (gw_disp g)) + filter_mset is_raw (mset (gw_done g))"

definition gw_inv :: "gateway \<Rightarrow> bool" where
  "gw_inv g \<longleftrightarrow>
     table_wf (gw_notifier g) \<and> peers_wf (gw_server g) \<and>
     (\<forall>p \<in> set (chan_buf (nt_queue (gw_notifier g))). is_raw p) \<and>
     (\<forall>p \<in># held (gw_pc g). is_raw p) \<and>
     (\<forall>p \<in># in_flight (gw_disp g). is_raw p \<or> is_tunnel p) \<and>
     set (keys_left (gw_pc g)) \<subseteq> dom (nt_data (gw_notifier g)) \<and>
     mset (gw_relayed g) = relay_places g"

lemma gw_notifier_simps [simp]:
  "gw_notifier (set_notifier g n) = n"
  "gw_notifier (g\<lparr>gw_server := s\<rparr>) = srv_notifier s"
  "gw_notifier (g\<lparr>gw_disp := d\<rparr>) = gw_notifier g"
  "gw_notifier (g\<lparr>gw_pc := pc\<rparr>) = gw_notifier g"
  "gw_notifier (g\<lparr>gw_out := out\<rparr>) = gw_notifier g"
  "gw_notifier (g\<lparr>gw_relayed := rel\<rparr>) = gw_notifier g"
  "gw_notifier (g\<lparr>gw_done := dn\<rparr>) = gw_notifier g"
  by (simp_all add: gw_notifier_def set_notifier_def)

lemma set_notifier_simps [simp]:
  "gw_disp (set_notifier g n) = gw_disp g" "gw_pc (set_notifier g n) = gw_pc g"
  "gw_out (set_notifier g n) = gw_out g" "gw_relayed (set_notifier g n) = gw_relayed g"
  "gw_done (set_notifier g n) = gw_done g"
  "peers_wf (gw_server (set_notifier g n)) = peers_wf (gw_server g)"
  by (simp_all add: set_notifier_def peers_wf_def)

lemma held_simps [simp]: "held Idle = {#}" "held (Sending p) = {#p#}" "held (Retrying ks) = {#}"
  by (simp_all add: held_def)

lemma keys_left_simps [simp]:
  "keys_left Idle = []" "keys_left (Sending p) = []" "keys_left (Retrying ks) = ks"
  by (simp_all add: keys_left_def)

lemma not_raw_tunnel [simp]: "\<not> is_raw (tunnel_packet a b k)"
  by (simp add: is_raw_def tunnel_packet_def)

lemma is_tunnel_packet [simp]: "is_tunnel (tunnel_packet a b k)"
  by (auto simp: is_tunnel_def)

lemma gw_init_inv:
  assumes "start_dispatcher c = Ret d"
  shows "gw_inv (gw_init key d)"
proof -
  have "in_flight d = {#}"
    using assms by (auto simp: start_dispatcher_def in_flight_def split: if_splits)
  then show ?thesis
    by (simp add: gw_inv_def gw_init_def gw_notifier_def relay_places_def NewServer_def newNotifier_def
        table_wf_def peers_wf_def)
qed

section \<open>Preservation\<close>

lemma relay_Ret_iff:
  "relay n dest b = Ret n' \<longleftrightarrow> \<not> chan_full (nt_queue n) \<and>
     n' = n\<lparr>nt_queue := (nt_queue n)\<lparr>chan_buf := chan_buf (nt_queue n) @
       [\<lparr>pk_destination = dest, pk_typ = PacketType_Data, pk_message = PayloadRaw b\<rparr>]\<rparr>\<rparr>"
  by (auto simp: relay_def go_simps chan_simps)

lemma newly_queued_same [simp]: "nt_queue n' = nt_queue n \<Longrightarrow> newly_queued n n' = []"
  by (simp add: newly_queued_def)

lemma lock_free_keys: "\<not> lock_held g \<Longrightarrow> keys_left (gw_pc g) = []"
  by (auto simp: lock_held_def keys_left_def split: disp_pc.splits)

lemma gw_inv_server:
  assumes "gw_inv g" and "peers_wf s" and "srv_notifier s = gw_notifier g"
  shows "gw_inv (g\<lparr>gw_server := s\<rparr>)"
  using assms by (simp add: gw_inv_def relay_places_def)

lemma gw_inv_recv:
  assumes inv: "gw_inv g" and typed: "proto_typed P"
    and step: "gw_step P resolve vars semver g (LRecv remote datagram now) g'"
  shows "gw_inv g'"
proof -
  from step obtain s' where turn: "serve_turn P (gw_server g) remote datagram now = Ret s'"
    and lock: "datagram \<noteq> [] \<and> packetType_of datagram = PacketType_OpenTunnelAck \<longrightarrow> \<not> lock_held g"
    and g': "g' = g\<lparr>gw_server := s', gw_relayed := gw_relayed g @ newly_queued (gw_notifier g) (srv_notifier s')\<rparr>"
    by (rule gw_recvE) auto
  show ?thesis
  proof (cases datagram)
    case Nil
    then have "s' = gw_server g" using turn by (simp add: serve_turn_def)
    with inv g' show ?thesis by (simp add: gw_inv_def relay_places_def gw_notifier_def)
  next
    case (Cons b d)
    then have "\<exists>err. process P (gw_server g) remote (b # take (MaxBufferSize - 1) d) now = Ret (err, s')"
      using turn by (auto simp: serve_turn_def MaxBufferSize_def go_simps take_Cons')
    then obtain err where "process P (gw_server g) remote (b # take (MaxBufferSize - 1) d) now = Ret (err, s')" ..
    from typed this show ?thesis
    proof (cases rule: process_Ret_cases)
      case unchanged
      with inv g' show ?thesis by (simp add: gw_inv_def relay_places_def gw_notifier_def)
    next
      case (heartbeat hb)
      with inv g' show ?thesis
        by (simp add: gw_inv_def relay_places_def gw_notifier_def peers_wf_Heartbeat)
    next
      case (relayed r dst q)
      then show ?thesis using inv g'
        by (auto simp: gw_inv_def relay_places_def gw_notifier_def relay_Ret_iff newly_queued_def
            is_raw_def peers_wf_def)
    next
      case (acked a)
      then have "keys_left (gw_pc g) = []"
        using lock Cons by (intro lock_free_keys) (simp add: packetType_of_def PacketType_defs)
      with acked show ?thesis using inv g'
        by (auto simp: gw_inv_def relay_places_def gw_notifier_def table_wf_Ack peers_wf_def)
    qed
  qed
qed

lemma gw_inv_http:
  assumes inv: "gw_inv g" and step: "gw_step P resolve vars semver g (LHttp req) g'"
  shows "gw_inv g'"
proof -
  from step obtain r s' where r: "Server_OpenTunnel vars semver Notifier_OpenTunnel (gw_server g) req = (r, s')"
    and g': "g' = g\<lparr>gw_server := s'\<rparr>" by (rule gw_httpE) auto
  show ?thesis
  proof (cases r)
    case (Inl e)
    with r have "s' = gw_server g" by (auto dest: Server_OpenTunnel_Inl_frame)
    with inv g' show ?thesis by simp
  next
    case (Inr res)
    with r obtain src dst where
      s': "s' = (gw_server g)\<lparr>srv_notifier := Notifier_OpenTunnel (gw_notifier g) src dst\<rparr>"
      by (auto simp: Server_OpenTunnel_Inr_iff gw_notifier_def)
    show ?thesis using inv unfolding g' s'
      by (auto simp: gw_inv_def relay_places_def peers_wf_def table_wf_OpenTunnel)
  qed
qed

lemma in_flight_worker:
  assumes "i < length (dp_chs d)" and "chan_recv (dp_chs d ! i) = Ret (p, c)"
  shows "in_flight d = add_mset p (in_flight (d\<lparr>dp_chs := (dp_chs d)[i := c]\<rparr>))"
proof -
  from gochan.rcv_contents [OF assms(2)] have buf: "chan_buf (dp_chs d ! i) = p # chan_buf c" .
  have "in_flight (d\<lparr>dp_chs := (dp_chs d)[i := c]\<rparr>) + mset (chan_buf (dp_chs d ! i)) =
      in_flight d + mset (chan_buf c)"
    using sum_list_update_mset [OF assms(1), of "\<lambda>c. mset (chan_buf c)" c] by (simp add: in_flight_def)
  then show ?thesis using buf by simp
qed

lemma gw_inv_worker:
  assumes inv: "gw_inv g" and step: "gw_step P resolve vars semver g (LWorker i) g'"
  shows "gw_inv g'"
proof -
  from step obtain p c w where i: "i < length (dp_chs (gw_disp g))"
    and rc: "chan_recv (dp_chs (gw_disp g) ! i) = Ret (p, c)"
    and g': "g' = g\<lparr>gw_disp := (gw_disp g)\<lparr>dp_chs := (dp_chs (gw_disp g))[i := c]\<rparr>,
          gw_out := gw_out g @ (case w of None \<Rightarrow> [] | Some x \<Rightarrow> [x]), gw_done := gw_done g @ [p]\<rparr>"
    by (rule gw_workerE) auto
  note fl = in_flight_worker [OF i rc]
  show ?thesis using inv unfolding g' by (auto simp: gw_inv_def relay_places_def fl)
qed

lemma gw_inv_send:
  assumes "gw_inv g" and "gw_pc g = Sending p" and "dispatch (gw_disp g) p = Ret d"
  shows "gw_inv (g\<lparr>gw_disp := d, gw_pc := Idle\<rparr>)"
  using assms dispatch_conserves [OF assms(3)] by (auto simp: gw_inv_def relay_places_def)

lemma gw_inv_retry:
  assumes inv: "gw_inv g" and pc: "gw_pc g = Retrying (k # ks)"
    and step: "retry_entry k (gw_notifier g, gw_disp g) = Ret (n, d)"
  shows "gw_inv ((set_notifier g n)\<lparr>gw_disp := d, gw_pc := Retrying ks\<rparr>)"
proof -
  have wf: "table_wf (gw_notifier g)" using inv by (simp add: gw_inv_def)
  have n: "n = gw_notifier g" using retry_entry_keeps [OF wf step] .
  obtain rp where rp: "nt_data (gw_notifier g) k = Some rp" using inv pc by (auto simp: gw_inv_def)
  then have "pending_packet (gw_notifier g) k = Some (rp_packet rp)" by (simp add: pending_packet_def)
  then have "dispatch (gw_disp g) (rp_packet rp) = Ret d"
    using step retry_entry_sends [OF wf] by (auto simp: go_simps)
  then have fl: "in_flight d = add_mset (rp_packet rp) (in_flight (gw_disp g))" by (rule dispatch_conserves)
  obtain a b where "rp_packet rp = tunnel_packet a b k"
    using wf rp unfolding table_wf_def entry_ok_def by blast
  then show ?thesis using inv pc unfolding n by (auto simp: gw_inv_def relay_places_def fl)
qed

lemma gw_inv_idle:
  assumes inv: "gw_inv g" and pc: "gw_pc g = Idle"
  shows "is_order (gw_notifier g) ks \<Longrightarrow> gw_inv (g\<lparr>gw_pc := Retrying ks\<rparr>)"
    and "is_order (gw_notifier g) ks \<Longrightarrow>
      gw_inv ((set_notifier g ((gw_notifier g)\<lparr>nt_read := c\<rparr>))\<lparr>gw_pc := Retrying ks\<rparr>)"
    and "chan_recv (nt_queue (gw_notifier g)) = Ret (p, q) \<Longrightarrow>
      gw_inv ((set_notifier g ((gw_notifier g)\<lparr>nt_queue := q\<rparr>))\<lparr>gw_pc := Sending p\<rparr>)"
proof -
  show "is_order (gw_notifier g) ks \<Longrightarrow> gw_inv (g\<lparr>gw_pc := Retrying ks\<rparr>)"
    using inv pc by (auto simp: gw_inv_def relay_places_def is_order_def)
  show "is_order (gw_notifier g) ks \<Longrightarrow>
      gw_inv ((set_notifier g ((gw_notifier g)\<lparr>nt_read := c\<rparr>))\<lparr>gw_pc := Retrying ks\<rparr>)"
    using inv pc by (auto simp: gw_inv_def relay_places_def is_order_def)
  assume "chan_recv (nt_queue (gw_notifier g)) = Ret (p, q)"
  from gochan.rcv_contents [OF this]
  show "gw_inv ((set_notifier g ((gw_notifier g)\<lparr>nt_queue := q\<rparr>))\<lparr>gw_pc := Sending p\<rparr>)"
    using inv pc by (auto simp: gw_inv_def relay_places_def)
qed

lemma gw_inv_retried: "gw_inv g \<Longrightarrow> gw_pc g = Retrying [] \<Longrightarrow> gw_inv (g\<lparr>gw_pc := Idle\<rparr>)"
  by (simp add: gw_inv_def relay_places_def)

text \<open>Every step keeps the invariant, so it holds in every state of a run from the start.\<close>

lemma gw_inv_step:
  assumes "gw_inv g" and "proto_typed P" and "gw_step P resolve vars semver g l g'"
  shows "gw_inv g'"
  using assms(3) assms(1)
proof (cases rule: gw_step.cases)
  case recv
  then show ?thesis using assms gw_inv_recv by blast
next
  case http
  then show ?thesis using assms gw_inv_http by blast
next
  case (worker i p c w)
  then show ?thesis using assms gw_inv_worker by blast
qed (auto intro: gw_inv_idle gw_inv_send gw_inv_retry gw_inv_retried)

lemma gw_inv_run:
  assumes "gw_run P resolve vars semver g ls g'" and "gw_inv g" and "proto_typed P"
  shows "gw_inv g'"
  using assms by (induction rule: gw_run.induct) (auto intro: gw_inv_step)

section \<open>What the workers write\<close>

text \<open>Every datagram written came from a packet a worker took, and these are of the two kinds.\<close>

definition outs_inv :: "proto_lib \<Rightarrow> (string \<Rightarrow> string option) \<Rightarrow> gateway \<Rightarrow> bool" where
  "outs_inv P resolve g \<longleftrightarrow>
     (\<forall>x \<in> set (gw_out g). \<exists>p \<in> set (gw_done g). worker_write P resolve p = Ret (Some x)) \<and>
     (\<forall>p \<in> set (gw_done g). is_raw p \<or> is_tunnel p)"

lemma gw_out_step:
  assumes "gw_inv g" and "gw_step P resolve vars semver g l g'" and "outs_inv P resolve g"
  shows "outs_inv P resolve g'"
  using assms(2)
proof (cases rule: gw_step.cases)
  case (worker i p c w)
  have "p \<in># in_flight (gw_disp g)" using in_flight_worker [OF worker(3,4)] by simp
  then have "is_raw p \<or> is_tunnel p" using assms(1) by (auto simp: gw_inv_def)
  then show ?thesis using assms(3) worker(2,5) by (auto simp: outs_inv_def split: option.splits)
qed (use assms(3) in \<open>auto simp: outs_inv_def\<close>)

lemma gw_out_run:
  assumes "gw_run P resolve vars semver g ls g'" and "gw_inv g" and "proto_typed P" and "outs_inv P resolve g"
  shows "outs_inv P resolve g'"
  using assms
proof (induction rule: gw_run.induct)
  case run_nil
  then show ?case by simp
next
  case (run_snoc ls g' l g'')
  then show ?case using gw_inv_run [of P resolve vars semver g ls g'] gw_out_step by blast
qed

lemma gw_done_relayed: "gw_inv g \<Longrightarrow> p \<in> set (gw_done g) \<Longrightarrow> is_raw p \<Longrightarrow> p \<in> set (gw_relayed g)"
proof -
  assume inv: "gw_inv g" and "p \<in> set (gw_done g)" "is_raw p"
  then have "p \<in># relay_places g" by (simp add: relay_places_def)
  then show ?thesis using inv by (metis gw_inv_def set_mset_mset)
qed

text \<open>The way of a packet from the head of the relay queue to the socket.\<close>

lemma relay_three_steps:
  assumes "gw_pc g = Idle" and "chan_buf (nt_queue (gw_notifier g)) = p # rest"
    and "p = \<lparr>pk_destination = dest, pk_typ = PacketType_Data, pk_message = PayloadRaw b\<rparr>"
    and "dispatch_index (gw_disp g) = Ret i" and "chan_buf (dp_chs (gw_disp g) ! i) = []"
    and "0 < chan_cap (dp_chs (gw_disp g) ! i)" and "resolve dest = Some target"
  shows "\<exists>g1 g2 g3. gw_step P resolve vars semver g LQueue g1 \<and> gw_step P resolve vars semver g1 LSend g2 \<and>
     gw_step P resolve vars semver g2 (LWorker i) g3 \<and> gw_out g3 = gw_out g @ [(EncodeRaw b, target)] \<and>
     chan_buf (nt_queue (gw_notifier g3)) = rest \<and> gw_pc g3 = Idle"
proof -
  let ?q = "nt_queue (gw_notifier g)" and ?ch = "dp_chs (gw_disp g) ! i"
  let ?g1 = "(set_notifier g ((gw_notifier g)\<lparr>nt_queue := ?q\<lparr>chan_buf := rest\<rparr>\<rparr>))\<lparr>gw_pc := Sending p\<rparr>"
  let ?d = "(gw_disp g)\<lparr>dp_chs := (dp_chs (gw_disp g))[i := ?ch\<lparr>chan_buf := [p]\<rparr>],
      dp_roundTrip := dp_roundTrip (gw_disp g) + 1\<rparr>"
  let ?g2 = "?g1\<lparr>gw_disp := ?d, gw_pc := Idle\<rparr>"
  let ?g3 = "?g2\<lparr>gw_disp := ?d\<lparr>dp_chs := (dp_chs ?d)[i := ?ch\<lparr>chan_buf := []\<rparr>]\<rparr>,
      gw_out := gw_out ?g2 @ [(EncodeRaw b, target)], gw_done := gw_done ?g2 @ [p]\<rparr>"
  note i = dispatch_index_bound [OF assms(4)]
  have "gw_step P resolve vars semver g LQueue ?g1"
    using assms(1,2) by (intro gw_step.queue) (simp_all add: chan_simps)
  moreover have "gw_step P resolve vars semver ?g1 LSend ?g2"
    using assms(4,5,6) by (intro gw_step.send) (simp_all add: dispatch_Ret_iff chan_full_def)
  moreover have "gw_step P resolve vars semver ?g2 (LWorker i) ?g3"
    using gw_step.worker [of i ?g2 p "?ch\<lparr>chan_buf := []\<rparr>" P resolve "Some (EncodeRaw b, target)"] i assms(3,7)
    by (simp add: chan_simps worker_write_def)
  ultimately show ?thesis by (intro exI [of _ ?g1] exI [of _ ?g2] exI [of _ ?g3]) simp
qed

lemma gw_run_three:
  assumes "gw_step P resolve vars semver g a g1" "gw_step P resolve vars semver g1 b g2"
    "gw_step P resolve vars semver g2 c g3"
  shows "gw_run P resolve vars semver g [a, b, c] g3"
  using run_snoc [OF run_snoc [OF run_snoc [OF run_nil assms(1)] assms(2)] assms(3)] by simp

section \<open>Properties\<close>

text \<open>
  C7: conservation of relayed packets. In every state of every interleaving of the gateway's
  goroutines, from the start, the packets accepted for relaying are, as a multiset, those in
  the relay queue, in the dispatcher's hand, in the workers' channels and already taken by
  workers: the gateway neither loses nor duplicates nor invents one. At the same time every
  entry of the notification table is a notification that carries its own id, and the directory
  is well formed.
\<close>

theorem relayed_packets_conserved:
  assumes "start_dispatcher concurrency = Ret d" and "proto_typed P"
    and "gw_run P resolve vars semver (gw_init key d) ls g"
  shows "mset (gw_relayed g) = mset (chan_buf (nt_queue (gw_notifier g))) + held (gw_pc g) +
      filter_mset is_raw (in_flight (gw_disp g)) + filter_mset is_raw (mset (gw_done g)) \<and>
    table_wf (gw_notifier g) \<and> peers_wf (gw_server g)"
  using gw_inv_run [OF assms(3) gw_init_inv [OF assms(1)] assms(2)]
  by (simp add: gw_inv_def relay_places_def)

text \<open>A heartbeat and a relay request for the peer that sent it, with one worker.\<close>

definition relayed_packet :: packet where
  "relayed_packet = \<lparr>pk_destination = ''1.1.1.1:10'', pk_typ = PacketType_Data, pk_message = PayloadRaw [42]\<rparr>"

definition relayed_state :: gateway where
  "relayed_state = (gw_init ''key'' (fresh_dispatcher 1))\<lparr>gw_server :=
     \<lparr>srv_notifier = newNotifier\<lparr>nt_queue := \<lparr>chan_cap = 16, chan_buf = [relayed_packet]\<rparr>\<rparr>, srv_key = ''key'',
      srv_peers = [''10.0.0.1'' \<mapsto> \<lparr>VirtAddress = ''10.0.0.1'', UDPAddress = ''1.1.1.1:10'', LastHeartbeat = 1\<rparr>]\<rparr>,
     gw_relayed := [relayed_packet]\<rparr>"

definition sample_relay_labels :: "gw_label list" where
  "sample_relay_labels =
    [LRecv ''1.1.1.1:10'' (0 # sample_put (MHeartbeat \<lparr>heartbeat_VirtAddress = ''10.0.0.1''\<rparr>)) 1,
     LRecv ''2.2.2.2:20'' (1 # sample_put (MRelay \<lparr>relay_VirtAddress = ''10.0.0.1'', relay_Data = [42]\<rparr>)) 2]"

lemma sample_relay_run:
  "gw_run sample_lib Some version_defaults (\<lambda>_. Inl ''bad'') (gw_init ''key'' (fresh_dispatcher 1))
     sample_relay_labels relayed_state"
proof -
  let ?g0 = "gw_init ''key'' (fresh_dispatcher 1)"
  let ?s1 = "Heartbeat (NewServer newNotifier ''key'') ''1.1.1.1:10'' \<lparr>heartbeat_VirtAddress = ''10.0.0.1''\<rparr> 1"
  let ?g1 = "?g0\<lparr>gw_server := ?s1\<rparr>"
  let ?d1 = "0 # sample_put (MHeartbeat \<lparr>heartbeat_VirtAddress = ''10.0.0.1''\<rparr>)"
  let ?d2 = "1 # sample_put (MRelay \<lparr>relay_VirtAddress = ''10.0.0.1'', relay_Data = [42]\<rparr>)"
  have e1: "Encode sample_lib PacketType_Heartbeat (MHeartbeat \<lparr>heartbeat_VirtAddress = ''10.0.0.1''\<rparr>) = Ret ?d1"
    by (simp add: Encode_def sample_lib_def PacketType_Heartbeat_def)
  have "serve_turn sample_lib (NewServer newNotifier ''key'') ''1.1.1.1:10'' ?d1 1 = Ret ?s1"
    using serve_turn_Encode [OF sample_lib_roundtrip e1] by (simp add: MaxBufferSize_def)
  then have "gw_step sample_lib Some version_defaults (\<lambda>_. Inl ''bad'') ?g0 (LRecv ''1.1.1.1:10'' ?d1 1)
      (?g0\<lparr>gw_server := ?s1, gw_relayed := gw_relayed ?g0 @ newly_queued (gw_notifier ?g0) (srv_notifier ?s1)\<rparr>)"
    by (intro gw_step.recv) (simp_all add: gw_init_def packetType_of_def PacketType_defs)
  moreover have "?g0\<lparr>gw_server := ?s1, gw_relayed := gw_relayed ?g0 @ newly_queued (gw_notifier ?g0) (srv_notifier ?s1)\<rparr> = ?g1"
    by (simp add: gw_init_def gw_notifier_def NewServer_def)
  ultimately have s1: "gw_step sample_lib Some version_defaults (\<lambda>_. Inl ''bad'') ?g0 (LRecv ''1.1.1.1:10'' ?d1 1) ?g1"
    by simp
  have e2: "Encode sample_lib PacketType_Relay (MRelay \<lparr>relay_VirtAddress = ''10.0.0.1'', relay_Data = [42]\<rparr>) = Ret ?d2"
    by (simp add: Encode_def sample_lib_def PacketType_Relay_def)
  have "serve_turn sample_lib ?s1 ''2.2.2.2:20'' ?d2 2 = Ret (gw_server relayed_state)"
    using serve_turn_Encode [OF sample_lib_roundtrip e2]
    by (simp add: MaxBufferSize_def relayed_state_def process_relay_def Peer_def Heartbeat_def NewServer_def relay_def
        newNotifier_def chan_send_def relayed_packet_def make_chan_def chan_full_def)
  then have "gw_step sample_lib Some version_defaults (\<lambda>_. Inl ''bad'') ?g1 (LRecv ''2.2.2.2:20'' ?d2 2)
      (?g1\<lparr>gw_server := gw_server relayed_state,
         gw_relayed := gw_relayed ?g1 @ newly_queued (gw_notifier ?g1) (srv_notifier (gw_server relayed_state))\<rparr>)"
    by (intro gw_step.recv) (simp_all add: packetType_of_def PacketType_defs)
  moreover have "?g1\<lparr>gw_server := gw_server relayed_state,
      gw_relayed := gw_relayed ?g1 @ newly_queued (gw_notifier ?g1) (srv_notifier (gw_server relayed_state))\<rparr> = relayed_state"
    by (simp add: relayed_state_def gw_init_def gw_notifier_def newly_queued_def NewServer_def newNotifier_def)
  ultimately have s2: "gw_step sample_lib Some version_defaults (\<lambda>_. Inl ''bad'') ?g1 (LRecv ''2.2.2.2:20'' ?d2 2) relayed_state"
    by simp
  show ?thesis using run_snoc [OF run_snoc [OF run_nil s1] s2] by (simp add: sample_relay_labels_def)
qed

theorem relayed_packets_conserved_witness:
  "mset (gw_relayed relayed_state) = {#relayed_packet#} \<and> table_wf (gw_notifier relayed_state)"
proof -
  have "start_dispatcher 1 = Ret (fresh_dispatcher 1)" by (simp add: start_dispatcher_def fresh_dispatcher_def)
  from relayed_packets_conserved [OF this sample_lib_typed sample_relay_run] show ?thesis
    by (simp add: relayed_state_def gw_notifier_def gw_init_def in_flight_def fresh_dispatcher_def)
qed

lemma relayed_state_simps:
  "gw_pc relayed_state = Idle" "chan_buf (nt_queue (gw_notifier relayed_state)) = [relayed_packet]"
  "relayed_packet = \<lparr>pk_destination = ''1.1.1.1:10'', pk_typ = PacketType_Data, pk_message = PayloadRaw [42]\<rparr>"
  "dispatch_index (gw_disp relayed_state) = Ret 0" "chan_buf (dp_chs (gw_disp relayed_state) ! 0) = []"
  "0 < chan_cap (dp_chs (gw_disp relayed_state) ! 0)"
  by (simp_all add: relayed_state_def gw_init_def gw_notifier_def relayed_packet_def newNotifier_def
      dispatch_index_def fresh_dispatcher_def go_rem_def)

lemma relayed_state_out: "gw_out relayed_state = []"
  by (simp add: relayed_state_def gw_init_def)

text \<open>
  A relayed packet is delivered. When the dispatcher is idle, a packet is at the head of the
  relay queue and the worker whose turn it is has an empty channel, then three steps (take it
  from the queue, dispatch it, write it) are enabled and end with the packet's bytes, behind
  the data type byte, written to the resolved address.
\<close>

theorem relayed_packet_delivered:
  assumes "gw_pc g = Idle" and "chan_buf (nt_queue (gw_notifier g)) = p # rest"
    and "p = \<lparr>pk_destination = dest, pk_typ = PacketType_Data, pk_message = PayloadRaw b\<rparr>"
    and "dispatch_index (gw_disp g) = Ret i" and "chan_buf (dp_chs (gw_disp g) ! i) = []"
    and "0 < chan_cap (dp_chs (gw_disp g) ! i)" and "resolve dest = Some target"
  shows "\<exists>g'. gw_run P resolve vars semver g [LQueue, LSend, LWorker i] g' \<and>
     gw_out g' = gw_out g @ [(EncodeRaw b, target)] \<and>
     chan_buf (nt_queue (gw_notifier g')) = rest \<and> gw_pc g' = Idle"
  using relay_three_steps [where resolve = resolve and dest = dest and target = target and b = b, OF assms, of P vars semver]
    gw_run_three by blast

theorem relayed_packet_delivered_witness:
  "\<exists>g'. gw_run sample_lib Some version_defaults (\<lambda>_. Inl ''bad'') relayed_state [LQueue, LSend, LWorker 0] g' \<and>
     gw_out g' = [(EncodeRaw [42], ''1.1.1.1:10'')]"
  using relayed_packet_delivered [where resolve = Some, OF relayed_state_simps refl, of sample_lib version_defaults "\<lambda>_. Inl ''bad''"]
  by (auto simp: relayed_state_out)

text \<open>
  C19: what the gateway writes. In every run from the start, each datagram the workers write is
  either the data of a packet accepted for relaying, behind the data type byte and to that
  packet's destination, or an open-tunnel notification that tells one peer, at its own UDP
  address, the addresses of another.
\<close>

theorem gateway_writes_only:
  assumes "start_dispatcher concurrency = Ret d" and "proto_typed P"
    and "gw_run P resolve vars semver (gw_init key d) ls g" and "(data, target) \<in> set (gw_out g)"
  shows "(\<exists>dest b. \<lparr>pk_destination = dest, pk_typ = PacketType_Data, pk_message = PayloadRaw b\<rparr> \<in> set (gw_relayed g) \<and>
        resolve dest = Some target \<and> data = EncodeRaw b) \<or>
     (\<exists>(p :: PeerInfo) (other :: PeerInfo) k. resolve (UDPAddress p) = Some target \<and>
        Encode P PacketType_OpenTunnel (MOpenTunnel \<lparr>tunnel_AckId = k, tunnel_VirtAddress = VirtAddress other,
          tunnel_UdpAddress = UDPAddress other\<rparr>) = Ret data)"
proof -
  note inv = gw_inv_run [OF assms(3) gw_init_inv [OF assms(1)] assms(2)]
  have "outs_inv P resolve (gw_init key d)" by (simp add: outs_inv_def gw_init_def)
  from gw_out_run [OF assms(3) gw_init_inv [OF assms(1)] assms(2) this] assms(4)
  obtain p where p: "p \<in> set (gw_done g)" "is_raw p \<or> is_tunnel p" "worker_write P resolve p = Ret (Some (data, target))"
    unfolding outs_inv_def by blast
  from p(2) show ?thesis
  proof
    assume raw: "is_raw p"
    then obtain b where b: "p = \<lparr>pk_destination = pk_destination p, pk_typ = PacketType_Data, pk_message = PayloadRaw b\<rparr>"
      by (cases p) (auto simp: is_raw_def)
    moreover have "p \<in> set (gw_relayed g)" by (rule gw_done_relayed [OF inv p(1) raw])
    moreover have "resolve (pk_destination p) = Some target \<and> data = EncodeRaw b"
      using p(3) b by (cases p) (auto simp: worker_write_def split: option.splits)
    ultimately show ?thesis by metis
  next
    assume "is_tunnel p"
    then obtain a c k where t: "p = tunnel_packet a c k" by (auto simp: is_tunnel_def)
    have "resolve (UDPAddress a) = Some target \<and> Encode P PacketType_OpenTunnel (MOpenTunnel
        \<lparr>tunnel_AckId = k, tunnel_VirtAddress = VirtAddress c, tunnel_UdpAddress = UDPAddress c\<rparr>) = Ret data"
      using p(3) by (auto simp: t worker_write_def tunnel_packet_def go_bind_Ret_iff split: option.splits)
    then show ?thesis by blast
  qed
qed

theorem gateway_writes_only_witness:
  "\<exists>g :: gateway. (EncodeRaw [42], ''1.1.1.1:10'') \<in> set (gw_out g) \<and>
     ((\<exists>dest b. \<lparr>pk_destination = dest, pk_typ = PacketType_Data, pk_message = PayloadRaw b\<rparr> \<in> set (gw_relayed g) \<and>
        Some dest = Some ''1.1.1.1:10'' \<and> EncodeRaw [42] = EncodeRaw b) \<or>
     (\<exists>(p :: PeerInfo) (other :: PeerInfo) k. Some (UDPAddress p) = Some ''1.1.1.1:10'' \<and>
        Encode sample_lib PacketType_OpenTunnel (MOpenTunnel \<lparr>tunnel_AckId = k, tunnel_VirtAddress = VirtAddress other,
          tunnel_UdpAddress = UDPAddress other\<rparr>) = Ret (EncodeRaw [42])))"
proof -
  let ?lib = sample_lib and ?semver = "\<lambda>_ :: string. Inl ''bad'' :: string + int64"
  have st: "start_dispatcher 1 = Ret (fresh_dispatcher 1)" by (simp add: start_dispatcher_def fresh_dispatcher_def)
  obtain g1 g2 g3 where g: "gw_step ?lib Some version_defaults ?semver relayed_state LQueue g1"
    "gw_step ?lib Some version_defaults ?semver g1 LSend g2" "gw_step ?lib Some version_defaults ?semver g2 (LWorker 0) g3"
    "gw_out g3 = gw_out relayed_state @ [(EncodeRaw [42], ''1.1.1.1:10'')]"
    using relay_three_steps [where resolve = Some, OF relayed_state_simps refl, of ?lib version_defaults ?semver] by blast
  have run: "gw_run ?lib Some version_defaults ?semver (gw_init ''key'' (fresh_dispatcher 1))
      (((sample_relay_labels @ [LQueue]) @ [LSend]) @ [LWorker 0]) g3"
    by (rule run_snoc [OF run_snoc [OF run_snoc [OF sample_relay_run g(1)] g(2)] g(3)])
  have out: "(EncodeRaw [42], ''1.1.1.1:10'') \<in> set (gw_out g3)" by (simp add: g(4))
  show ?thesis
    by (rule exI [where x = g3], rule conjI [OF out gateway_writes_only [OF st sample_lib_typed run out]])
qed

end
