(* ===== verification/Connection.thy ===== *)
theory Connection
  imports Codec Constant
begin

text \<open>
  The connection to one peer (\<open>node/connection.go\<close>) and the nonce generator
  (\<open>node/rand_string.go\<close>). The \<open>select\<close> loop of \<open>loop\<close> is one operation per branch; which
  branch runs is the scheduler's choice. The timers are the scheduler's too: a branch takes
  the current time. A branch returns the new connection and the datagrams it wrote to the
  peer's socket.
\<close>

section \<open>Nonces\<close>

definition letters :: string where
  "letters = ''abcdefghijklmnopqrstuvwxyzABCDEFGHIJKLMNOPQRSTUVWXYZ''"

text \<open>\<open>rnd i\<close> is the value \<open>rand.Intn\<close> reduces modulo its bound in the \<open>i\<close>-th call.\<close>

definition randseq :: "(nat \<Rightarrow> nat) \<Rightarrow> nat \<Rightarrow> string" where
  "randseq rnd n = map (\<lambda>i. letters ! (rnd i mod length letters)) [0..<n]"

lemma length_letters [simp]: "length letters = 52"
  by (simp add: letters_def)

lemma length_randseq [simp]: "length (randseq rnd n) = n"
  by (simp add: randseq_def)

lemma set_randseq: "set (randseq rnd n) \<subseteq> set letters"
  by (auto simp: randseq_def)

lemma utf8_string_randseq [simp]: "n < 2 ^ 63 \<Longrightarrow> utf8_string (randseq rnd n)"
proof (rule utf8_string_ascii)
  have "ascii letters" by (simp add: letters_def)
  then show "ascii (randseq rnd n)" using set_randseq [of rnd n] by (auto simp: ascii_def)
qed simp

section \<open>State\<close>

type_synonym connectionState = byte

definition StateConnecting :: connectionState where "StateConnecting = 1"
definition StateEstablished :: connectionState where "StateEstablished = 2"

lemmas State_defs = StateConnecting_def StateEstablished_def

definition connectionState_String :: "connectionState \<Rightarrow> string" where
  "connectionState_String s =
     (if s = StateConnecting then ''StateConnecting''
      else if s = StateEstablished then ''StateEstablished''
      else ''UnknowState('' @ dec_nat (unat s) @ '')'')"

text \<open>
  \<open>c_remote\<close> is the text of \<open>peer.RemoteAddr()\<close>, \<open>c_open\<close> whether the socket \<open>peer\<close> is open,
  \<open>c_die\<close> whether the channel \<open>die\<close> is closed. \<open>c_running\<close> and \<open>c_connecting\<close> belong to the
  goroutine of \<open>loop\<close>: whether it is in its \<open>for\<close> loop, and the deadline of the timer
  \<open>connecting\<close> while one is armed. \<open>c_closing\<close> holds between the loop's return and its
  deferred call of \<open>handleClosed\<close>.
\<close>

record connection =
  selfVirtAddr :: string
  peerVirtAddr :: string
  c_once :: bool
  c_state :: connectionState
  c_remote :: string
  c_open :: bool
  c_pipeline :: "bytes chan"
  c_keepalive :: time
  c_die :: bool
  c_running :: bool
  c_connecting :: "time option"
  c_closing :: bool

definition new_connection :: "string \<Rightarrow> string \<Rightarrow> string \<Rightarrow> time \<Rightarrow> connection" where
  "new_connection self peer remote now =
     \<lparr>selfVirtAddr = self, peerVirtAddr = peer, c_once = False, c_state = StateConnecting,
      c_remote = remote, c_open = True, c_pipeline = make_chan 128, c_keepalive = now,
      c_die = False, c_running = False, c_connecting = None, c_closing = False\<rparr>"

section \<open>Operations\<close>

text \<open>
  \<open>close\<close> as one call that no other call of \<open>close\<close> on the same connection overlaps; the theory \<open>Close_Race\<close> has one step per access to the
  channel, and shows that overlapping calls can panic.
\<close>

definition conn_close :: "connection \<Rightarrow> connection" where
  "conn_close c = (if c_die c then c else c\<lparr>c_die := True\<rparr>)"

definition ping :: "proto_lib \<Rightarrow> (nat \<Rightarrow> nat) \<Rightarrow> connection \<Rightarrow> bytes go" where
  "ping P rnd c = Encode P PacketType_Ping
     (MPing \<lparr>ping_VirtAddress = selfVirtAddr c, ping_Nonce = randseq rnd 128\<rparr>)"

text \<open>The entry of \<open>loop\<close>: a second call returns at once.\<close>

definition loop_start :: "connection \<Rightarrow> time \<Rightarrow> connection" where
  "loop_start c now =
     (if c_once c then c
      else c\<lparr>c_once := True, c_running := True, c_connecting := Some now\<rparr>)"

definition loop_connecting :: "proto_lib \<Rightarrow> (nat \<Rightarrow> nat) \<Rightarrow> connection \<Rightarrow> time \<Rightarrow> (connection \<times> bytes list) go" where
  "loop_connecting P rnd c now =
     (if c_state c \<noteq> StateConnecting then Ret (c\<lparr>c_connecting := None\<rparr>, [])
      else go_bind (ping P rnd c) (\<lambda>data.
        Ret (c\<lparr>c_connecting := Some (now + ConnectingRetryDuration)\<rparr>, [data])))"

definition loop_keepalive :: "proto_lib \<Rightarrow> (nat \<Rightarrow> nat) \<Rightarrow> connection \<Rightarrow> time \<Rightarrow> (connection \<times> bytes list) go" where
  "loop_keepalive P rnd c now =
     (if c_keepalive c + PeerKeepaliveDuration * 2 < now then Ret (conn_close c, [])
      else if c_state c \<noteq> StateEstablished then Ret (c, [])
      else go_bind (ping P rnd c) (\<lambda>data. Ret (c, [data])))"

definition loop_pipeline :: "connection \<Rightarrow> (connection \<times> bytes list) go" where
  "loop_pipeline c =
     go_bind (chan_recv (c_pipeline c)) (\<lambda>(data, ch). Ret (c\<lparr>c_pipeline := ch\<rparr>, [data]))"

text \<open>The branch of \<open>die\<close>: it is ready once the channel is closed; the loop returns.\<close>

definition loop_die :: "connection \<Rightarrow> connection go" where
  "loop_die c = (if c_die c then Ret (c\<lparr>c_open := False, c_running := False, c_closing := True\<rparr>) else Block)"

definition pong_received :: "connection \<Rightarrow> time \<Rightarrow> connection" where
  "pong_received c now =
     (let c1 = c\<lparr>c_keepalive := now\<rparr>
      in if c_state c1 \<noteq> StateEstablished then c1\<lparr>c_state := StateEstablished\<rparr> else c1)"

section \<open>Lifecycle\<close>

text \<open>
  What every operation keeps of a connection: the state is one of the two constants, the
  pipeline has its capacity, and a loop that has ended (it started and runs no more) ended
  through \<open>die\<close> and closed the socket.
\<close>

definition conn_ok :: "connection \<Rightarrow> bool" where
  "conn_ok c \<longleftrightarrow>
     (c_state c = StateConnecting \<or> c_state c = StateEstablished) \<and>
     chan_cap (c_pipeline c) = 128 \<and> chan_ok (c_pipeline c) \<and>
     (c_running c \<longrightarrow> c_once c) \<and>
     (c_open c \<longleftrightarrow> \<not> c_once c \<or> c_running c) \<and>
     (\<not> c_open c \<longrightarrow> c_die c) \<and> (c_closing c \<longrightarrow> \<not> c_open c)"

text \<open>The fields no operation of the loop writes, and the direction of the state.\<close>

definition conn_le :: "connection \<Rightarrow> connection \<Rightarrow> bool" where
  "conn_le c c' \<longleftrightarrow> selfVirtAddr c' = selfVirtAddr c \<and> peerVirtAddr c' = peerVirtAddr c \<and>
     c_remote c' = c_remote c \<and> c_state c \<le> c_state c' \<and> (c_once c \<longrightarrow> c_once c') \<and>
     (c_die c \<longrightarrow> c_die c')"

lemma conn_le_refl [simp]: "conn_le c c"
  by (simp add: conn_le_def)

lemma conn_le_trans: "conn_le a b \<Longrightarrow> conn_le b c \<Longrightarrow> conn_le a c"
  unfolding conn_le_def by auto

lemma conn_ok_new [simp]: "conn_ok (new_connection self peer remote now)"
  by (simp add: conn_ok_def new_connection_def)

lemma conn_close_idem [simp]: "conn_close (conn_close c) = conn_close c"
  by (simp add: conn_close_def)

lemma conn_close_ok: "conn_ok c \<Longrightarrow> conn_ok (conn_close c) \<and> conn_le c (conn_close c)"
  by (auto simp: conn_ok_def conn_le_def conn_close_def)

lemma loop_start_ok: "conn_ok c \<Longrightarrow> conn_ok (loop_start c now) \<and> conn_le c (loop_start c now)"
  by (auto simp: conn_ok_def conn_le_def loop_start_def)

lemma loop_connecting_ok:
  "conn_ok c \<Longrightarrow> loop_connecting P rnd c now = Ret (c', ds) \<Longrightarrow> conn_ok c' \<and> conn_le c c'"
  by (auto simp: conn_ok_def conn_le_def loop_connecting_def go_simps split: if_splits)

lemma loop_keepalive_ok:
  "conn_ok c \<Longrightarrow> loop_keepalive P rnd c now = Ret (c', ds) \<Longrightarrow> conn_ok c' \<and> conn_le c c'"
  by (auto simp: loop_keepalive_def go_simps conn_close_ok split: if_splits)

lemma loop_pipeline_ok:
  "conn_ok c \<Longrightarrow> loop_pipeline c = Ret (c', ds) \<Longrightarrow> conn_ok c' \<and> conn_le c c'"
  by (auto simp: conn_ok_def conn_le_def loop_pipeline_def go_simps chan_simps chan_ok_def)

lemma loop_die_ok:
  "conn_ok c \<Longrightarrow> c_running c \<Longrightarrow> loop_die c = Ret c' \<Longrightarrow> conn_ok c' \<and> conn_le c c' \<and> \<not> c_open c' \<and> c_closing c'"
  by (auto simp: conn_ok_def conn_le_def loop_die_def split: if_splits)

lemma pong_received_ok:
  "conn_ok c \<Longrightarrow> conn_ok (pong_received c now) \<and> conn_le c (pong_received c now)"
  by (auto simp: conn_ok_def conn_le_def pong_received_def Let_def State_defs)

lemma pong_established [simp]: "c_state (pong_received c now) = StateEstablished"
  by (simp add: pong_received_def Let_def)

lemma established_stays:
  assumes "conn_le c c'" "conn_ok c'" "c_state c = StateEstablished"
  shows "c_state c' = StateEstablished"
proof -
  have "\<not> StateEstablished \<le> StateConnecting" by (simp add: State_defs word_le_nat_alt)
  with assms show ?thesis by (metis conn_le_def conn_ok_def)
qed

lemma conn_ok_pipeline:
  "conn_ok c \<Longrightarrow> chan_send (c_pipeline c) x = Ret ch \<Longrightarrow> conn_ok (c\<lparr>c_pipeline := ch\<rparr>)"
  "conn_ok c \<Longrightarrow> conn_ok (c\<lparr>c_pipeline := snd (chan_try_send (c_pipeline c) x)\<rparr>)"
  by (auto simp: conn_ok_def chan_simps chan_ok_def chan_full_def chan_try_send_def)

lemmas loop_branch_ok = loop_connecting_ok loop_keepalive_ok loop_pipeline_ok

section \<open>The reader and its handler\<close>

text \<open>
  \<open>read\<close> hands every datagram of the socket to the handler until a read fails; the buffer has
  4096 bytes. \<open>ds\<close> is the sequence of datagrams before the failure.
\<close>

fun conn_read :: "('h \<Rightarrow> string \<Rightarrow> bytes \<Rightarrow> 'h go) \<Rightarrow> string \<Rightarrow> bytes list \<Rightarrow> 'h \<Rightarrow> 'h go" where
  "conn_read handlePacket remote [] h = Ret h"
| "conn_read handlePacket remote (d # ds) h =
     go_bind (handlePacket h remote (take 4096 d)) (conn_read handlePacket remote ds)"

text \<open>The interface \<open>handler\<close>: what a connection needs of the object it reports to.\<close>

locale packet_handler =
  fixes handlePacket :: "'h \<Rightarrow> string \<Rightarrow> bytes \<Rightarrow> 'h go"
    and handleClosed :: "'h \<Rightarrow> nat \<Rightarrow> 'h"
    and wf :: "'h \<Rightarrow> bool"
    and mapped :: "'h \<Rightarrow> nat \<Rightarrow> bool"
  assumes wf_packet: "wf h \<Longrightarrow> handlePacket h remote d = Ret h' \<Longrightarrow> wf h'"
    and no_panic: "wf h \<Longrightarrow> handlePacket h remote d \<noteq> Panic e"
    and closed_unmapped: "wf h \<Longrightarrow> \<not> mapped (handleClosed h p) p"
    and closed_others: "mapped (handleClosed h p) q \<Longrightarrow> mapped h q"
begin

lemma wf_read: "wf h \<Longrightarrow> conn_read handlePacket remote ds h = Ret h' \<Longrightarrow> wf h'"
  by (induction ds arbitrary: h) (auto simp: go_simps intro: wf_packet)

lemma read_no_panic: "wf h \<Longrightarrow> conn_read handlePacket remote ds h \<noteq> Panic e"
proof (induction ds arbitrary: h)
  case Nil
  then show ?case by simp
next
  case (Cons d ds)
  then show ?case by (auto simp: go_simps no_panic intro: wf_packet)
qed

end


text \<open>
  The states of a connection under its loop. Whatever branch of \<open>loop\<close> runs, the connection keeps
  its well-formedness (one of the two states, a pipeline of capacity 128 that is not overfull, an
  open socket exactly until the loop has ended through \<open>die\<close>); every branch that writes writes
  one datagram, which is a Ping with a nonce of 128 letters naming this node, or the oldest
  packet of the pipeline.
\<close>

theorem loop_branches_sound:
  assumes "conn_ok c"
  shows "conn_ok (loop_start c now) \<and>
    (loop_connecting P rnd c now = Ret (c', ds) \<longrightarrow> conn_ok c' \<and> length ds \<le> 1 \<and>
       (\<forall>d \<in> set ds. ping P rnd c = Ret d \<and> c_state c = StateConnecting)) \<and>
    (loop_keepalive P rnd c now = Ret (c', ds) \<longrightarrow> conn_ok c' \<and> length ds \<le> 1 \<and>
       (\<forall>d \<in> set ds. ping P rnd c = Ret d \<and> c_state c = StateEstablished) \<and>
       (c_die c' \<longrightarrow> c_die c \<or> c_keepalive c + 10 * Second < now)) \<and>
    (loop_pipeline c = Ret (c', ds) \<longrightarrow> conn_ok c' \<and> chan_buf (c_pipeline c) = ds @ chan_buf (c_pipeline c') \<and> length ds = 1) \<and>
    (c_running c \<longrightarrow> loop_die c = Ret c' \<longrightarrow> conn_ok c' \<and> \<not> c_open c' \<and> c_die c) \<and>
    length (randseq rnd 128) = 128 \<and> set (randseq rnd 128) \<subseteq> set letters"
proof (intro conjI impI)
  show "conn_ok (loop_start c now)" using loop_start_ok [OF assms] by simp
  show "length (randseq rnd 128) = 128" "set (randseq rnd 128) \<subseteq> set letters" by (simp_all add: set_randseq)
next
  assume l: "loop_connecting P rnd c now = Ret (c', ds)"
  show "conn_ok c'" using loop_connecting_ok [OF assms l] by simp
  show "length ds \<le> 1" "\<forall>d \<in> set ds. ping P rnd c = Ret d \<and> c_state c = StateConnecting"
    using l by (auto simp: loop_connecting_def go_bind_Ret_iff split: if_splits)
next
  assume l: "loop_keepalive P rnd c now = Ret (c', ds)"
  show "conn_ok c'" using loop_keepalive_ok [OF assms l] by simp
  show "length ds \<le> 1" "\<forall>d \<in> set ds. ping P rnd c = Ret d \<and> c_state c = StateEstablished"
    using l by (auto simp: loop_keepalive_def go_bind_Ret_iff split: if_splits)
  assume "c_die c'"
  then show "c_die c \<or> c_keepalive c + 10 * Second < now"
    using l by (auto simp: loop_keepalive_def go_bind_Ret_iff PeerKeepaliveDuration_def split: if_splits)
next
  assume l: "loop_pipeline c = Ret (c', ds)"
  show "conn_ok c'" using loop_pipeline_ok [OF assms l] by simp
  show "chan_buf (c_pipeline c) = ds @ chan_buf (c_pipeline c')" "length ds = 1"
    using l by (auto simp: loop_pipeline_def go_bind_Ret_iff chan_simps)
next
  assume r: "c_running c" and l: "loop_die c = Ret c'"
  show "conn_ok c'" "\<not> c_open c'" using loop_die_ok [OF assms r l] by simp_all
  show "c_die c" using l by (simp add: loop_die_def split: if_splits)
qed

theorem loop_branches_sound_witness:
  "conn_ok (loop_start (new_connection ''10.0.0.1'' ''10.0.0.2'' ''2.2.2.2:20'' 1) 2)"
  using loop_branches_sound [OF conn_ok_new, of "''10.0.0.1''" "''10.0.0.2''" "''2.2.2.2:20''" 1 2] by blast

end
