(* ===== verification/Node.thy ===== *)
theory Node
  imports Connection Api_Client Go_Text
begin

text \<open>
  The peer node (\<open>node/node.go\<close>, \<open>node/handler.go\<close>): routing of packets from the virtual
  device, the handlers of the datagrams of peers and gateway, and the table of connections.
  Connections are objects that the table, the handlers and the loops share, so they live in a
  heap (\<open>nd_heap\<close>) and the table maps a virtual address to a pointer. What a node writes to
  its sockets and its device is recorded in the state. The packet decoder of \<open>gopacket\<close>, the
  dialer and the protobuf library are arguments.
\<close>

section \<open>State\<close>

record Options =
  opt_Gateway :: string
  opt_Key :: string
  opt_Address :: string
  opt_TLS :: bool

record node =
  nd_opt :: Options
  nd_apiClient :: Client
  nd_gateway :: bool  \<comment> \<open>the socket to the gateway is open\<close>
  nd_pipeline :: "bytes chan"
  nd_mask :: ip
  nd_pending :: "string \<rightharpoonup> time"
  nd_connections :: "string \<rightharpoonup> nat"
  nd_heap :: "nat \<rightharpoonup> connection"
  nd_next :: nat
  nd_gateway_out :: "bytes list"  \<comment> \<open>datagrams handed to \<open>gateway.Write\<close>, whatever it returns\<close>
  nd_peer_out :: "(string \<times> bytes) list"  \<comment> \<open>datagrams handed to \<open>peer.Write\<close>, with the remote address\<close>
  nd_dev_out :: "bytes list"  \<comment> \<open>packets handed to \<open>dev.Write\<close>\<close>
  nd_requests :: "string list"  \<comment> \<open>goroutines that call \<open>apiClient.OpenTunnel\<close>, by destination\<close>

definition subnetMask :: bytes where
  "subnetMask = [255, 255, 0, 0]"

definition New :: "Options \<Rightarrow> node" where
  "New opt =
     \<lparr>nd_opt = opt, nd_apiClient = NewClient (opt_Gateway opt) (opt_Key opt) (opt_TLS opt),
      nd_gateway = False, nd_pipeline = make_chan 512, nd_mask = [], nd_pending = Map.empty,
      nd_connections = Map.empty, nd_heap = Map.empty, nd_next = 0, nd_gateway_out = [],
      nd_peer_out = [], nd_dev_out = [], nd_requests = []\<rparr>"

text \<open>
  The set-up part of \<open>Serve\<close>: the environment says whether a free port was found, whether the
  dial to the gateway succeeded and what \<open>tun.NewTUN\<close> returned.
\<close>

record serve_env =
  sv_port :: "string + int"
  sv_dial :: "string option"
  sv_tun :: "string option"

definition Serve_setup :: "serve_env \<Rightarrow> node \<Rightarrow> go_error option \<times> node" where
  "Serve_setup env n =
     (case sv_port env of
        Inl err \<Rightarrow> (Some (ErrWithMessage (ErrNew err) ''no free port available''), n)
      | Inr port \<Rightarrow>
          (let n1 = n\<lparr>nd_mask := IP_Mask (ParseIP (opt_Address (nd_opt n))) [255, 255, 0, 0]\<rparr>
           in case sv_dial env of
                Some err \<Rightarrow> (Some (ErrWithStack (ErrNew err)), n1)
              | None \<Rightarrow>
                  (let n2 = n1\<lparr>nd_gateway := True\<rparr>
                   in case sv_tun env of
                        Some err \<Rightarrow> (Some (ErrNew err), n2)
                      | None \<Rightarrow> (None, n2))))"

definition Stop :: "node \<Rightarrow> node" where
  "Stop n = n\<lparr>nd_gateway := False\<rparr>"

section \<open>Forwarding packets of the device\<close>

definition gateway_write :: "node \<Rightarrow> bytes \<Rightarrow> node" where
  "gateway_write n data = n\<lparr>nd_gateway_out := nd_gateway_out n @ [data]\<rparr>"

definition nil_deref :: string where
  "nil_deref = ''invalid memory address or nil pointer dereference''"

definition forward :: "proto_lib \<Rightarrow> node \<Rightarrow> string \<Rightarrow> bytes \<Rightarrow> time \<Rightarrow> node go" where
  "forward P n virtAddress data now =
     (case nd_connections n virtAddress of
        Some ptr \<Rightarrow>
          (case nd_heap n ptr of
             None \<Rightarrow> Panic nil_deref
           | Some conn \<Rightarrow>
               if c_state conn = StateEstablished then
                 Ret (n\<lparr>nd_heap := (nd_heap n)(ptr \<mapsto>
                   conn\<lparr>c_pipeline := snd (chan_try_send (c_pipeline conn) (EncodeRaw data))\<rparr>)\<rparr>)
               else
                 go_bind (Encode P PacketType_Relay
                   (MRelay \<lparr>relay_VirtAddress = virtAddress, relay_Data = data\<rparr>))
                   (\<lambda>d. Ret (gateway_write n d)))
      | None \<Rightarrow>
          if (case nd_pending n virtAddress of Some t \<Rightarrow> now < t + Second | None \<Rightarrow> False) then Ret n
          else Ret (n\<lparr>nd_pending := (nd_pending n)(virtAddress \<mapsto> now),
                      nd_requests := nd_requests n @ [virtAddress]\<rparr>))"

text \<open>The end of the goroutine that requested the tunnel: \<open>defer n.pending.Delete\<close>.\<close>

definition request_done :: "node \<Rightarrow> string \<Rightarrow> node" where
  "request_done n virtAddress =
     n\<lparr>nd_pending := (nd_pending n)(virtAddress := None),
       nd_requests := remove1 virtAddress (nd_requests n)\<rparr>"

text \<open>
  One turn of the reading goroutine of \<open>serveDev\<close>: \<open>decode\<close> is gopacket's IPv4 decoder, of
  which the destination address is used.
\<close>

definition dev_read_turn ::
  "proto_lib \<Rightarrow> (bytes \<Rightarrow> (byte \<times> byte \<times> byte \<times> byte) option) \<Rightarrow> node \<Rightarrow> bytes \<Rightarrow> time \<Rightarrow> node go" where
  "dev_read_turn P decode n packet now =
     (case decode packet of
        None \<Rightarrow> Ret n
      | Some (a, b, c, d) \<Rightarrow>
          (let dstIP = [a, b, c, d]
           in if \<not> IP_Equal (IP_Mask dstIP subnetMask) (nd_mask n) then Ret n
              else let destination = dotted dstIP
                   in if destination = opt_Address (nd_opt n)
                      then go_bind (chan_send (nd_pipeline n) packet) (\<lambda>ch. Ret (n\<lparr>nd_pipeline := ch\<rparr>))
                      else forward P n destination packet now))"

definition dev_write_turn :: "node \<Rightarrow> node go" where
  "dev_write_turn n =
     go_bind (chan_recv (nd_pipeline n)) (\<lambda>(data, ch).
       Ret (n\<lparr>nd_pipeline := ch, nd_dev_out := nd_dev_out n @ [data]\<rparr>))"

definition heartbeat_data :: "proto_lib \<Rightarrow> node \<Rightarrow> bytes go" where
  "heartbeat_data P n =
     Encode P PacketType_Heartbeat (MHeartbeat \<lparr>heartbeat_VirtAddress = opt_Address (nd_opt n)\<rparr>)"

definition heartbeat_turn :: "proto_lib \<Rightarrow> node \<Rightarrow> node go" where
  "heartbeat_turn P n = go_bind (heartbeat_data P n) (\<lambda>d. Ret (gateway_write n d))"

section \<open>Handling datagrams\<close>

text \<open>The slice \<open>protos\<close> of the node: length 6, with nil at 0, 1 and 3.\<close>

definition node_protos :: "proto_message option list" where
  "node_protos =
     [None, None,
      Some (MOpenTunnel \<lparr>tunnel_AckId = 0, tunnel_VirtAddress = '''', tunnel_UdpAddress = ''''\<rparr>),
      None,
      Some (MPing \<lparr>ping_VirtAddress = '''', ping_Nonce = ''''\<rparr>),
      Some (MPong \<lparr>pong_VirtAddress = '''', pong_Nonce = ''''\<rparr>)]"

definition onPing :: "proto_lib \<Rightarrow> (nat \<Rightarrow> nat) \<Rightarrow> node \<Rightarrow> CtrlPing \<Rightarrow> node go" where
  "onPing P rnd n p =
     (case nd_connections n (ping_VirtAddress p) of
        None \<Rightarrow> Ret n
      | Some ptr \<Rightarrow>
          go_bind (Encode P PacketType_Pong
            (MPong \<lparr>pong_VirtAddress = opt_Address (nd_opt n), pong_Nonce = randseq rnd 128\<rparr>)) (\<lambda>data.
          (case nd_heap n ptr of
             None \<Rightarrow> Panic nil_deref
           | Some conn \<Rightarrow>
               go_bind (chan_send (c_pipeline conn) data) (\<lambda>ch.
                 Ret (n\<lparr>nd_heap := (nd_heap n)(ptr \<mapsto> conn\<lparr>c_pipeline := ch\<rparr>)\<rparr>)))))"

definition onPong :: "node \<Rightarrow> CtrlPong \<Rightarrow> time \<Rightarrow> node go" where
  "onPong n p now =
     (case nd_connections n (pong_VirtAddress p) of
        None \<Rightarrow> Ret n
      | Some ptr \<Rightarrow>
          (case nd_heap n ptr of
             None \<Rightarrow> Panic nil_deref
           | Some conn \<Rightarrow> Ret (n\<lparr>nd_heap := (nd_heap n)(ptr \<mapsto> pong_received conn now)\<rparr>)))"

definition send_ack :: "proto_lib \<Rightarrow> node \<Rightarrow> int64 \<Rightarrow> node go" where
  "send_ack P n ackId =
     go_bind (Encode P PacketType_OpenTunnelAck (MOpenTunnelAck \<lparr>ack_AckId = ackId\<rparr>))
       (\<lambda>d. Ret (gateway_write n d))"

text \<open>The tail of \<open>onOpenTunnel\<close>: dial, file the new connection, acknowledge.\<close>

definition connect :: "proto_lib \<Rightarrow> (string \<Rightarrow> string option) \<Rightarrow> node \<Rightarrow> CtrlOpenTunnel \<Rightarrow> time \<Rightarrow> node go" where
  "connect P dial n t now =
     (case dial (tunnel_UdpAddress t) of
        None \<Rightarrow> Ret n
      | Some remote \<Rightarrow>
          send_ack P
            (n\<lparr>nd_heap := (nd_heap n)(nd_next n \<mapsto>
                 new_connection (opt_Address (nd_opt n)) (tunnel_VirtAddress t) remote now),
               nd_connections := (nd_connections n)(tunnel_VirtAddress t \<mapsto> nd_next n),
               nd_next := Suc (nd_next n)\<rparr>)
            (tunnel_AckId t))"

definition onOpenTunnel :: "proto_lib \<Rightarrow> (string \<Rightarrow> string option) \<Rightarrow> node \<Rightarrow> CtrlOpenTunnel \<Rightarrow> time \<Rightarrow> node go" where
  "onOpenTunnel P dial n t now =
     (case nd_connections n (tunnel_VirtAddress t) of
        Some ptr \<Rightarrow>
          (case nd_heap n ptr of
             None \<Rightarrow> Panic nil_deref
           | Some conn \<Rightarrow>
               if c_remote conn = tunnel_UdpAddress t then send_ack P n (tunnel_AckId t)
               else connect P dial (n\<lparr>nd_heap := (nd_heap n)(ptr \<mapsto> conn_close conn)\<rparr>) t now)
      | None \<Rightarrow> connect P dial n t now)"

definition handleClosed :: "node \<Rightarrow> nat \<Rightarrow> node" where
  "handleClosed n ptr =
     (case nd_heap n ptr of
        None \<Rightarrow> n
      | Some conn \<Rightarrow> n\<lparr>nd_connections := (nd_connections n)(peerVirtAddr conn := None)\<rparr>)"

definition packet_switch ::
  "proto_lib \<Rightarrow> (string \<Rightarrow> string option) \<Rightarrow> (nat \<Rightarrow> nat) \<Rightarrow> node \<Rightarrow> PacketType \<Rightarrow> proto_message \<Rightarrow> time \<Rightarrow> node go" where
  "packet_switch P dial rnd n packetType m now =
     (if packetType = PacketType_Ping then
        (case m of MPing p \<Rightarrow> onPing P rnd n p | _ \<Rightarrow> Panic ''interface conversion'')
      else if packetType = PacketType_Pong then
        (case m of MPong p \<Rightarrow> onPong n p now | _ \<Rightarrow> Panic ''interface conversion'')
      else if packetType = PacketType_OpenTunnel then
        (case m of MOpenTunnel t \<Rightarrow> onOpenTunnel P dial n t now | _ \<Rightarrow> Panic ''interface conversion'')
      else Ret n)"

definition handlePacket ::
  "proto_lib \<Rightarrow> (string \<Rightarrow> string option) \<Rightarrow> (nat \<Rightarrow> nat) \<Rightarrow> node \<Rightarrow> bytes \<Rightarrow> time \<Rightarrow> node go" where
  "handlePacket P dial rnd n data now =
     (if length data < 1 then Ret n
      else let packetType = packetType_of data; payload = tl data
      in if packetType = PacketType_Data
         then go_bind (chan_send (nd_pipeline n) payload) (\<lambda>ch. Ret (n\<lparr>nd_pipeline := ch\<rparr>))
         else if int (length node_protos) \<le> sint packetType then Ret n
         else if sint packetType < 0 then Panic ''index out of range''
         else (case node_protos ! nat (sint packetType) of
                 None \<Rightarrow> Ret n
               | Some msg \<Rightarrow>
                   (case proto_Unmarshal P (proto_Reset msg) payload of
                      Inl err \<Rightarrow> Ret n
                    | Inr m \<Rightarrow> packet_switch P dial rnd n packetType m now)))"

end
