(* ===== verification/Node_System.thy ===== *)
theory Node_System
  imports Node
begin

text \<open>
  The running node as a transition system: the two goroutines of \<open>serveDev\<close>, the UDP loop of
  \<open>schedule\<close> and the readers of the connections (both end in \<open>handlePacket\<close>), the heartbeat, the
  requests to the gateway, and for every connection the branches of its \<open>loop\<close>. The invariant
  \<open>node_inv\<close> ties the connection table to the heap; the node is an instance of the interface
  \<open>packet_handler\<close> its connections report to.
\<close>

section \<open>Steps\<close>

datatype node_label =
    NDevRead bytes time
  | NDevWrite
  | NPacket bytes time
  | NRequestDone string
  | NHeartbeat
  | NStart nat time
  | NConnecting nat time
  | NKeepalive nat time
  | NPipeline nat
  | NDie nat
  | NClosed nat

definition set_conn :: "node \<Rightarrow> nat \<Rightarrow> connection \<Rightarrow> bytes list \<Rightarrow> node" where
  "set_conn n p c ds = n\<lparr>nd_heap := (nd_heap n)(p \<mapsto> c),
     nd_peer_out := nd_peer_out n @ map (Pair (c_remote c)) ds\<rparr>"

inductive node_step ::
  "proto_lib \<Rightarrow> (string \<Rightarrow> string option) \<Rightarrow> (bytes \<Rightarrow> (byte \<times> byte \<times> byte \<times> byte) option) \<Rightarrow>
   node \<Rightarrow> node_label \<Rightarrow> node \<Rightarrow> bool"
  for P dial decode where
  dev_read: "dev_read_turn P decode n packet now = Ret n' \<Longrightarrow>
     node_step P dial decode n (NDevRead packet now) n'"
| dev_write: "dev_write_turn n = Ret n' \<Longrightarrow> node_step P dial decode n NDevWrite n'"
| packet: "handlePacket P dial rnd n (take MaxBufferSize d) now = Ret n' \<Longrightarrow>
     node_step P dial decode n (NPacket d now) n'"
| req_done: "v \<in> set (nd_requests n) \<Longrightarrow> node_step P dial decode n (NRequestDone v) (request_done n v)"
| beat: "heartbeat_turn P n = Ret n' \<Longrightarrow> node_step P dial decode n NHeartbeat n'"
| start: "nd_heap n p = Some c \<Longrightarrow> node_step P dial decode n (NStart p now) (set_conn n p (loop_start c now) [])"
| connecting: "nd_heap n p = Some c \<Longrightarrow> c_running c \<Longrightarrow> c_connecting c = Some t \<Longrightarrow> t \<le> now \<Longrightarrow>
     loop_connecting P rnd c now = Ret (c', ds) \<Longrightarrow>
     node_step P dial decode n (NConnecting p now) (set_conn n p c' ds)"
| keepalive: "nd_heap n p = Some c \<Longrightarrow> c_running c \<Longrightarrow> loop_keepalive P rnd c now = Ret (c', ds) \<Longrightarrow>
     node_step P dial decode n (NKeepalive p now) (set_conn n p c' ds)"
| pipeline: "nd_heap n p = Some c \<Longrightarrow> c_running c \<Longrightarrow> loop_pipeline c = Ret (c', ds) \<Longrightarrow>
     node_step P dial decode n (NPipeline p) (set_conn n p c' ds)"
| die: "nd_heap n p = Some c \<Longrightarrow> c_running c \<Longrightarrow> loop_die c = Ret c' \<Longrightarrow>
     node_step P dial decode n (NDie p) (set_conn n p c' [])"
| closed: "nd_heap n p = Some c \<Longrightarrow> c_closing c \<Longrightarrow>
     node_step P dial decode n (NClosed p) (handleClosed (set_conn n p (c\<lparr>c_closing := False\<rparr>) []) p)"

inductive node_run ::
  "proto_lib \<Rightarrow> (string \<Rightarrow> string option) \<Rightarrow> (bytes \<Rightarrow> (byte \<times> byte \<times> byte \<times> byte) option) \<Rightarrow>
   node \<Rightarrow> node_label list \<Rightarrow> node \<Rightarrow> bool"
  for P dial decode where
  run_nil: "node_run P dial decode n [] n"
| run_cons: "node_step P dial decode n l n' \<Longrightarrow> node_run P dial decode n' ls n'' \<Longrightarrow>
     node_run P dial decode n (l # ls) n''"

section \<open>The invariant\<close>

definition heap_inv :: "node \<Rightarrow> bool" where
  "heap_inv n \<longleftrightarrow> (\<forall>p c. nd_heap n p = Some c \<longrightarrow>
     conn_ok c \<and> selfVirtAddr c = opt_Address (nd_opt n) \<and> p < nd_next n)"

definition table_inv :: "node \<Rightarrow> bool" where
  "table_inv n \<longleftrightarrow> (\<forall>v p. nd_connections n v = Some p \<longrightarrow>
     (\<exists>c. nd_heap n p = Some c \<and> peerVirtAddr c = v \<and> (c_open c \<or> c_closing c)))"

definition node_inv :: "node \<Rightarrow> bool" where
  "node_inv n \<longleftrightarrow> heap_inv n \<and> table_inv n \<and>
     chan_cap (nd_pipeline n) = 512 \<and> chan_ok (nd_pipeline n)"

text \<open>Along every step a connection stays in the heap and moves forward in its life.\<close>

definition heap_le :: "node \<Rightarrow> node \<Rightarrow> bool" where
  "heap_le n n' \<longleftrightarrow> (\<forall>p c. nd_heap n p = Some c \<longrightarrow> (\<exists>c'. nd_heap n' p = Some c' \<and> conn_le c c'))"

lemma heap_le_refl [simp]: "heap_le n n"
  by (auto simp: heap_le_def)

lemma heap_le_trans: "heap_le a b \<Longrightarrow> heap_le b c \<Longrightarrow> heap_le a c"
  unfolding heap_le_def by (meson conn_le_trans)

lemma heap_le_same [simp]: "nd_heap n' = nd_heap n \<Longrightarrow> heap_le n n'"
  by (auto simp: heap_le_def)

text \<open>Replacing one connection by a later version of it keeps the invariant.\<close>

lemma node_inv_update:
  assumes inv: "node_inv n" and c: "nd_heap n p = Some c"
    and ok: "conn_ok c'" and le: "conn_le c c'"
    and life: "c_open c \<or> c_closing c \<Longrightarrow> c_open c' \<or> c_closing c'"
    and same: "nd_heap n' = (nd_heap n)(p \<mapsto> c')" "nd_connections n' = nd_connections n"
      "nd_next n' = nd_next n" "nd_pipeline n' = nd_pipeline n" "nd_opt n' = nd_opt n"
  shows "node_inv n' \<and> heap_le n n'"
proof -
  have "heap_inv n'" using inv c ok le same by (auto simp: node_inv_def heap_inv_def conn_le_def)
  moreover have "table_inv n'"
    using inv c le life same unfolding node_inv_def table_inv_def conn_le_def by fastforce
  moreover have "heap_le n n'" using c le same by (auto simp: heap_le_def)
  ultimately show ?thesis using inv same by (simp add: node_inv_def)
qed

lemma set_conn_inv:
  assumes "node_inv n" "nd_heap n p = Some c" "conn_ok c' \<and> conn_le c c'"
    and "c_open c \<or> c_closing c \<Longrightarrow> c_open c' \<or> c_closing c'"
  shows "node_inv (set_conn n p c' ds) \<and> heap_le n (set_conn n p c' ds)"
  using assms by (intro node_inv_update [of n p c c']) (auto simp: set_conn_def)

lemma conn_ok_life:
  assumes "conn_ok c"
  shows "c_open (loop_start c now) = c_open c" "c_closing (loop_start c now) = c_closing c"
    "c_open (conn_close c) = c_open c" "c_closing (conn_close c) = c_closing c"
    "c_open (pong_received c now) = c_open c" "c_closing (pong_received c now) = c_closing c"
  using assms by (auto simp: conn_ok_def loop_start_def conn_close_def pong_received_def Let_def)

lemma loop_branch_life:
  "loop_connecting P rnd c now = Ret (c', ds) \<Longrightarrow> c_open c' = c_open c \<and> c_closing c' = c_closing c"
  "loop_keepalive P rnd c now = Ret (c', ds) \<Longrightarrow> c_open c' = c_open c \<and> c_closing c' = c_closing c"
  "loop_pipeline c = Ret (c', ds) \<Longrightarrow> c_open c' = c_open c \<and> c_closing c' = c_closing c"
  by (auto simp: loop_connecting_def loop_keepalive_def loop_pipeline_def conn_close_def go_simps
      split: if_splits)

lemma node_inv_heapD: "node_inv n \<Longrightarrow> nd_heap n p = Some c \<Longrightarrow> conn_ok c"
  by (auto simp: node_inv_def heap_inv_def)

lemma node_inv_tableD:
  "node_inv n \<Longrightarrow> nd_connections n v = Some p \<Longrightarrow>
    \<exists>c. nd_heap n p = Some c \<and> peerVirtAddr c = v \<and> (c_open c \<or> c_closing c) \<and> conn_ok c"
  unfolding node_inv_def table_inv_def heap_inv_def by blast

section \<open>Preservation by the operations\<close>

lemma node_inv_frame:
  assumes "nd_heap n' = nd_heap n" "nd_connections n' = nd_connections n" "nd_next n' = nd_next n"
    "nd_pipeline n' = nd_pipeline n" "nd_opt n' = nd_opt n"
  shows "node_inv n' \<longleftrightarrow> node_inv n"
  using assms by (simp add: node_inv_def heap_inv_def table_inv_def)

lemma node_inv_pipeline:
  assumes "node_inv n" and "chan_cap ch = 512" and "chan_ok ch"
  shows "node_inv (n\<lparr>nd_pipeline := ch\<rparr>)"
  using assms by (simp add: node_inv_def heap_inv_def table_inv_def)

lemma node_inv_deliver:
  assumes "node_inv n" and "chan_send (nd_pipeline n) x = Ret ch"
  shows "node_inv (n\<lparr>nd_pipeline := ch\<rparr>)"
proof (rule node_inv_pipeline [OF assms(1)])
  show "chan_cap ch = 512" using assms by (auto simp: node_inv_def chan_simps)
  show "chan_ok ch" using assms gochan.ok_snd by (auto simp: node_inv_def)
qed

lemma gateway_write_frame [simp]:
  "nd_heap (gateway_write n d) = nd_heap n" "nd_connections (gateway_write n d) = nd_connections n"
  "nd_next (gateway_write n d) = nd_next n" "nd_pipeline (gateway_write n d) = nd_pipeline n"
  "nd_opt (gateway_write n d) = nd_opt n" "nd_gateway_out (gateway_write n d) = nd_gateway_out n @ [d]"
  "nd_peer_out (gateway_write n d) = nd_peer_out n" "nd_requests (gateway_write n d) = nd_requests n"
  "nd_pending (gateway_write n d) = nd_pending n"
  by (simp_all add: gateway_write_def)

lemma gateway_write_inv [simp]: "node_inv (gateway_write n d) \<longleftrightarrow> node_inv n"
  by (rule node_inv_frame) simp_all

lemma forward_inv:
  assumes inv: "node_inv n" and fw: "forward P n v data now = Ret n'"
  shows "node_inv n' \<and> heap_le n n'"
proof (cases "nd_connections n v")
  case None
  then have "nd_heap n' = nd_heap n" "nd_connections n' = nd_connections n" "nd_next n' = nd_next n"
    "nd_pipeline n' = nd_pipeline n" "nd_opt n' = nd_opt n"
    using fw by (auto simp: forward_def split: option.splits if_splits)
  then show ?thesis using inv node_inv_frame [of n' n] by simp
next
  case (Some p)
  obtain c where c: "nd_heap n p = Some c" "conn_ok c" using node_inv_tableD [OF inv Some] by blast
  show ?thesis
  proof (cases "c_state c = StateEstablished")
    case True
    then have n': "n' = n\<lparr>nd_heap := (nd_heap n)(p \<mapsto>
        c\<lparr>c_pipeline := snd (chan_try_send (c_pipeline c) (EncodeRaw data))\<rparr>)\<rparr>"
      using fw Some c by (simp add: forward_def)
    show ?thesis unfolding n'
      by (rule node_inv_update [OF inv c(1) conn_ok_pipeline(2) [OF c(2)]]) (auto simp: conn_le_def)
  next
    case False
    then obtain d where "n' = gateway_write n d" using fw Some c by (auto simp: forward_def go_bind_Ret_iff)
    then show ?thesis using inv by simp
  qed
qed

lemma dev_read_turn_cases:
  assumes "dev_read_turn P decode n packet now = Ret n'"
  shows "n' = n \<or> (\<exists>ch. chan_send (nd_pipeline n) packet = Ret ch \<and> n' = n\<lparr>nd_pipeline := ch\<rparr>)
     \<or> (\<exists>v. forward P n v packet now = Ret n')"
proof (cases "decode packet")
  case None
  then show ?thesis using assms by (simp add: dev_read_turn_def)
next
  case (Some q)
  obtain a b c d where "q = (a, b, c, d)" by (cases q)
  with Some assms show ?thesis
    by (simp add: dev_read_turn_def Let_def go_bind_Ret_iff split: if_splits) blast+
qed

lemma dev_read_turn_inv:
  assumes inv: "node_inv n" and op: "dev_read_turn P decode n packet now = Ret n'"
  shows "node_inv n' \<and> heap_le n n'"
  using dev_read_turn_cases [OF op]
proof (elim disjE exE conjE)
  assume "n' = n"
  then show ?thesis using inv by simp
next
  fix ch assume "chan_send (nd_pipeline n) packet = Ret ch" "n' = n\<lparr>nd_pipeline := ch\<rparr>"
  then show ?thesis using node_inv_deliver [OF inv] by simp
next
  fix v assume "forward P n v packet now = Ret n'"
  then show ?thesis by (rule forward_inv [OF inv])
qed

lemma dev_write_turn_inv:
  assumes "node_inv n" and "dev_write_turn n = Ret n'"
  shows "node_inv n' \<and> heap_le n n'"
proof -
  from assms(2) obtain d ch where rc: "chan_recv (nd_pipeline n) = Ret (d, ch)"
    and n': "n' = n\<lparr>nd_pipeline := ch, nd_dev_out := nd_dev_out n @ [d]\<rparr>"
    by (auto simp: dev_write_turn_def go_simps)
  have "chan_cap ch = 512" using assms(1) rc by (auto simp: node_inv_def chan_simps)
  moreover have "chan_ok ch" using assms(1) rc gochan.ok_rcv by (auto simp: node_inv_def)
  ultimately have "node_inv (n\<lparr>nd_pipeline := ch\<rparr>)" by (rule node_inv_pipeline [OF assms(1)])
  then have "node_inv n'" unfolding n'
    by (subst node_inv_frame [where n = "n\<lparr>nd_pipeline := ch\<rparr>"]) simp_all
  then show ?thesis unfolding n' by simp
qed

lemma onPing_inv:
  assumes inv: "node_inv n" and op: "onPing P rnd n p = Ret n'"
  shows "node_inv n' \<and> heap_le n n'"
proof (cases "nd_connections n (ping_VirtAddress p)")
  case None
  then show ?thesis using inv op by (simp add: onPing_def)
next
  case (Some q)
  obtain c where c: "nd_heap n q = Some c" "conn_ok c" using node_inv_tableD [OF inv Some] by blast
  from op Some c obtain d ch where ch: "chan_send (c_pipeline c) d = Ret ch"
    and n': "n' = n\<lparr>nd_heap := (nd_heap n)(q \<mapsto> c\<lparr>c_pipeline := ch\<rparr>)\<rparr>"
    by (auto simp: onPing_def go_simps)
  show ?thesis unfolding n'
    by (rule node_inv_update [OF inv c(1) conn_ok_pipeline(1) [OF c(2) ch]]) (auto simp: conn_le_def)
qed

lemma onPong_inv:
  assumes inv: "node_inv n" and op: "onPong n p now = Ret n'"
  shows "node_inv n' \<and> heap_le n n'"
proof (cases "nd_connections n (pong_VirtAddress p)")
  case None
  then show ?thesis using inv op by (simp add: onPong_def)
next
  case (Some q)
  obtain c where c: "nd_heap n q = Some c" "conn_ok c" using node_inv_tableD [OF inv Some] by blast
  then have n': "n' = n\<lparr>nd_heap := (nd_heap n)(q \<mapsto> pong_received c now)\<rparr>"
    using op Some by (simp add: onPong_def)
  show ?thesis unfolding n'
    using pong_received_ok [OF c(2), of now]
    by (intro node_inv_update [OF inv c(1), of "pong_received c now"]) (auto simp: conn_ok_life c(2))
qed

definition new_conn_node :: "node \<Rightarrow> CtrlOpenTunnel \<Rightarrow> string \<Rightarrow> time \<Rightarrow> node" where
  "new_conn_node n t remote now =
     n\<lparr>nd_heap := (nd_heap n)(nd_next n \<mapsto>
         new_connection (opt_Address (nd_opt n)) (tunnel_VirtAddress t) remote now),
       nd_connections := (nd_connections n)(tunnel_VirtAddress t \<mapsto> nd_next n),
       nd_next := Suc (nd_next n)\<rparr>"

lemma connect_unfold:
  "connect P dial n t now = (case dial (tunnel_UdpAddress t) of None \<Rightarrow> Ret n
     | Some remote \<Rightarrow> send_ack P (new_conn_node n t remote now) (tunnel_AckId t))"
  by (simp add: connect_def new_conn_node_def split: option.splits)

lemma send_ack_Ret_iff:
  "send_ack P n k = Ret n' \<longleftrightarrow>
     (\<exists>d. Encode P PacketType_OpenTunnelAck (MOpenTunnelAck \<lparr>ack_AckId = k\<rparr>) = Ret d \<and> n' = gateway_write n d)"
  by (auto simp: send_ack_def go_bind_Ret_iff)

lemma heap_fresh: "node_inv n \<Longrightarrow> nd_heap n (nd_next n) = None"
  unfolding node_inv_def heap_inv_def by (metis less_irrefl not_None_eq)

lemma new_conn_node_inv:
  assumes inv: "node_inv n"
  shows "node_inv (new_conn_node n t remote now) \<and> heap_le n (new_conn_node n t remote now)"
proof -
  note fresh = heap_fresh [OF inv]
  have "heap_inv (new_conn_node n t remote now)"
    using inv by (auto simp: node_inv_def heap_inv_def new_conn_node_def less_Suc_eq) (simp add: new_connection_def)
  moreover have "table_inv (new_conn_node n t remote now)"
    using inv fresh unfolding node_inv_def table_inv_def
    by (auto simp: new_conn_node_def new_connection_def) (metis option.distinct(1))
  ultimately show ?thesis
    using inv fresh by (auto simp: node_inv_def new_conn_node_def heap_le_def)
qed

lemma connect_inv:
  assumes "node_inv n" and "connect P dial n t now = Ret n'"
  shows "node_inv n' \<and> heap_le n n'"
  using assms new_conn_node_inv [OF assms(1)]
  by (auto simp: connect_unfold send_ack_Ret_iff heap_le_def split: option.splits)

lemma onOpenTunnel_inv:
  assumes inv: "node_inv n" and op: "onOpenTunnel P dial n t now = Ret n'"
  shows "node_inv n' \<and> heap_le n n'"
proof (cases "nd_connections n (tunnel_VirtAddress t)")
  case None
  then show ?thesis using inv op connect_inv by (simp add: onOpenTunnel_def)
next
  case (Some q)
  obtain c where c: "nd_heap n q = Some c" "conn_ok c" using node_inv_tableD [OF inv Some] by blast
  let ?n = "n\<lparr>nd_heap := (nd_heap n)(q \<mapsto> conn_close c)\<rparr>"
  have closed: "node_inv ?n \<and> heap_le n ?n"
    using conn_close_ok [OF c(2)]
    by (intro node_inv_update [OF inv c(1), of "conn_close c"]) (auto simp: conn_ok_life c(2))
  show ?thesis
  proof (cases "c_remote c = tunnel_UdpAddress t")
    case True
    then show ?thesis using op Some c inv by (auto simp: onOpenTunnel_def send_ack_Ret_iff)
  next
    case False
    then have "connect P dial ?n t now = Ret n'" using op Some c by (simp add: onOpenTunnel_def)
    with closed connect_inv [of ?n] heap_le_trans [of n ?n n'] show ?thesis by blast
  qed
qed

lemma handleClosed_inv:
  assumes "node_inv n"
  shows "node_inv (handleClosed n p) \<and> heap_le n (handleClosed n p)"
  using assms
  by (auto simp: handleClosed_def node_inv_def heap_inv_def table_inv_def split: option.splits)

lemma closed_inv:
  assumes inv: "node_inv n" and c: "nd_heap n p = Some c"
  shows "node_inv (handleClosed (set_conn n p (c\<lparr>c_closing := False\<rparr>) []) p) \<and>
     heap_le n (handleClosed (set_conn n p (c\<lparr>c_closing := False\<rparr>) []) p)" (is "node_inv ?n \<and> _")
proof -
  have ok: "conn_ok (c\<lparr>c_closing := False\<rparr>)" "conn_le c (c\<lparr>c_closing := False\<rparr>)"
    using node_inv_heapD [OF inv c] by (auto simp: conn_ok_def conn_le_def)
  have n: "?n = n\<lparr>nd_heap := (nd_heap n)(p \<mapsto> c\<lparr>c_closing := False\<rparr>),
     nd_connections := (nd_connections n)(peerVirtAddr c := None)\<rparr>"
    by (simp add: handleClosed_def set_conn_def)
  have "heap_inv ?n" unfolding n using inv c ok(1) by (auto simp: node_inv_def heap_inv_def)
  moreover have "table_inv ?n"
    unfolding n table_inv_def
  proof (intro allI impI, goal_cases)
    case (1 v q)
    then have v: "nd_connections n v = Some q" "v \<noteq> peerVirtAddr c" by (auto split: if_splits)
    from node_inv_tableD [OF inv v(1)] c v(2) have "q \<noteq> p" by auto
    with node_inv_tableD [OF inv v(1)] show ?case by auto
  qed
  moreover have "heap_le n ?n" unfolding n using c ok(2) by (auto simp: heap_le_def)
  ultimately show ?thesis using inv by (simp add: node_inv_def n)
qed

lemma packet_switch_cases:
  assumes "packet_switch P dial rnd n ty m now = Ret n'"
  shows "n' = n \<or> (\<exists>p. onPing P rnd n p = Ret n') \<or> (\<exists>p. onPong n p now = Ret n')
     \<or> (\<exists>t. onOpenTunnel P dial n t now = Ret n')"
  using assms by (cases m) (auto simp: packet_switch_def split: if_splits)

lemma packet_switch_inv:
  assumes "node_inv n" and "packet_switch P dial rnd n ty m now = Ret n'"
  shows "node_inv n' \<and> heap_le n n'"
  using packet_switch_cases [OF assms(2)] assms(1) onPing_inv [OF assms(1)] onPong_inv [OF assms(1)]
    onOpenTunnel_inv [OF assms(1)]
  by (elim disjE exE) simp_all

lemma handlePacket_cases:
  assumes "handlePacket P dial rnd n data now = Ret n'"
  shows "n' = n \<or> (\<exists>ch. chan_send (nd_pipeline n) (tl data) = Ret ch \<and> n' = n\<lparr>nd_pipeline := ch\<rparr>)
     \<or> (\<exists>m. packet_switch P dial rnd n (packetType_of data) m now = Ret n')"
  using assms 
    by (simp add: handlePacket_def Let_def go_bind_Ret_iff split: if_splits option.splits sum.splits) blast+

lemma handlePacket_inv:
  assumes inv: "node_inv n" and op: "handlePacket P dial rnd n data now = Ret n'"
  shows "node_inv n' \<and> heap_le n n'"
  using handlePacket_cases [OF op]
proof (elim disjE exE conjE)
  assume "n' = n"
  then show ?thesis using inv by simp
next
  fix ch assume "chan_send (nd_pipeline n) (tl data) = Ret ch" "n' = n\<lparr>nd_pipeline := ch\<rparr>"
  then show ?thesis using node_inv_deliver [OF inv] by simp
next
  fix m assume "packet_switch P dial rnd n (packetType_of data) m now = Ret n'"
  then show ?thesis by (rule packet_switch_inv [OF inv])
qed

section \<open>Invariance along runs\<close>

lemma node_inv_step:
  assumes "node_step P dial decode n l n'" and inv: "node_inv n"
  shows "node_inv n' \<and> heap_le n n'"
  using assms(1)
proof cases
  case (dev_read packet now)
  then show ?thesis using dev_read_turn_inv [OF inv] by blast
next
  case dev_write
  then show ?thesis using dev_write_turn_inv [OF inv] by blast
next
  case (packet rnd d now)
  then show ?thesis using handlePacket_inv [OF inv] by blast
next
  case (req_done v)
  then show ?thesis using inv node_inv_frame [of n' n] by (simp add: request_done_def)
next
  case beat
  then show ?thesis using inv by (auto simp: heartbeat_turn_def go_bind_Ret_iff)
next
  case (start p c now)
  have "conn_ok c" using start node_inv_heapD [OF inv] by blast
  then show ?thesis using start loop_start_ok set_conn_inv [OF inv] by (simp add: conn_ok_life)
next
  case (connecting p c t now rnd c' ds)
  then have "conn_ok c' \<and> conn_le c c'" using node_inv_heapD [OF inv] loop_connecting_ok by blast
  then show ?thesis using connecting set_conn_inv [OF inv] loop_branch_life(1) by metis
next
  case (keepalive p c rnd now c' ds)
  then have "conn_ok c' \<and> conn_le c c'" using node_inv_heapD [OF inv] loop_keepalive_ok by blast
  then show ?thesis using keepalive set_conn_inv [OF inv] loop_branch_life(2) by metis
next
  case (pipeline p c c' ds)
  then have "conn_ok c' \<and> conn_le c c'" using node_inv_heapD [OF inv] loop_pipeline_ok by blast
  then show ?thesis using pipeline set_conn_inv [OF inv] loop_branch_life(3) by metis
next
  case (die p c c')
  then have "conn_ok c' \<and> conn_le c c' \<and> c_closing c'" using node_inv_heapD [OF inv] loop_die_ok by blast
  then show ?thesis using die set_conn_inv [OF inv] by metis
next
  case (closed p c)
  then show ?thesis using closed_inv [OF inv] by blast
qed

lemma node_inv_run:
  "node_run P dial decode n ls n' \<Longrightarrow> node_inv n \<Longrightarrow> node_inv n' \<and> heap_le n n'"
proof (induction rule: node_run.induct)
  case (run_nil n)
  then show ?case by simp
next
  case (run_cons n l n' ls n'')
  then show ?case using node_inv_step heap_le_trans by blast
qed

lemma node_inv_New [simp]: "node_inv (New opt)"
  by (simp add: New_def node_inv_def heap_inv_def table_inv_def)

text \<open>The node after a successful set-up, where its goroutines start.\<close>

lemma Serve_setup_up:
  assumes "Serve_setup env (New opt) = (None, n0)"
  shows "node_inv n0" and "nd_opt n0 = opt"
proof -
  have "n0 = (New opt)\<lparr>nd_mask := IP_Mask (ParseIP (opt_Address opt)) [255, 255, 0, 0], nd_gateway := True\<rparr>"
    using assms by (auto simp: Serve_setup_def New_def Let_def split: sum.splits option.splits)
  then show "node_inv n0" "nd_opt n0 = opt" by (simp_all add: New_def node_inv_def heap_inv_def table_inv_def)
qed

text \<open>What no handler of a datagram touches.\<close>

definition quiet :: "node \<Rightarrow> node \<Rightarrow> bool" where
  "quiet n n' \<longleftrightarrow> nd_opt n' = nd_opt n \<and> nd_mask n' = nd_mask n \<and> nd_pending n' = nd_pending n \<and>
     nd_requests n' = nd_requests n \<and> nd_dev_out n' = nd_dev_out n \<and> nd_peer_out n' = nd_peer_out n"

lemma quiet_refl [simp]: "quiet n n"
  by (simp add: quiet_def)

lemma quiet_onOpenTunnel:
  assumes "onOpenTunnel P dial n t now = Ret n'"
  shows "quiet n n'"
proof -
  have con: "connect P dial m t now = Ret n' \<Longrightarrow> quiet m n'" for m
    by (auto simp: connect_unfold send_ack_Ret_iff new_conn_node_def quiet_def gateway_write_def split: option.splits)
  show ?thesis
  proof (cases "nd_connections n (tunnel_VirtAddress t)")
    case None
    then show ?thesis using assms con by (simp add: onOpenTunnel_def)
  next
    case (Some q)
    then obtain c where c: "nd_heap n q = Some c" using assms by (auto simp: onOpenTunnel_def split: option.splits)
    show ?thesis
    proof (cases "c_remote c = tunnel_UdpAddress t")
      case True
      then show ?thesis using assms Some c
        by (auto simp: onOpenTunnel_def send_ack_Ret_iff quiet_def gateway_write_def)
    next
      case False
      then have "connect P dial (n\<lparr>nd_heap := (nd_heap n)(q \<mapsto> conn_close c)\<rparr>) t now = Ret n'"
        using assms Some c by (simp add: onOpenTunnel_def)
      from con [OF this] show ?thesis by (simp add: quiet_def)
    qed
  qed
qed

lemma quiet_handlePacket:
  assumes "handlePacket P dial rnd n data now = Ret n'"
  shows "quiet n n'"
proof -
  have op: "onPing P rnd n p = Ret n' \<Longrightarrow> quiet n n'" "onPong n q now = Ret n' \<Longrightarrow> quiet n n'" for p q
    by (auto simp: onPing_def onPong_def go_bind_Ret_iff quiet_def split: option.splits)
  show ?thesis
    using handlePacket_cases [OF assms]
  proof (elim disjE exE conjE)
    fix m assume "packet_switch P dial rnd n (packetType_of data) m now = Ret n'"
    from packet_switch_cases [OF this] show ?thesis using op quiet_onOpenTunnel by auto
  qed (simp_all add: quiet_def)
qed

lemma node_step_opt:
  assumes "node_step P dial decode n l n'"
  shows "nd_opt n' = nd_opt n"
  using assms
proof cases
  case (dev_read packet now)
  have "forward P n v packet now = Ret n' \<Longrightarrow> nd_opt n' = nd_opt n" for v
    by (auto simp: forward_def go_bind_Ret_iff split: option.splits if_splits)
  then show ?thesis using dev_read_turn_cases [OF dev_read(2)] by auto
next
  case (packet rnd d now)
  then show ?thesis using quiet_handlePacket by (auto simp: quiet_def)
next
  case dev_write
  then show ?thesis by (auto simp: dev_write_turn_def go_bind_Ret_iff)
next
  case beat
  then show ?thesis by (auto simp: heartbeat_turn_def go_bind_Ret_iff)
qed (simp_all add: request_done_def set_conn_def handleClosed_def)

lemma node_run_opt: "node_run P dial decode n ls n' \<Longrightarrow> nd_opt n' = nd_opt n"
  by (induction rule: node_run.induct) (auto dest: node_step_opt)

section \<open>The node as a packet handler\<close>

lemma byte_lt_6_cases:
  assumes "uint (b :: byte) < 6"
  shows "b = 0 \<or> b = 1 \<or> b = 2 \<or> b = 3 \<or> b = 4 \<or> b = 5"
proof -
  have "uint b = 0 \<or> uint b = 1 \<or> uint b = 2 \<or> uint b = 3 \<or> uint b = 4 \<or> uint b = 5"
    using assms uint_ge_0 [of b] by linarith
  then show ?thesis by (auto simp: word_uint_eq_iff)
qed

text \<open>The handler by the value of the type byte, for a library that keeps dynamic types.\<close>

lemma handlePacket_Cons:
  assumes typed: "proto_typed P"
  shows "handlePacket P dial rnd n (b # d) now =
    (if b = 6 then go_bind (chan_send (nd_pipeline n) d) (\<lambda>ch. Ret (n\<lparr>nd_pipeline := ch\<rparr>))
     else if b = 2 then
       (case proto_Unmarshal P (MOpenTunnel \<lparr>tunnel_AckId = 0, tunnel_VirtAddress = '''', tunnel_UdpAddress = ''''\<rparr>) d of
          Inr (MOpenTunnel t) \<Rightarrow> onOpenTunnel P dial n t now | _ \<Rightarrow> Ret n)
     else if b = 4 then
       (case proto_Unmarshal P (MPing \<lparr>ping_VirtAddress = '''', ping_Nonce = ''''\<rparr>) d of
          Inr (MPing p) \<Rightarrow> onPing P rnd n p | _ \<Rightarrow> Ret n)
     else if b = 5 then
       (case proto_Unmarshal P (MPong \<lparr>pong_VirtAddress = '''', pong_Nonce = ''''\<rparr>) d of
          Inr (MPong p) \<Rightarrow> onPong n p now | _ \<Rightarrow> Ret n)
     else Ret n)"
proof (cases "uint b < 6")
  case True
  have dyn: "proto_Unmarshal P (MOpenTunnel t) d = Inr m \<Longrightarrow> \<exists>y. m = MOpenTunnel y"
    "proto_Unmarshal P (MPing p) d = Inr m \<Longrightarrow> \<exists>y. m = MPing y"
    "proto_Unmarshal P (MPong q) d = Inr m \<Longrightarrow> \<exists>y. m = MPong y" for t p q m
    using proto_typedD [OF typed] by fastforce+
  note defs = handlePacket_def packetType_of_def node_protos_def PacketType_defs Reset_defs packet_switch_def
  from byte_lt_6_cases [OF True] show ?thesis
  proof (elim disjE)
    assume "b = 2"
    then show ?thesis using dyn(1) by (simp add: defs split: sum.split) fastforce
  next
    assume "b = 4"
    then show ?thesis using dyn(2) by (simp add: defs split: sum.split) fastforce
  next
    assume "b = 5"
    then show ?thesis using dyn(3) by (simp add: defs split: sum.split) fastforce
  qed (simp_all add: defs)
next
  case False
  then have ne: "b \<noteq> 0" "b \<noteq> 1" "b \<noteq> 2" "b \<noteq> 3" "b \<noteq> 4" "b \<noteq> 5" by auto
  show ?thesis
  proof (cases "b = 6")
    case True
    then show ?thesis by (simp add: handlePacket_def packetType_of_def PacketType_defs)
  next
    case b6: False
    have "packetType_of (b # d) \<noteq> PacketType_Data"
    proof
      assume "packetType_of (b # d) = PacketType_Data"
      then have "uint b = 6"
        using sint_byte_ucast [of b] by (simp add: packetType_of_def PacketType_defs)
      then show False using b6 by (simp add: word_uint_eq_iff)
    qed
    with False ne b6 show ?thesis
      by (simp add: handlePacket_def packetType_of_def sint_byte_ucast node_protos_def)
  qed
qed

text \<open>
  The strings a node puts into its messages are its own address, nonces and dotted addresses, so
  with an address that is valid UTF-8 no message fails to marshal.
\<close>

lemma node_no_panic:
  assumes "node_inv n" "marshals P" and addr: "utf8_string (opt_Address (nd_opt n))"
  shows "onPing P rnd n p \<noteq> Panic e" "onPong n q now \<noteq> Panic e" "connect P dial m t now \<noteq> Panic e"
    "onOpenTunnel P dial n t now \<noteq> Panic e" "utf8_string v \<Longrightarrow> length data < 2 ^ 63 \<Longrightarrow> forward P n v data now \<noteq> Panic e"
    "nd_heap n k = Some c \<Longrightarrow> loop_connecting P rnd c now \<noteq> Panic e"
    "nd_heap n k = Some c \<Longrightarrow> loop_keepalive P rnd c now \<noteq> Panic e"
proof -
  note tab = node_inv_tableD [OF assms(1)]
  show con: "connect P dial m t now \<noteq> Panic e" for m
    using assms(2) by (auto simp: connect_def send_ack_def go_simps split: option.splits)
  show "onPing P rnd n p \<noteq> Panic e"
    using tab assms(2) addr by (fastforce simp: onPing_def go_simps split: option.splits)
  show "onPong n q now \<noteq> Panic e"
    using tab by (fastforce simp: onPong_def split: option.splits)
  show "onOpenTunnel P dial n t now \<noteq> Panic e"
  proof (cases "nd_connections n (tunnel_VirtAddress t)")
    case None
    then show ?thesis by (simp add: onOpenTunnel_def con)
  next
    case (Some q)
    with tab [OF Some] assms(2) show ?thesis
      by (auto simp: onOpenTunnel_def send_ack_def go_simps con split: if_splits)
  qed
  show "forward P n v data now \<noteq> Panic e" if v: "utf8_string v" "length data < 2 ^ 63" for v
  proof (cases "nd_connections n v")
    case None
    then show ?thesis by (simp add: forward_def)
  next
    case (Some q)
    with tab [OF Some] assms(2) v show ?thesis by (auto simp: forward_def go_simps split: if_splits)
  qed
  have self: "utf8_string (selfVirtAddr c)" if "nd_heap n q = Some c" for q c
    using that assms(1) addr by (simp add: node_inv_def heap_inv_def)
  show "loop_connecting P rnd c now \<noteq> Panic e" "loop_keepalive P rnd c now \<noteq> Panic e"
    if "nd_heap n q = Some c" for q c
    using self [OF that] assms(2) by (auto simp: loop_connecting_def loop_keepalive_def ping_def go_simps)
qed

lemma handlePacket_not_Panic:
  assumes "node_inv n" "marshals P" "proto_typed P" "utf8_string (opt_Address (nd_opt n))"
  shows "handlePacket P dial rnd n data now \<noteq> Panic e"
proof (cases data)
  case Nil
  then show ?thesis by (simp add: handlePacket_def)
next
  case (Cons b d)
  show ?thesis unfolding Cons handlePacket_Cons [OF assms(3)]
    using node_no_panic [OF assms(1,2,4)]
    by (simp add: go_simps split: sum.splits proto_message.splits)
qed

text \<open>A connection is mapped when some virtual address leads to it.\<close>

definition mapped :: "node \<Rightarrow> nat \<Rightarrow> bool" where
  "mapped n p \<longleftrightarrow> (\<exists>v. nd_connections n v = Some p)"

lemma handleClosed_mapped:
  "node_inv n \<Longrightarrow> \<not> mapped (handleClosed n p) p"
  "mapped (handleClosed n p) q \<Longrightarrow> mapped n q"
proof -
  assume inv: "node_inv n"
  show "\<not> mapped (handleClosed n p) p"
  proof
    assume "mapped (handleClosed n p) p"
    then obtain v where v: "nd_connections (handleClosed n p) v = Some p" by (auto simp: mapped_def)
    then have "nd_connections n v = Some p"
      by (auto simp: handleClosed_def split: option.splits if_splits)
    with node_inv_tableD [OF inv this] v show False
      by (auto simp: handleClosed_def split: if_splits)
  qed
next
  assume "mapped (handleClosed n p) q"
  then show "mapped n q"
    by (auto simp: mapped_def handleClosed_def split: option.splits if_splits)
qed

interpretation nh: packet_handler
  "\<lambda>n remote d. handlePacket P dial rnd n d now" handleClosed
  "\<lambda>n. node_inv n \<and> marshals P \<and> proto_typed P \<and> utf8_string (opt_Address (nd_opt n))" mapped
  for P dial rnd now
proof (unfold_locales, goal_cases)
  case (1 h remote d h')
  then show ?case using handlePacket_inv quiet_handlePacket by (fastforce simp: quiet_def)
next
  case (2 h remote d e)
  then show ?case using handlePacket_not_Panic by blast
next
  case (3 h p)
  then show ?case using handleClosed_mapped(1) by blast
next
  case (4 h p q)
  then show ?case by (rule handleClosed_mapped(2))
qed

end
