(* ===== verification/Node_Properties.thy ===== *)
theory Node_Properties
  imports Node_System
begin

text \<open>
  What the node guarantees: how datagrams built by the codec reach its handlers, when a
  connection becomes established, how packets of the device are routed, how tunnels are
  installed and replaced, and the invariants of every run.
\<close>

section \<open>How connections become established\<close>

text \<open>The steps that leave the state of every connection as it is.\<close>

definition states_kept :: "node \<Rightarrow> node \<Rightarrow> bool" where
  "states_kept n n' \<longleftrightarrow> (\<forall>p c. nd_heap n p = Some c \<longrightarrow> (\<exists>c'. nd_heap n' p = Some c' \<and> c_state c' = c_state c))"

lemma states_kept_same: "nd_heap n' = nd_heap n \<Longrightarrow> states_kept n n'"
  by (auto simp: states_kept_def)

lemma states_kept_trans: "states_kept a b \<Longrightarrow> states_kept b c \<Longrightarrow> states_kept a c"
  unfolding states_kept_def by metis

lemma states_kept_set_conn:
  "nd_heap n p = Some c \<Longrightarrow> c_state c' = c_state c \<Longrightarrow> states_kept n (set_conn n p c' ds)"
  by (auto simp: states_kept_def set_conn_def)

lemma states_kept_forward:
  assumes "forward P n v data now = Ret n'"
  shows "states_kept n n'"
proof (cases "nd_connections n v")
  case None
  then show ?thesis using assms
    by (intro states_kept_same) (auto simp: forward_def split: option.splits if_splits)
next
  case (Some p)
  then obtain c where c: "nd_heap n p = Some c" using assms by (auto simp: forward_def split: option.splits)
  show ?thesis
  proof (cases "c_state c = StateEstablished")
    case True
    then show ?thesis using assms Some c by (auto simp: forward_def states_kept_def)
  next
    case False
    then show ?thesis using assms Some c
      by (intro states_kept_same) (auto simp: forward_def go_bind_Ret_iff)
  qed
qed

lemma states_kept_onPing:
  assumes "onPing P rnd n p = Ret n'"
  shows "states_kept n n'"
proof (cases "nd_connections n (ping_VirtAddress p)")
  case None
  then show ?thesis using assms by (intro states_kept_same) (auto simp: onPing_def)
next
  case (Some q)
  with assms obtain c ch where "nd_heap n q = Some c" "n' = n\<lparr>nd_heap := (nd_heap n)(q \<mapsto> c\<lparr>c_pipeline := ch\<rparr>)\<rparr>"
    by (auto simp: onPing_def go_bind_Ret_iff split: option.splits)
  then show ?thesis by (auto simp: states_kept_def)
qed

lemma states_kept_connect:
  assumes "node_inv n" "connect P dial n t now = Ret n'"
  shows "states_kept n n'"
proof (cases "dial (tunnel_UdpAddress t)")
  case None
  then show ?thesis using assms by (simp add: connect_def states_kept_same)
next
  case (Some remote)
  then have "nd_heap n' = nd_heap (new_conn_node n t remote now)"
    using assms by (auto simp: connect_unfold send_ack_Ret_iff)
  then show ?thesis using heap_fresh [OF assms(1)] by (auto simp: states_kept_def new_conn_node_def)
qed

lemma states_kept_onOpenTunnel:
  assumes "node_inv n" "onOpenTunnel P dial n t now = Ret n'"
  shows "states_kept n n'"
proof (cases "nd_connections n (tunnel_VirtAddress t)")
  case None
  then show ?thesis using assms states_kept_connect by (simp add: onOpenTunnel_def)
next
  case (Some q)
  obtain c where c: "nd_heap n q = Some c" "conn_ok c" using node_inv_tableD [OF assms(1) Some] by blast
  let ?n = "n\<lparr>nd_heap := (nd_heap n)(q \<mapsto> conn_close c)\<rparr>"
  have kept: "states_kept n ?n" using c by (auto simp: states_kept_def conn_close_def)
  have inv: "node_inv ?n"
    using conn_close_ok [OF c(2)] node_inv_update [OF assms(1) c(1), of "conn_close c" ?n]
    by (simp add: conn_ok_life c(2))
  show ?thesis
  proof (cases "c_remote c = tunnel_UdpAddress t")
    case True
    then show ?thesis using assms(2) Some c
      by (intro states_kept_same) (auto simp: onOpenTunnel_def send_ack_Ret_iff)
  next
    case False
    then have "connect P dial ?n t now = Ret n'" using assms(2) Some c by (simp add: onOpenTunnel_def)
    from states_kept_trans [OF kept states_kept_connect [OF inv this]] show ?thesis .
  qed
qed

lemma pong_changes:
  assumes "onPong n pong now = Ret n'" "nd_heap n p = Some c" "nd_heap n' p = Some c'" "c_state c' \<noteq> c_state c" "node_inv n"
  shows "pong_VirtAddress pong = peerVirtAddr c \<and> nd_connections n (peerVirtAddr c) = Some p \<and>
     c_state c' = StateEstablished \<and> c_keepalive c' = now"
proof (cases "nd_connections n (pong_VirtAddress pong)")
  case None
  then show ?thesis using assms by (simp add: onPong_def)
next
  case (Some q)
  obtain d where d: "nd_heap n q = Some d" "peerVirtAddr d = pong_VirtAddress pong"
    using node_inv_tableD [OF assms(5) Some] by blast
  then have n': "n' = n\<lparr>nd_heap := (nd_heap n)(q \<mapsto> pong_received d now)\<rparr>"
    using assms(1) Some by (simp add: onPong_def)
  have "p = q" using assms(2-4) n' by (auto split: if_splits)
  with assms(2,3) d n' Some show ?thesis by (auto simp: pong_received_def Let_def)
qed

lemma handlePacket_state:
  assumes typed: "proto_typed P" and inv: "node_inv n" and hp: "handlePacket P dial rnd n data now = Ret n'"
    and p: "nd_heap n p = Some c" "nd_heap n' p = Some c'" "c_state c' \<noteq> c_state c"
  shows "\<exists>d pong. data = 5 # d \<and> proto_Unmarshal P (MPong \<lparr>pong_VirtAddress = '''', pong_Nonce = ''''\<rparr>) d = Inr (MPong pong) \<and>
     pong_VirtAddress pong = peerVirtAddr c \<and> nd_connections n (peerVirtAddr c) = Some p \<and>
     c_state c' = StateEstablished \<and> c_keepalive c' = now"
proof (cases data)
  case Nil
  then show ?thesis using hp p by (simp add: handlePacket_def)
next
  case (Cons b d)
  have no: "\<not> states_kept n n'" using p unfolding states_kept_def by force
  consider "b = 2" | "b = 4" | "b = 5" | "b \<noteq> 2 \<and> b \<noteq> 4 \<and> b \<noteq> 5" by blast
  then show ?thesis
  proof cases
    case 1
    with hp Cons no show ?thesis
      using states_kept_onOpenTunnel [OF inv] states_kept_same [of n n]
      by (auto simp: handlePacket_Cons [OF typed] split: sum.splits proto_message.splits)
  next
    case 2
    with hp Cons no show ?thesis
      using states_kept_onPing states_kept_same [of n n]
      by (auto simp: handlePacket_Cons [OF typed] split: sum.splits proto_message.splits)
  next
    case 3
    with hp Cons no obtain pong where
      "proto_Unmarshal P (MPong \<lparr>pong_VirtAddress = '''', pong_Nonce = ''''\<rparr>) d = Inr (MPong pong)" "onPong n pong now = Ret n'"
      using states_kept_same [of n n]
      by (auto simp: handlePacket_Cons [OF typed] split: sum.splits proto_message.splits)
    with 3 Cons pong_changes [OF _ p inv] show ?thesis by blast
  next
    case 4
    with hp Cons no show ?thesis
      using states_kept_same [of n n] states_kept_same [of "n\<lparr>nd_pipeline := ch\<rparr>" n for ch]
      by (auto simp: handlePacket_Cons [OF typed] go_bind_Ret_iff split: if_splits)
  qed
qed

lemma step_state:
  assumes typed: "proto_typed P" and inv: "node_inv n" and step: "node_step P dial decode n l n'"
    and p: "nd_heap n p = Some c" "nd_heap n' p = Some c'" "c_state c' \<noteq> c_state c"
  shows "\<exists>data now d pong. l = NPacket data now \<and> take MaxBufferSize data = 5 # d \<and>
     proto_Unmarshal P (MPong \<lparr>pong_VirtAddress = '''', pong_Nonce = ''''\<rparr>) d = Inr (MPong pong) \<and>
     pong_VirtAddress pong = peerVirtAddr c \<and> nd_connections n (peerVirtAddr c) = Some p \<and>
     c_state c' = StateEstablished \<and> c_keepalive c' = now"
proof -
  have no: "\<not> states_kept n n'" using p unfolding states_kept_def by force
  have loop_state: "c_state (loop_start x now) = c_state x"
    "loop_connecting P rnd x now = Ret (x', ds) \<Longrightarrow> c_state x' = c_state x"
    "loop_keepalive P rnd x now = Ret (x', ds) \<Longrightarrow> c_state x' = c_state x"
    "loop_pipeline x = Ret (x', ds) \<Longrightarrow> c_state x' = c_state x"
    "loop_die x = Ret x' \<Longrightarrow> c_state x' = c_state x" for x x' ds now rnd
    by (auto simp: loop_start_def loop_connecting_def loop_keepalive_def loop_pipeline_def loop_die_def
        conn_close_def go_simps split: if_splits)
  from step show ?thesis
  proof cases
    case (dev_read packet now)
    have "states_kept n n'" using dev_read_turn_cases [OF dev_read(2)] states_kept_forward
      by (elim disjE exE conjE) (auto intro: states_kept_same)
    with no show ?thesis ..
  next
    case dev_write
    then have "states_kept n n'" by (intro states_kept_same) (auto simp: dev_write_turn_def go_bind_Ret_iff)
    with no show ?thesis ..
  next
    case (packet rnd d now)
    from handlePacket_state [OF typed inv packet(2) p] packet(1) show ?thesis by blast
  next
    case (req_done v)
    then have "states_kept n n'" by (intro states_kept_same) (simp add: request_done_def)
    with no show ?thesis ..
  next
    case beat
    then have "states_kept n n'" by (intro states_kept_same) (auto simp: heartbeat_turn_def go_bind_Ret_iff)
    with no show ?thesis ..
  next
    case (closed q d)
    then have "states_kept n n'"
      by (auto simp: states_kept_def handleClosed_def set_conn_def)
    with no show ?thesis ..
  next
    case (start q d now)
    with no states_kept_set_conn [OF start(3) loop_state(1)] show ?thesis by simp
  next
    case (connecting q d t now rnd d' ds)
    with no states_kept_set_conn [OF connecting(3) loop_state(2) [OF connecting(7)]] show ?thesis by simp
  next
    case (keepalive q d rnd now d' ds)
    with no states_kept_set_conn [OF keepalive(3) loop_state(3) [OF keepalive(5)]] show ?thesis by simp
  next
    case (pipeline q d d' ds)
    with no states_kept_set_conn [OF pipeline(3) loop_state(4) [OF pipeline(5)]] show ?thesis by simp
  next
    case (die q d d')
    with no states_kept_set_conn [OF die(3) loop_state(5) [OF die(5)]] show ?thesis by simp
  qed
qed

section \<open>Datagrams built by the codec\<close>

lemma handlePacket_Encode:
  assumes "proto_roundtrip P"
  shows "Encode P PacketType_OpenTunnel (MOpenTunnel t) = Ret d \<Longrightarrow>
      handlePacket P dial rnd n d now = onOpenTunnel P dial n t now"
    and "Encode P PacketType_Ping (MPing p) = Ret d \<Longrightarrow> handlePacket P dial rnd n d now = onPing P rnd n p"
    and "Encode P PacketType_Pong (MPong q) = Ret d \<Longrightarrow> handlePacket P dial rnd n d now = onPong n q now"
proof -
  note un = proto_roundtripD [OF assms]
  note defs = handlePacket_def packetType_of_def node_protos_def PacketType_defs Reset_defs packet_switch_def
  show "Encode P PacketType_OpenTunnel (MOpenTunnel t) = Ret d \<Longrightarrow>
      handlePacket P dial rnd n d now = onOpenTunnel P dial n t now"
    using un [of "MOpenTunnel t"] by (auto simp: Encode_Ret_iff defs)
  show "Encode P PacketType_Ping (MPing p) = Ret d \<Longrightarrow> handlePacket P dial rnd n d now = onPing P rnd n p"
    using un [of "MPing p"] by (auto simp: Encode_Ret_iff defs)
  show "Encode P PacketType_Pong (MPong q) = Ret d \<Longrightarrow> handlePacket P dial rnd n d now = onPong n q now"
    using un [of "MPong q"] by (auto simp: Encode_Ret_iff defs)
qed

lemma handlePacket_EncodeRaw:
  "handlePacket P dial rnd n (EncodeRaw data) now =
     go_bind (chan_send (nd_pipeline n) data) (\<lambda>ch. Ret (n\<lparr>nd_pipeline := ch\<rparr>))"
  by (simp add: handlePacket_def packetType_of_def EncodeRaw_def PacketType_defs)

lemma node_run_one: "node_step P dial decode n l n' \<Longrightarrow> node_run P dial decode n [l] n'"
  by (auto intro: node_run.intros)

lemma node_run_append:
  "node_run P dial decode n ls n' \<Longrightarrow> node_run P dial decode n' ms n'' \<Longrightarrow> node_run P dial decode n (ls @ ms) n''"
  by (induction rule: node_run.induct) (auto intro: node_run.intros)

section \<open>A sample node\<close>

definition sample_opt :: Options where
  "sample_opt = \<lparr>opt_Gateway = ''gw:9000'', opt_Key = ''key'', opt_Address = ''10.0.0.1'', opt_TLS = False\<rparr>"

definition sample_env :: serve_env where
  "sample_env = \<lparr>sv_port = Inr 5000, sv_dial = None, sv_tun = None\<rparr>"

definition sample_start :: node where
  "sample_start = (New sample_opt)\<lparr>nd_mask := [10, 0, 0, 0], nd_gateway := True\<rparr>"

lemma sample_start_up: "Serve_setup sample_env (New sample_opt) = (None, sample_start)"
proof -
  have "dec_nat 10 = ''10''" "dec_nat 0 = ''0''" "dec_nat (Suc 0) = ''1''" by code_simp+
  then have "''10.0.0.1'' = dotted [10, 0, 0, 1]" by (simp add: dotted_def)
  then have "IP_Mask (ParseIP ''10.0.0.1'') [255, 255, 0, 0] = [10, 0, 0, 0]"
    by (simp add: ParseIP_dotted IP_Mask_mapped IP_Mask_16)
  then show ?thesis by (simp add: Serve_setup_def sample_env_def sample_start_def New_def sample_opt_def)
qed

definition sample_tunnel :: "string \<Rightarrow> CtrlOpenTunnel" where
  "sample_tunnel udp = \<lparr>tunnel_AckId = 7, tunnel_VirtAddress = ''10.0.0.2'', tunnel_UdpAddress = udp\<rparr>"

definition sample_datagram :: "string \<Rightarrow> bytes" where
  "sample_datagram udp = 2 # sample_put (MOpenTunnel (sample_tunnel udp))"

definition sample_ack :: bytes where
  "sample_ack = 3 # sample_put (MOpenTunnelAck \<lparr>ack_AckId = 7\<rparr>)"

text \<open>The sample node after a notification that peer \<open>10.0.0.2\<close> is at \<open>udp\<close>.\<close>

definition sample_node :: "string \<Rightarrow> node" where
  "sample_node udp = gateway_write (new_conn_node sample_start (sample_tunnel udp) udp 1) sample_ack"

lemma sample_Encode:
  "Encode sample_lib PacketType_OpenTunnel (MOpenTunnel (sample_tunnel udp)) = Ret (sample_datagram udp)"
  "Encode sample_lib PacketType_OpenTunnelAck (MOpenTunnelAck \<lparr>ack_AckId = 7\<rparr>) = Ret sample_ack"
  by (simp_all add: Encode_def sample_lib_def PacketType_defs sample_datagram_def sample_ack_def)

lemma sample_node_run: "node_run sample_lib Some decode sample_start [NPacket (sample_datagram ''2.2.2.2:20'') 1]
     (sample_node ''2.2.2.2:20'')"
proof -
  have d7: "dec_nat 7 = ''7''" by code_simp
  have len: "take MaxBufferSize (sample_datagram ''2.2.2.2:20'') = sample_datagram ''2.2.2.2:20''"
    by (simp add: sample_datagram_def MaxBufferSize_def sample_tunnel_def put_int_def d7)
  have "handlePacket sample_lib Some rnd sample_start (sample_datagram ''2.2.2.2:20'') 1 =
      Ret (sample_node ''2.2.2.2:20'')" for rnd
    using sample_Encode(2)
    by (simp add: handlePacket_Encode(1) [OF sample_lib_roundtrip sample_Encode(1)] onOpenTunnel_def connect_unfold
        New_def sample_start_def send_ack_def sample_node_def sample_tunnel_def)
  then show ?thesis by (intro node_run_one node_step.packet) (simp add: len)
qed

section \<open>Properties\<close>

text \<open>
  C10: the connection table of a running node. In every state of every interleaving of the node's
  goroutines after the set-up, each entry of the table leads to a connection object for exactly that
  virtual address, which belongs to this node, is in one of the two states, and whose socket is
  still open or whose loop is just about to remove the entry. The connection's pipeline and the
  node's pipeline stay within their capacities of 128 and 512.
\<close>

theorem node_table_invariant:
  assumes "Serve_setup env (New opt) = (None, n0)" and "node_run P dial decode n0 ls n" and "nd_connections n v = Some p"
  shows "(\<exists>c. nd_heap n p = Some c \<and> peerVirtAddr c = v \<and> selfVirtAddr c = opt_Address opt \<and>
       (c_open c \<or> c_closing c) \<and> c_state c \<in> {StateConnecting, StateEstablished} \<and>
       length (chan_buf (c_pipeline c)) \<le> 128) \<and>
     length (chan_buf (nd_pipeline n)) \<le> 512"
proof -
  have inv: "node_inv n" using node_inv_run [OF assms(2) Serve_setup_up(1) [OF assms(1)]] by simp
  have "nd_opt n = opt" using node_run_opt [OF assms(2)] Serve_setup_up(2) [OF assms(1)] by simp
  with inv node_inv_tableD [OF inv assms(3)] show ?thesis
    by (auto simp: node_inv_def heap_inv_def conn_ok_def chan_ok_def)
qed

theorem node_table_invariant_witness:
  "(\<exists>c. nd_heap (sample_node ''2.2.2.2:20'') 0 = Some c \<and> peerVirtAddr c = ''10.0.0.2'' \<and> selfVirtAddr c = ''10.0.0.1'' \<and>
       (c_open c \<or> c_closing c) \<and> c_state c \<in> {StateConnecting, StateEstablished} \<and>
       length (chan_buf (c_pipeline c)) \<le> 128) \<and>
     length (chan_buf (nd_pipeline (sample_node ''2.2.2.2:20''))) \<le> 512"
  using node_table_invariant [OF sample_start_up sample_node_run, of "''10.0.0.2''" 0]
  by (simp add: sample_node_def new_conn_node_def New_def sample_start_def sample_tunnel_def sample_opt_def)

text \<open>
  C11: no turn of a running node whose address is valid UTF-8 panics: in every reachable state handling any datagram of any length, routing any
  packet of at most \<open>MaxBufferSize\<close> bytes that was read from the device, the heartbeat and the pings of its connections'
  loops return or block on a full pipeline. Each turn is taken to run without another one in between, so this does not
  cover two overlapping calls of \<open>close\<close> on one connection (theory \<open>Close_Race\<close>), nor a device that reports more bytes than the
  buffer holds (theory \<open>Node_Device\<close>); both can panic. Of the
  protobuf library it needs that it keeps dynamic types and marshals messages of valid UTF-8.
\<close>

theorem node_never_panics:
  assumes "Serve_setup env (New opt) = (None, n0)" and "node_run P dial decode n0 ls n" and "marshals P" and "proto_typed P"
    and "utf8_string (opt_Address opt)" and "length packet \<le> MaxBufferSize"
  shows "handlePacket P dial rnd n data now \<noteq> Panic e \<and> dev_read_turn P decode n packet now \<noteq> Panic e \<and>
     heartbeat_turn P n \<noteq> Panic e \<and>
     (\<forall>p c. nd_heap n p = Some c \<longrightarrow> loop_connecting P rnd c now \<noteq> Panic e \<and> loop_keepalive P rnd c now \<noteq> Panic e)"
proof -
  have inv: "node_inv n" using node_inv_run [OF assms(2) Serve_setup_up(1) [OF assms(1)]] by simp
  have addr: "utf8_string (opt_Address (nd_opt n))"
    using node_run_opt [OF assms(2)] Serve_setup_up(2) [OF assms(1)] assms(5) by simp
  have "dev_read_turn P decode n packet now \<noteq> Panic e"
    using node_no_panic(5) [OF inv assms(3) addr] assms(6)
    by (auto simp: dev_read_turn_def Let_def go_bind_Panic_iff MaxBufferSize_def split: option.splits prod.splits)
  moreover have "heartbeat_turn P n \<noteq> Panic e"
    using assms(3) addr by (simp add: heartbeat_turn_def heartbeat_data_def go_bind_Panic_iff)
  ultimately show ?thesis
    using handlePacket_not_Panic [OF inv assms(3,4) addr] node_no_panic(6,7) [OF inv assms(3) addr] by blast
qed

theorem node_never_panics_witness:
  "\<forall>e. handlePacket sample_lib Some (\<lambda>_. 0) (sample_node ''2.2.2.2:20'') [4, 9, 9] 5 \<noteq> Panic e \<and>
   dev_read_turn sample_lib (\<lambda>_. None) (sample_node ''2.2.2.2:20'') [] 5 \<noteq> Panic e \<and>
   heartbeat_turn sample_lib (sample_node ''2.2.2.2:20'') \<noteq> Panic e \<and>
   (\<forall>p c. nd_heap (sample_node ''2.2.2.2:20'') p = Some c \<longrightarrow>
      loop_connecting sample_lib (\<lambda>_. 0) c 5 \<noteq> Panic e \<and> loop_keepalive sample_lib (\<lambda>_. 0) c 5 \<noteq> Panic e)"
proof -
  have "utf8_string (opt_Address sample_opt)" by (simp add: sample_opt_def utf8_string_def)
  then show ?thesis
    by (intro allI node_never_panics [OF sample_start_up sample_node_run sample_lib_marshals sample_lib_typed]) simp_all
qed

text \<open>
  C14: authentication of the established state. A step of the node changes the state of a
  connection only if it handles a datagram that is a Pong naming the virtual address of that
  very connection, which is the one the table has for the address; the new state is
  \<open>StateEstablished\<close> and the keepalive time is reset.
\<close>

theorem established_only_by_pong:
  assumes "Serve_setup env (New opt) = (None, n0)" and "node_run P dial decode n0 ls n" and "proto_typed P" and "node_step P dial decode n l n'"
    and "nd_heap n p = Some c" and "nd_heap n' p = Some c'" and "c_state c' \<noteq> c_state c"
  shows "\<exists>data now d pong. l = NPacket data now \<and> take MaxBufferSize data = 5 # d \<and>
     proto_Unmarshal P (MPong \<lparr>pong_VirtAddress = '''', pong_Nonce = ''''\<rparr>) d = Inr (MPong pong) \<and>
     pong_VirtAddress pong = peerVirtAddr c \<and> nd_connections n (peerVirtAddr c) = Some p \<and>
     c_state c' = StateEstablished \<and> c_keepalive c' = now"
proof -
  have "node_inv n" using node_inv_run [OF assms(2) Serve_setup_up(1) [OF assms(1)]] by simp
  from step_state [OF assms(3) this assms(4-7)] show ?thesis .
qed

text \<open>
  Connections only move forward. Along every run a connection object keeps its peer, its own
  address and its remote address; an established connection stays established, a started loop
  stays started and a connection told to close stays closed.
\<close>

theorem connection_moves_forward:
  assumes "Serve_setup env (New opt) = (None, n0)" and "node_run P dial decode n0 ls n" and "node_run P dial decode n ms n'" and "nd_heap n p = Some c"
  shows "\<exists>c'. nd_heap n' p = Some c' \<and> peerVirtAddr c' = peerVirtAddr c \<and> selfVirtAddr c' = selfVirtAddr c \<and>
     c_remote c' = c_remote c \<and> (c_state c = StateEstablished \<longrightarrow> c_state c' = StateEstablished) \<and>
     (c_once c \<longrightarrow> c_once c') \<and> (c_die c \<longrightarrow> c_die c')"
proof -
  have inv: "node_inv n" using node_inv_run [OF assms(2) Serve_setup_up(1) [OF assms(1)]] by simp
  from node_inv_run [OF assms(3) inv] have run: "node_inv n'" "heap_le n n'" by auto
  from run(2) assms(4) obtain c' where c': "nd_heap n' p = Some c'" "conn_le c c'"
    unfolding heap_le_def by blast
  have "conn_ok c'" by (rule node_inv_heapD [OF run(1) c'(1)])
  with c'(2) have "c_state c = StateEstablished \<longrightarrow> c_state c' = StateEstablished"
    using established_stays by blast
  with c' show ?thesis by (auto simp: conn_le_def)
qed

definition sample_pong :: CtrlPong where
  "sample_pong = \<lparr>pong_VirtAddress = ''10.0.0.2'', pong_Nonce = ''n''\<rparr>"

definition sample_pong_datagram :: bytes where
  "sample_pong_datagram = 5 # sample_put (MPong sample_pong)"

definition sample_connection :: connection where
  "sample_connection = new_connection ''10.0.0.1'' ''10.0.0.2'' ''2.2.2.2:20'' 1"

text \<open>The sample node after a pong of its peer.\<close>

definition established_node :: node where
  "established_node = (sample_node ''2.2.2.2:20'')\<lparr>nd_heap := [0 \<mapsto> pong_received sample_connection 5]\<rparr>"

lemma sample_node_simps [simp]:
  "nd_heap (sample_node udp) = [0 \<mapsto> new_connection ''10.0.0.1'' ''10.0.0.2'' udp 1]"
  "nd_connections (sample_node udp) = [''10.0.0.2'' \<mapsto> 0]"
  "nd_pipeline (sample_node udp) = make_chan 512" "nd_mask (sample_node udp) = [10, 0, 0, 0]"
  "nd_opt (sample_node udp) = sample_opt" "nd_next (sample_node udp) = 1"
  "nd_peer_out (sample_node udp) = []" "nd_dev_out (sample_node udp) = []"
  by (simp_all add: sample_node_def new_conn_node_def New_def sample_start_def sample_tunnel_def sample_opt_def gateway_write_def)

lemma sample_pong_step:
  "node_step sample_lib Some decode (sample_node ''2.2.2.2:20'') (NPacket sample_pong_datagram 5) established_node"
proof -
  have enc: "Encode sample_lib PacketType_Pong (MPong sample_pong) = Ret sample_pong_datagram"
    by (simp add: Encode_def sample_lib_def PacketType_defs sample_pong_datagram_def)
  have "take MaxBufferSize sample_pong_datagram = sample_pong_datagram"
    by (simp add: sample_pong_datagram_def sample_pong_def MaxBufferSize_def)
  then show ?thesis
    by (intro node_step.packet)
      (simp add: handlePacket_Encode(3) [OF sample_lib_roundtrip enc] onPong_def established_node_def sample_connection_def
        sample_pong_def)
qed

theorem established_only_by_pong_witness:
  "\<exists>data now d pong. NPacket sample_pong_datagram 5 = NPacket data now \<and> take MaxBufferSize data = 5 # d \<and>
     proto_Unmarshal sample_lib (MPong \<lparr>pong_VirtAddress = '''', pong_Nonce = ''''\<rparr>) d = Inr (MPong pong) \<and>
     pong_VirtAddress pong = ''10.0.0.2'' \<and> nd_connections (sample_node ''2.2.2.2:20'') ''10.0.0.2'' = Some 0 \<and>
     c_state (pong_received sample_connection 5) = StateEstablished \<and> c_keepalive (pong_received sample_connection 5) = now"
proof -
  have c: "nd_heap (sample_node ''2.2.2.2:20'') 0 = Some sample_connection"
    "nd_heap established_node 0 = Some (pong_received sample_connection 5)"
    "c_state (pong_received sample_connection 5) \<noteq> c_state sample_connection"
    "peerVirtAddr sample_connection = ''10.0.0.2''"
    by (simp_all add: sample_connection_def established_node_def new_connection_def State_defs)
  from established_only_by_pong [OF sample_start_up sample_node_run sample_lib_typed sample_pong_step c(1-3)]
  show ?thesis unfolding c(4) .
qed

theorem connection_moves_forward_witness:
  "\<exists>c'. nd_heap established_node 0 = Some c' \<and> peerVirtAddr c' = ''10.0.0.2'' \<and> c_remote c' = ''2.2.2.2:20''"
proof -
  have c: "nd_heap (sample_node ''2.2.2.2:20'') 0 = Some sample_connection" by (simp add: sample_connection_def)
  from connection_moves_forward [OF sample_start_up sample_node_run node_run_one [OF sample_pong_step] c]
  show ?thesis by (auto simp: sample_connection_def new_connection_def)
qed

text \<open>
  C18: a connection that replaces another is lost. When a notification names a new UDP address for
  a peer whose connection is running, the node closes the old connection and files a new one;
  when the old connection's loop then ends, its \<open>handleClosed\<close> removes the entry of the new
  connection. The new connection stays alive but is no longer in the table, so packets for the
  peer no longer reach it.
\<close>

theorem replaced_connection_is_lost:
  assumes inv: "node_inv n" and rt: "proto_roundtrip P" and m: "marshals P"
    and d: "Encode P PacketType_OpenTunnel (MOpenTunnel t) = Ret d" "length d \<le> MaxBufferSize"
    and old: "nd_connections n (tunnel_VirtAddress t) = Some p" "nd_heap n p = Some c" "c_running c"
    and new: "c_remote c \<noteq> tunnel_UdpAddress t" "dial (tunnel_UdpAddress t) = Some remote"
  shows "\<exists>n'. node_run P dial decode n [NPacket d now, NDie p, NClosed p] n' \<and>
     nd_connections n' (tunnel_VirtAddress t) = None \<and>
     nd_heap n' (nd_next n) = Some (new_connection (opt_Address (nd_opt n)) (tunnel_VirtAddress t) remote now) \<and>
     c_open (the (nd_heap n' (nd_next n))) \<and> \<not> c_die (the (nd_heap n' (nd_next n)))"
proof -
  have peer: "peerVirtAddr c = tunnel_VirtAddress t" and fresh: "p \<noteq> nd_next n"
    using node_inv_tableD [OF inv old(1)] old(2) heap_fresh [OF inv] by auto
  obtain ack where ack: "Encode P PacketType_OpenTunnelAck (MOpenTunnelAck \<lparr>ack_AckId = tunnel_AckId t\<rparr>) = Ret ack"
    by (rule marshals_EncodeE [OF m, of "MOpenTunnelAck \<lparr>ack_AckId = tunnel_AckId t\<rparr>"]) simp_all
  let ?c1 = "conn_close c"
  let ?n1 = "gateway_write (new_conn_node (n\<lparr>nd_heap := (nd_heap n)(p \<mapsto> ?c1)\<rparr>) t remote now) ack"
  let ?c2 = "?c1\<lparr>c_open := False, c_running := False, c_closing := True\<rparr>"
  let ?n2 = "set_conn ?n1 p ?c2 []"
  let ?n3 = "handleClosed (set_conn ?n2 p (?c2\<lparr>c_closing := False\<rparr>) []) p"
  have heap1: "nd_heap ?n1 p = Some ?c1" using fresh by (simp add: new_conn_node_def)
  have "handlePacket P dial rnd n d now = Ret ?n1" for rnd
    using handlePacket_Encode(1) [OF rt d(1)] old new ack
    by (simp add: onOpenTunnel_def connect_unfold send_ack_def)
  then have "node_step P dial decode n (NPacket d now) ?n1"
    using d(2) by (intro node_step.packet) simp
  moreover have "node_step P dial decode ?n1 (NDie p) ?n2"
    using old(3) by (intro node_step.die [OF heap1]) (simp_all add: conn_close_def loop_die_def)
  moreover have "node_step P dial decode ?n2 (NClosed p) ?n3"
    by (intro node_step.closed) (simp_all add: set_conn_def)
  ultimately have "node_run P dial decode n [NPacket d now, NDie p, NClosed p] ?n3"
    by (auto intro: node_run.intros)
  moreover have "nd_connections ?n3 (tunnel_VirtAddress t) = None"
    by (simp add: handleClosed_def set_conn_def conn_close_def peer)
  moreover have "nd_heap ?n3 (nd_next n) = Some (new_connection (opt_Address (nd_opt n)) (tunnel_VirtAddress t) remote now)"
    using fresh by (simp add: handleClosed_def set_conn_def new_conn_node_def)
  ultimately show ?thesis by (intro exI [of _ ?n3]) (simp add: new_connection_def)
qed

definition running_node :: node where
  "running_node = set_conn (sample_node ''2.2.2.2:20'') 0 (loop_start sample_connection 2) []"

lemma running_node_run:
  "node_run sample_lib Some decode sample_start [NPacket (sample_datagram ''2.2.2.2:20'') 1, NStart 0 2] running_node"
proof -
  have "node_step sample_lib Some decode (sample_node ''2.2.2.2:20'') (NStart 0 2) running_node"
    unfolding running_node_def by (rule node_step.start) (simp add: sample_connection_def)
  from node_run_append [OF sample_node_run node_run_one [OF this]] show ?thesis by simp
qed

lemma running_node_inv: "node_inv running_node"
  using node_inv_run [OF running_node_run Serve_setup_up(1) [OF sample_start_up]] by simp

lemma running_node_simps:
  "nd_connections running_node = [''10.0.0.2'' \<mapsto> 0]"
  "nd_heap running_node 0 = Some (loop_start sample_connection 2)"
  "c_running (loop_start sample_connection 2)" "c_remote (loop_start sample_connection 2) = ''2.2.2.2:20''"
  by (simp_all add: running_node_def set_conn_def loop_start_def sample_connection_def new_connection_def)

theorem replaced_connection_is_lost_witness:
  "\<exists>n'. node_run sample_lib Some (\<lambda>_. None) running_node [NPacket (sample_datagram ''3.3.3.3:30'') 9, NDie 0, NClosed 0] n' \<and>
     nd_connections n' ''10.0.0.2'' = None \<and> c_open (the (nd_heap n' (nd_next running_node)))"
proof -
  have d7: "dec_nat 7 = ''7''" by code_simp
  have "length (sample_datagram ''3.3.3.3:30'') \<le> MaxBufferSize"
    by (simp add: sample_datagram_def sample_tunnel_def MaxBufferSize_def put_int_def d7)
  from replaced_connection_is_lost [OF running_node_inv sample_lib_roundtrip sample_lib_marshals sample_Encode(1) this _
      running_node_simps(2,3), of Some "''3.3.3.3:30''" "\<lambda>_. None" 9]
  show ?thesis by (auto simp: sample_tunnel_def running_node_simps)
qed

text \<open>
  C35: a silent peer is dropped. When more than twice the keepalive period has passed since a
  running connection last heard a Pong, the next keepalive tick closes it, the loop ends and
  the entry of its virtual address disappears from the table; its socket is closed and nothing
  more is sent to the peer.
\<close>

theorem silent_peer_is_dropped:
  assumes inv: "node_inv n" and c: "nd_connections n v = Some p" "nd_heap n p = Some c" "c_running c"
    and late: "c_keepalive c + 10 * Second < now"
  shows "\<exists>n'. node_run P dial decode n [NKeepalive p now, NDie p, NClosed p] n' \<and>
     nd_connections n' = (nd_connections n)(v := None) \<and> \<not> c_open (the (nd_heap n' p)) \<and> nd_peer_out n' = nd_peer_out n"
proof -
  have peer: "peerVirtAddr c = v" using node_inv_tableD [OF inv c(1)] c(2) by auto
  let ?c1 = "conn_close c"
  let ?n1 = "set_conn n p ?c1 []"
  let ?c2 = "?c1\<lparr>c_open := False, c_running := False, c_closing := True\<rparr>"
  let ?n2 = "set_conn ?n1 p ?c2 []"
  let ?n3 = "handleClosed (set_conn ?n2 p (?c2\<lparr>c_closing := False\<rparr>) []) p"
  have "loop_keepalive P rnd c now = Ret (?c1, [])" for rnd
    using late by (simp add: loop_keepalive_def PeerKeepaliveDuration_def Second_def)
  then have "node_step P dial decode n (NKeepalive p now) ?n1" by (rule node_step.keepalive [OF c(2,3)])
  moreover have "node_step P dial decode ?n1 (NDie p) ?n2"
    using c(3) by (intro node_step.die [where c = ?c1]) (simp_all add: set_conn_def conn_close_def loop_die_def)
  moreover have "node_step P dial decode ?n2 (NClosed p) ?n3"
    by (intro node_step.closed) (simp_all add: set_conn_def)
  ultimately have "node_run P dial decode n [NKeepalive p now, NDie p, NClosed p] ?n3"
    by (auto intro: node_run.intros)
  then show ?thesis
    by (intro exI [of _ ?n3]) (auto simp: handleClosed_def set_conn_def conn_close_def peer)
qed

theorem silent_peer_is_dropped_witness:
  "\<exists>n'. node_run sample_lib Some (\<lambda>_. None) running_node [NKeepalive 0 (11 * Second), NDie 0, NClosed 0] n' \<and>
     nd_connections n' ''10.0.0.2'' = None"
proof -
  have "c_keepalive (loop_start sample_connection 2) + 10 * Second < 11 * Second"
    by (simp add: loop_start_def sample_connection_def new_connection_def Second_def)
  from silent_peer_is_dropped [OF running_node_inv _ running_node_simps(2,3) this, of "''10.0.0.2''" sample_lib Some "\<lambda>_. None"]
  show ?thesis by (auto simp: running_node_simps)
qed

text \<open>
  Installing a tunnel, and idempotence under retries. The first notification of a tunnel to a
  peer not in the table files a fresh connection in state \<open>StateConnecting\<close> whose socket is
  dialled to the peer's UDP address, and acknowledges it. A repeated notification with the same
  UDP address, as the gateway's retries send it, changes nothing but sends the acknowledgement
  again.
\<close>

theorem tunnel_installed_once:
  assumes "marshals P" and "nd_connections n (tunnel_VirtAddress t) = None"
    and "dial (tunnel_UdpAddress t) = Some (tunnel_UdpAddress t)"
  shows "\<exists>n1 ack. onOpenTunnel P dial n t now = Ret n1 \<and>
     Encode P PacketType_OpenTunnelAck (MOpenTunnelAck \<lparr>ack_AckId = tunnel_AckId t\<rparr>) = Ret ack \<and>
     nd_connections n1 = (nd_connections n)(tunnel_VirtAddress t \<mapsto> nd_next n) \<and>
     nd_heap n1 = (nd_heap n)(nd_next n \<mapsto>
       new_connection (opt_Address (nd_opt n)) (tunnel_VirtAddress t) (tunnel_UdpAddress t) now) \<and>
     nd_gateway_out n1 = nd_gateway_out n @ [ack] \<and>
     onOpenTunnel P dial n1 t later = Ret (n1\<lparr>nd_gateway_out := nd_gateway_out n1 @ [ack]\<rparr>)"
proof -
  obtain ack where ack: "Encode P PacketType_OpenTunnelAck (MOpenTunnelAck \<lparr>ack_AckId = tunnel_AckId t\<rparr>) = Ret ack"
    by (rule marshals_EncodeE [OF assms(1), of "MOpenTunnelAck \<lparr>ack_AckId = tunnel_AckId t\<rparr>"]) simp_all
  let ?n1 = "gateway_write (new_conn_node n t (tunnel_UdpAddress t) now) ack"
  have "onOpenTunnel P dial n t now = Ret ?n1"
    using assms ack by (simp add: onOpenTunnel_def connect_unfold send_ack_def)
  moreover have "onOpenTunnel P dial ?n1 t later = Ret (gateway_write ?n1 ack)"
    using ack by (simp add: onOpenTunnel_def new_conn_node_def send_ack_def new_connection_def)
  ultimately show ?thesis
    using ack by (intro exI [of _ ?n1] exI [of _ ack]) (simp add: new_conn_node_def gateway_write_def)
qed

theorem tunnel_installed_once_witness:
  "\<exists>n1. onOpenTunnel sample_lib Some sample_start (sample_tunnel ''2.2.2.2:20'') 1 = Ret n1 \<and>
     nd_connections n1 ''10.0.0.2'' = Some 0 \<and> nd_gateway_out n1 = [sample_ack]"
proof -
  have "nd_connections sample_start (tunnel_VirtAddress (sample_tunnel ''2.2.2.2:20'')) = None" by (simp add: New_def sample_start_def)
  from tunnel_installed_once [OF sample_lib_marshals this, of Some 1 9] show ?thesis
    using sample_Encode(2) by (auto simp: sample_tunnel_def New_def sample_start_def)
qed

text \<open>The routing decision of one packet, with the decoded destination.\<close>

lemma mask_equal_iff:
  assumes "length a = 4" and "length b = 4"
  shows "IP_Equal (IP_Mask b subnetMask) (IP_Mask (v4InV6Prefix @ a) [255, 255, 0, 0]) \<longleftrightarrow> take 2 b = take 2 a"
proof -
  obtain a0 a1 a2 a3 where a: "a = [a0, a1, a2, a3]" using assms(1) by (auto simp: length_Suc_conv numeral_eq_Suc)
  obtain b0 b1 b2 b3 where b: "b = [b0, b1, b2, b3]" using assms(2) by (auto simp: length_Suc_conv numeral_eq_Suc)
  have "IP_Mask (v4InV6Prefix @ a) [255, 255, 0, 0] = [a0, a1, 0, 0]"
    by (subst IP_Mask_mapped) (simp_all add: a IP_Mask_16)
  then show ?thesis by (simp add: a b IP_Mask_16 subnetMask_def IP_Equal_def)
qed

text \<open>
  C34: routing of a packet read from the device, for a node set up with the IPv4 address \<open>a\<close>. A
  packet that does not decode, or whose destination differs from \<open>a\<close> in one of the first two
  bytes, is ignored. A packet to \<open>a\<close> itself is put back into the node's pipeline, byte for byte.
  Every other packet is forwarded to the virtual address its destination prints as.
\<close>

theorem device_packet_routing:
  assumes "length a = 4" and "opt_Address (nd_opt n0) = dotted a" and "Serve_setup env n0 = (None, n)"
  shows "dev_read_turn P decode n packet now =
    (case decode packet of
       None \<Rightarrow> Ret n
     | Some (w, x, y, z) \<Rightarrow>
         if [w, x] \<noteq> take 2 a then Ret n
         else if [w, x, y, z] = a then go_bind (chan_send (nd_pipeline n) packet) (\<lambda>ch. Ret (n\<lparr>nd_pipeline := ch\<rparr>))
         else forward P n (dotted [w, x, y, z]) packet now)"
proof -
  have n: "nd_opt n = nd_opt n0" "nd_mask n = IP_Mask (v4InV6Prefix @ a) [255, 255, 0, 0]"
    using assms(3) by (auto simp: Serve_setup_def Let_def assms(2) ParseIP_dotted [OF assms(1)]
        split: sum.splits option.splits)
  show ?thesis
  proof (cases "decode packet")
    case None
    then show ?thesis by (simp add: dev_read_turn_def)
  next
    case (Some q)
    obtain w x y z where q: "q = (w, x, y, z)" by (cases q)
    have "dotted [w, x, y, z] = opt_Address (nd_opt n) \<longleftrightarrow> [w, x, y, z] = a"
      unfolding n(1) assms(2) by (rule dotted_inject) (simp_all add: assms(1))
    then show ?thesis
      using mask_equal_iff [OF assms(1), of "[w, x, y, z]"] Some q
      by (simp add: dev_read_turn_def Let_def n(2) numeral_2_eq_2)
  qed
qed

theorem device_packet_routing_witness:
  "dev_read_turn sample_lib (\<lambda>_. Some (10, 1, 0, 2)) (snd (Serve_setup sample_env (New sample_opt))) [1, 2, 3] 5 =
     Ret (snd (Serve_setup sample_env (New sample_opt))) \<and>
   dev_read_turn sample_lib (\<lambda>_. Some (10, 0, 0, 2)) (snd (Serve_setup sample_env (New sample_opt))) [1, 2, 3] 5 =
     forward sample_lib (snd (Serve_setup sample_env (New sample_opt))) (dotted [10, 0, 0, 2]) [1, 2, 3] 5"
proof -
  have d: "dec_nat 10 = ''10''" "dec_nat 0 = ''0''" "dec_nat (Suc 0) = ''1''" by code_simp+
  have addr: "opt_Address (nd_opt (New sample_opt)) = dotted [10, 0, 0, 1]"
    by (simp add: New_def sample_opt_def dotted_def d)
  have up: "Serve_setup sample_env (New sample_opt) = (None, snd (Serve_setup sample_env (New sample_opt)))"
    by (simp add: Serve_setup_def sample_env_def Let_def)
  have len: "length [10, 0, 0, 1 :: byte] = 4" by simp
  show ?thesis
    using device_packet_routing [OF len addr up, of sample_lib "\<lambda>_. Some (10, 1, 0, 2)" "[1, 2, 3]" 5]
      device_packet_routing [OF len addr up, of sample_lib "\<lambda>_. Some (10, 0, 0, 2)" "[1, 2, 3]" 5]
    by (simp add: numeral_2_eq_2)
qed

lemma request_rate_step:
  assumes "node_step P dial decode n l n'" and "l \<noteq> NRequestDone v" and "nd_pending n v = Some t0"
    and soon: "\<And>packet now. l = NDevRead packet now \<Longrightarrow> now < t0 + Second"
  shows "nd_pending n' v = Some t0 \<and> count_list (nd_requests n') v = count_list (nd_requests n) v"
  using assms(1)
proof cases
  case (dev_read packet now)
  have "nd_pending n' v = Some t0 \<and> count_list (nd_requests n') v = count_list (nd_requests n) v"
    if "forward P n w packet now = Ret n'" for w
    using that assms(3) soon [OF dev_read(1)]
    by (cases "w = v") (auto simp: forward_def go_bind_Ret_iff gateway_write_def split: option.splits if_splits)
  then show ?thesis using dev_read_turn_cases [OF dev_read(2)] assms(3) by auto
next
  case (packet rnd d now)
  then show ?thesis using quiet_handlePacket [OF packet(2)] assms(3) by (simp add: quiet_def)
next
  case dev_write
  then show ?thesis using assms(3) by (auto simp: dev_write_turn_def go_bind_Ret_iff)
next
  case (req_done w)
  have "count_list (remove1 w xs) v = count_list xs v" if "w \<noteq> v" for xs
    using that by (induction xs) auto
  then show ?thesis using req_done assms(2,3) by (simp add: request_done_def)
next
  case beat
  then show ?thesis using assms(3) by (auto simp: heartbeat_turn_def go_bind_Ret_iff)
qed (use assms(3) in \<open>simp_all add: set_conn_def handleClosed_def\<close>)

text \<open>
  Requests for a tunnel are rate limited. After a request for a destination was started at
  time \<open>t0\<close>, no run in which that request has not ended starts another one for the same
  destination from a packet read before \<open>t0\<close> plus one second, however many packets for it
  arrive and whatever else happens.
\<close>

theorem tunnel_requests_rate_limited:
  assumes "node_run P dial decode n ls n'" and "nd_pending n v = Some t0" and "NRequestDone v \<notin> set ls"
    and "\<forall>packet now. NDevRead packet now \<in> set ls \<longrightarrow> now < t0 + Second"
  shows "nd_pending n' v = Some t0 \<and> count_list (nd_requests n') v = count_list (nd_requests n) v"
  using assms
proof (induction rule: node_run.induct)
  case (run_nil n)
  then show ?case by simp
next
  case (run_cons n l n' ls n'')
  then have "nd_pending n' v = Some t0 \<and> count_list (nd_requests n') v = count_list (nd_requests n) v"
    by (intro request_rate_step) auto
  then show ?case using run_cons by auto
qed

theorem tunnel_requests_rate_limited_witness:
  "\<exists>n n'. forward sample_lib sample_start ''10.0.0.9'' [1] 100 = Ret n \<and>
     node_run sample_lib Some (\<lambda>_. None) n [NDevRead [2] 200, NHeartbeat] n' \<and>
     nd_requests n = [''10.0.0.9''] \<and> count_list (nd_requests n') ''10.0.0.9'' = 1"
proof -
  obtain n where n: "forward sample_lib sample_start ''10.0.0.9'' [1] 100 = Ret n" "nd_requests n = [''10.0.0.9'']"
      "nd_pending n ''10.0.0.9'' = Some 100"
    by (simp add: forward_def New_def sample_start_def)
  obtain d where d: "heartbeat_turn sample_lib n = Ret (gateway_write n d)"
    by (simp add: heartbeat_turn_def heartbeat_data_def Encode_def sample_lib_def)
  have "node_step sample_lib Some (\<lambda>_. None) n (NDevRead [2] 200) n"
    by (rule node_step.dev_read) (simp add: dev_read_turn_def)
  moreover have "node_step sample_lib Some (\<lambda>_. None) n NHeartbeat (gateway_write n d)"
    by (rule node_step.beat) (rule d)
  ultimately have run: "node_run sample_lib Some (\<lambda>_. None) n [NDevRead [2] 200, NHeartbeat] (gateway_write n d)"
    by (auto intro: node_run.intros)
  from tunnel_requests_rate_limited [OF run n(3)] n(1,2) run show ?thesis
    by (intro exI [of _ n] exI [of _ "gateway_write n d"]) (simp add: Second_def)
qed

text \<open>What a data datagram does at its receiver.\<close>

lemma raw_datagram_reaches_device:
  assumes "chan_buf (nd_pipeline b) = []" "chan_cap (nd_pipeline b) = 512" "length packet \<le> 4095"
  shows "\<exists>b'. node_run P dial decode b [NPacket (EncodeRaw packet) now, NDevWrite] b' \<and> nd_dev_out b' = nd_dev_out b @ [packet]"
proof -
  let ?b1 = "b\<lparr>nd_pipeline := (nd_pipeline b)\<lparr>chan_buf := [packet]\<rparr>\<rparr>"
  let ?b2 = "b\<lparr>nd_dev_out := nd_dev_out b @ [packet]\<rparr>"
  have "take MaxBufferSize (EncodeRaw packet) = EncodeRaw packet" using assms(3) by (simp add: MaxBufferSize_def)
  then have "node_step P dial decode b (NPacket (EncodeRaw packet) now) ?b1"
    using assms by (intro node_step.packet) (simp add: handlePacket_EncodeRaw chan_send_def chan_full_def)
  moreover have "node_step P dial decode ?b1 NDevWrite ?b2"
    using assms by (intro node_step.dev_write) (simp add: dev_write_turn_def chan_recv_def)
  ultimately have "node_run P dial decode b [NPacket (EncodeRaw packet) now, NDevWrite] ?b2"
    by (auto intro: node_run.intros)
  then show ?thesis by (intro exI [of _ ?b2]) simp
qed

text \<open>
  C33: the direct path of a packet. A packet for a peer with an established, running connection
  whose pipeline is empty goes out on that connection's socket behind the data type byte, and
  the peer that receives this datagram writes exactly the packet to its virtual device. The
  packet is at most 4095 bytes long, so that the datagram fits the receiver's buffer.
\<close>

theorem direct_path_delivers:
  assumes c: "nd_connections a v = Some p" "nd_heap a p = Some c" "c_state c = StateEstablished" "c_running c"
      "chan_buf (c_pipeline c) = []" "chan_cap (c_pipeline c) = 128"
    and route: "dev_read_turn P decode a packet now = forward P a v packet now"
    and b: "chan_buf (nd_pipeline b) = []" "chan_cap (nd_pipeline b) = 512" and len: "length packet \<le> 4095"
  shows "\<exists>a' b'. node_run P dial decode a [NDevRead packet now, NPipeline p] a' \<and>
     nd_peer_out a' = nd_peer_out a @ [(c_remote c, EncodeRaw packet)] \<and> nd_gateway_out a' = nd_gateway_out a \<and>
     node_run P dial' decode' b [NPacket (EncodeRaw packet) later, NDevWrite] b' \<and>
     nd_dev_out b' = nd_dev_out b @ [packet]"
proof -
  let ?c1 = "c\<lparr>c_pipeline := (c_pipeline c)\<lparr>chan_buf := [EncodeRaw packet]\<rparr>\<rparr>"
  let ?a1 = "a\<lparr>nd_heap := (nd_heap a)(p \<mapsto> ?c1)\<rparr>"
  let ?a2 = "set_conn ?a1 p c [EncodeRaw packet]"
  let ?b1 = "b\<lparr>nd_pipeline := (nd_pipeline b)\<lparr>chan_buf := [packet]\<rparr>\<rparr>"
  let ?b2 = "b\<lparr>nd_dev_out := nd_dev_out b @ [packet]\<rparr>"
  have "dev_read_turn P decode a packet now = Ret ?a1"
    using c by (simp add: route forward_def chan_try_send_def chan_full_def)
  then have "node_step P dial decode a (NDevRead packet now) ?a1" by (rule node_step.dev_read)
  moreover have "loop_pipeline ?c1 = Ret (c, [EncodeRaw packet])"
    using c(5) by (simp add: loop_pipeline_def chan_recv_def)
  then have "node_step P dial decode ?a1 (NPipeline p) ?a2"
    using c(4) by (intro node_step.pipeline [where c = ?c1]) simp_all
  ultimately have a: "node_run P dial decode a [NDevRead packet now, NPipeline p] ?a2" by (auto intro: node_run.intros)
  have "nd_peer_out ?a2 = nd_peer_out a @ [(c_remote c, EncodeRaw packet)]" "nd_gateway_out ?a2 = nd_gateway_out a"
    by (simp_all add: set_conn_def)
  with raw_datagram_reaches_device [OF b len, of P dial' decode' later] a show ?thesis by blast
qed

text \<open>The sample node with an established, running connection, set up for the subnet 10.0.\<close>

definition direct_connection :: connection where
  "direct_connection = pong_received (loop_start sample_connection 2) 5"

definition direct_node :: node where
  "direct_node = (sample_node ''2.2.2.2:20'')\<lparr>nd_mask := [10, 0, 0, 0], nd_heap := [0 \<mapsto> direct_connection]\<rparr>"

lemma dotted_10_0_0_2: "dotted [10, 0, 0, 2] = ''10.0.0.2''"
proof -
  have "dec_nat 10 = ''10''" "dec_nat 0 = ''0''" "dec_nat 2 = ''2''" by code_simp+
  then show ?thesis by (simp add: dotted_def)
qed

lemma sample_route:
  assumes "nd_mask n = [10, 0, 0, 0]" and "opt_Address (nd_opt n) = ''10.0.0.1''"
  shows "dev_read_turn P (\<lambda>_. Some (10, 0, 0, 2)) n packet now = forward P n ''10.0.0.2'' packet now"
  using assms by (simp add: dev_read_turn_def dotted_10_0_0_2 subnetMask_def IP_Mask_16 IP_Equal_def)

theorem direct_path_delivers_witness:
  "\<exists>a' b'. node_run sample_lib Some (\<lambda>_. Some (10, 0, 0, 2)) direct_node [NDevRead [1, 2, 3] 9, NPipeline 0] a' \<and>
     nd_peer_out a' = [(''2.2.2.2:20'', EncodeRaw [1, 2, 3])] \<and>
     node_run sample_lib Some (\<lambda>_. None) sample_start [NPacket (EncodeRaw [1, 2, 3]) 10, NDevWrite] b' \<and>
     nd_dev_out b' = [[1, 2, 3]]"
proof -
  have c: "nd_connections direct_node ''10.0.0.2'' = Some 0" "nd_heap direct_node 0 = Some direct_connection"
    "c_state direct_connection = StateEstablished" "c_running direct_connection"
    "chan_buf (c_pipeline direct_connection) = []" "chan_cap (c_pipeline direct_connection) = 128"
    by (simp_all add: direct_node_def direct_connection_def pong_received_def Let_def loop_start_def sample_connection_def
        new_connection_def)
  have route: "dev_read_turn sample_lib (\<lambda>_. Some (10, 0, 0, 2)) direct_node [1, 2, 3] 9 =
      forward sample_lib direct_node ''10.0.0.2'' [1, 2, 3] 9"
    by (rule sample_route) (simp_all add: direct_node_def sample_opt_def)
  have b: "chan_buf (nd_pipeline sample_start) = []" "chan_cap (nd_pipeline sample_start) = 512"
    "length [1, 2, 3 :: byte] \<le> 4095" by (simp_all add: New_def sample_start_def)
  have "c_remote direct_connection = ''2.2.2.2:20''" "nd_peer_out direct_node = []" "nd_dev_out sample_start = []"
    by (simp_all add: direct_node_def direct_connection_def pong_received_def Let_def loop_start_def sample_connection_def
        new_connection_def New_def sample_start_def)
  with direct_path_delivers [OF c route b, of Some Some "\<lambda>_. None" 10] show ?thesis by auto
qed

end
