(* ===== verification/Mesh_System.thy ===== *)
theory Mesh_System
  imports Gateway_System Node_Properties "HOL-Library.Sublist"
begin

text \<open>
  The whole network: any number of nodes, one gateway and the UDP network between them. The state has the nodes,
  the gateway and the history of the packets read from the devices. What a machine has written to a
  socket may be delivered, late, several times, in any order, or never, to whoever has the address it was sent
  to; of a datagram that does not fit the receive buffer the first \<open>MaxBufferSize\<close> bytes arrive. \<open>addr i\<close> is the set of public addresses under which the
  rest of the network sees node \<open>i\<close> (several, when its NAT rebinds). HTTP requests may come from anybody.
  The invariant follows a packet and an address through the three kinds of machines: a connection leads to an
  address of its peer, and a packet leaves the network only at the node it is addressed to.
\<close>

section \<open>States and steps\<close>

record mesh =
  mesh_nodes :: "nat \<Rightarrow> node"
  mesh_gateway :: gateway
  mesh_read :: "(nat \<times> bytes) list"

definition virt :: "node \<Rightarrow> string" where
  "virt n = opt_Address (nd_opt n)"

definition internal :: "node_label \<Rightarrow> bool" where
  "internal l \<longleftrightarrow> (case l of NPacket _ _ \<Rightarrow> False | NDevRead _ _ \<Rightarrow> False | _ \<Rightarrow> True)"

definition gw_internal :: "gw_label \<Rightarrow> bool" where
  "gw_internal l \<longleftrightarrow> (case l of LRecv _ _ _ \<Rightarrow> False | _ \<Rightarrow> True)"

inductive mesh_step ::
  "proto_lib \<Rightarrow> (string \<Rightarrow> string option) \<Rightarrow> (string \<Rightarrow> string option) \<Rightarrow> (bytes \<Rightarrow> (byte \<times> byte \<times> byte \<times> byte) option) \<Rightarrow>
   version_vars \<Rightarrow> (string \<Rightarrow> string + int64) \<Rightarrow> (nat \<Rightarrow> string set) \<Rightarrow> mesh \<Rightarrow> mesh \<Rightarrow> bool"
  for P dial resolve decode vars semver addr where
  node_internal: "internal l \<Longrightarrow> node_step P dial decode (mesh_nodes m i) l n \<Longrightarrow>
     mesh_step P dial resolve decode vars semver addr m (m\<lparr>mesh_nodes := (mesh_nodes m)(i := n)\<rparr>)"
| device: "node_step P dial decode (mesh_nodes m i) (NDevRead packet now) n \<Longrightarrow>
     mesh_step P dial resolve decode vars semver addr m
       (m\<lparr>mesh_nodes := (mesh_nodes m)(i := n), mesh_read := mesh_read m @ [(i, packet)]\<rparr>)"
| gateway_internal: "gw_internal l \<Longrightarrow> gw_step P resolve vars semver (mesh_gateway m) l g \<Longrightarrow>
     mesh_step P dial resolve decode vars semver addr m (m\<lparr>mesh_gateway := g\<rparr>)"
| to_gateway: "d \<in> set (nd_gateway_out (mesh_nodes m i)) \<Longrightarrow> a \<in> addr i \<Longrightarrow>
     gw_step P resolve vars semver (mesh_gateway m) (LRecv a d now) g \<Longrightarrow>
     mesh_step P dial resolve decode vars semver addr m (m\<lparr>mesh_gateway := g\<rparr>)"
| from_gateway: "(d, a) \<in> set (gw_out (mesh_gateway m)) \<Longrightarrow> a \<in> addr i \<Longrightarrow>
     node_step P dial decode (mesh_nodes m i) (NPacket d now) n \<Longrightarrow>
     mesh_step P dial resolve decode vars semver addr m (m\<lparr>mesh_nodes := (mesh_nodes m)(i := n)\<rparr>)"
| from_peer: "(a, d) \<in> set (nd_peer_out (mesh_nodes m j)) \<Longrightarrow> a \<in> addr i \<Longrightarrow>
     node_step P dial decode (mesh_nodes m i) (NPacket d now) n \<Longrightarrow>
     mesh_step P dial resolve decode vars semver addr m (m\<lparr>mesh_nodes := (mesh_nodes m)(i := n)\<rparr>)"

inductive mesh_run ::
  "proto_lib \<Rightarrow> (string \<Rightarrow> string option) \<Rightarrow> (string \<Rightarrow> string option) \<Rightarrow> (bytes \<Rightarrow> (byte \<times> byte \<times> byte \<times> byte) option) \<Rightarrow>
   version_vars \<Rightarrow> (string \<Rightarrow> string + int64) \<Rightarrow> (nat \<Rightarrow> string set) \<Rightarrow> mesh \<Rightarrow> mesh \<Rightarrow> bool"
  for P dial resolve decode vars semver addr m where
  run_refl: "mesh_run P dial resolve decode vars semver addr m m"
| run_step: "mesh_run P dial resolve decode vars semver addr m m' \<Longrightarrow> mesh_step P dial resolve decode vars semver addr m' m'' \<Longrightarrow>
     mesh_run P dial resolve decode vars semver addr m m''"

text \<open>The start: every node after a successful set-up, and the gateway before its first datagram.\<close>

definition mesh_start :: "(nat \<Rightarrow> Options) \<Rightarrow> (nat \<Rightarrow> serve_env) \<Rightarrow> int \<Rightarrow> string \<Rightarrow> mesh \<Rightarrow> bool" where
  "mesh_start opts envs concurrency key m \<longleftrightarrow>
     (\<forall>i. Serve_setup (envs i) (New (opts i)) = (None, mesh_nodes m i)) \<and> mesh_read m = [] \<and>
     (\<exists>d. start_dispatcher concurrency = Ret d \<and> mesh_gateway m = gw_init key d)"

section \<open>What the machines hold\<close>

text \<open>
  Two relations: \<open>own a v\<close>, the address \<open>a\<close> belongs to the node with virtual address \<open>v\<close>; \<open>sent q v\<close>, the packet \<open>q\<close>,
  addressed to \<open>v\<close>, was read from a device.
\<close>

definition to_gateway_ok :: "proto_lib \<Rightarrow> (bytes \<Rightarrow> string \<Rightarrow> bool) \<Rightarrow> string \<Rightarrow> bytes \<Rightarrow> bool" where
  "to_gateway_ok P sent v d \<longleftrightarrow>
     Encode P PacketType_Heartbeat (MHeartbeat \<lparr>heartbeat_VirtAddress = v\<rparr>) = Ret d \<or>
     (\<exists>w q. Encode P PacketType_Relay (MRelay \<lparr>relay_VirtAddress = w, relay_Data = q\<rparr>) = Ret d \<and> sent q w) \<or>
     (\<exists>k. Encode P PacketType_OpenTunnelAck (MOpenTunnelAck \<lparr>ack_AckId = k\<rparr>) = Ret d)"

definition pipe_ok :: "(bytes \<Rightarrow> string \<Rightarrow> bool) \<Rightarrow> string \<Rightarrow> bytes \<Rightarrow> bool" where
  "pipe_ok sent v d \<longleftrightarrow> (\<exists>q. d = EncodeRaw q \<and> sent q v) \<or> (\<exists>b. d = 5 # b)"

definition to_peer_ok :: "(string \<Rightarrow> string \<Rightarrow> bool) \<Rightarrow> (bytes \<Rightarrow> string \<Rightarrow> bool) \<Rightarrow> string \<Rightarrow> bytes \<Rightarrow> bool" where
  "to_peer_ok own sent a d \<longleftrightarrow> (\<exists>q v. d = EncodeRaw q \<and> sent q v \<and> own a v) \<or> (\<exists>b. d = 4 # b \<or> d = 5 # b)"

definition conn_carries :: "(string \<Rightarrow> string \<Rightarrow> bool) \<Rightarrow> (bytes \<Rightarrow> string \<Rightarrow> bool) \<Rightarrow> connection \<Rightarrow> bool" where
  "conn_carries own sent c \<longleftrightarrow> own (c_remote c) (peerVirtAddr c) \<and>
     (\<forall>d \<in> set (chan_buf (c_pipeline c)). pipe_ok sent (peerVirtAddr c) d)"

definition node_carries :: "proto_lib \<Rightarrow> (string \<Rightarrow> string \<Rightarrow> bool) \<Rightarrow> (bytes \<Rightarrow> string \<Rightarrow> bool) \<Rightarrow> node \<Rightarrow> bool" where
  "node_carries P own sent n \<longleftrightarrow> node_inv n \<and>
     (\<forall>q \<in> set (chan_buf (nd_pipeline n)) \<union> set (nd_dev_out n). sent q (virt n)) \<and>
     (\<forall>c \<in> ran (nd_heap n). conn_carries own sent c) \<and>
     (\<forall>d \<in> set (nd_gateway_out n). to_gateway_ok P sent (virt n) d) \<and>
     (\<forall>(a, d) \<in> set (nd_peer_out n). to_peer_ok own sent a d)"

text \<open>What a datagram must be when it reaches the node with virtual address \<open>v\<close>.\<close>

definition incoming_ok :: "proto_lib \<Rightarrow> (string \<Rightarrow> string \<Rightarrow> bool) \<Rightarrow> (bytes \<Rightarrow> string \<Rightarrow> bool) \<Rightarrow> string \<Rightarrow> bytes \<Rightarrow> bool" where
  "incoming_ok P own sent v d \<longleftrightarrow> (\<exists>q. d = EncodeRaw q \<and> sent q v) \<or> (\<exists>b. d = 4 # b \<or> d = 5 # b) \<or>
     (\<exists>t. Encode P PacketType_OpenTunnel (MOpenTunnel t) = Ret d \<and> own (tunnel_UdpAddress t) (tunnel_VirtAddress t))"

definition addressed :: "(bytes \<Rightarrow> (byte \<times> byte \<times> byte \<times> byte) option) \<Rightarrow> bytes \<Rightarrow> string \<Rightarrow> bool" where
  "addressed decode q v \<longleftrightarrow> (case decode q of None \<Rightarrow> False | Some (a, b, c, d) \<Rightarrow> v = dotted [a, b, c, d])"

text \<open>Dialling an address connects to that address.\<close>

definition dials_exactly :: "(string \<Rightarrow> string option) \<Rightarrow> bool" where
  "dials_exactly dial \<longleftrightarrow> (\<forall>a r. dial a = Some r \<longrightarrow> r = a)"

text \<open>
  Datagrams that are too long arrive cut off. \<open>fits\<close>: a message encodes to a datagram that no receive buffer cuts. \<open>cut_closed\<close>: \<open>sent\<close> also holds
  for what is left of a packet behind a cut, the front part of a raw packet and nothing of the data of a relay message.
  \<open>tunnels_fit\<close>: notifications with the addresses of nodes are not cut.
\<close>

definition fits :: "proto_lib \<Rightarrow> PacketType \<Rightarrow> proto_message \<Rightarrow> bool" where
  "fits P t m \<longleftrightarrow> (case Encode P t m of Ret d \<Rightarrow> length d \<le> MaxBufferSize | _ \<Rightarrow> False)"

lemma fitsE: "fits P t m \<Longrightarrow> (\<And>d. Encode P t m = Ret d \<Longrightarrow> length d \<le> MaxBufferSize \<Longrightarrow> thesis) \<Longrightarrow> thesis"
  by (auto simp: fits_def split: go.splits)

lemma fitsD: "fits P t m \<Longrightarrow> Encode P t m = Ret d \<Longrightarrow> length d \<le> MaxBufferSize"
  by (simp add: fits_def)

definition cut_closed :: "proto_lib \<Rightarrow> (bytes \<Rightarrow> string \<Rightarrow> bool) \<Rightarrow> bool" where
  "cut_closed P sent \<longleftrightarrow>
     (\<forall>q v. sent q v \<longrightarrow> MaxBufferSize \<le> length q \<longrightarrow> sent (take (MaxBufferSize - 1) q) v) \<and>
     (\<forall>q v. sent q v \<longrightarrow> \<not> fits P PacketType_Relay (MRelay \<lparr>relay_VirtAddress = v, relay_Data = q\<rparr>) \<longrightarrow> sent [] v)"

definition tunnels_fit :: "proto_lib \<Rightarrow> (string \<Rightarrow> string \<Rightarrow> bool) \<Rightarrow> bool" where
  "tunnels_fit P own \<longleftrightarrow> (\<forall>t. own (tunnel_UdpAddress t) (tunnel_VirtAddress t) \<longrightarrow> fits P PacketType_OpenTunnel (MOpenTunnel t))"

lemma take_EncodeRaw: "take MaxBufferSize (EncodeRaw q) = EncodeRaw (take (MaxBufferSize - 1) q)"
  by (simp add: EncodeRaw_def MaxBufferSize_def take_Cons')

lemma raw_arrives: "cut_closed P sent \<Longrightarrow> sent q v \<Longrightarrow> sent (take (MaxBufferSize - 1) q) v"
  by (cases "MaxBufferSize \<le> length q") (auto simp: cut_closed_def)

lemma incoming_raw:
  assumes "cut_closed P sent" and "sent q v"
  shows "incoming_ok P own sent v (take MaxBufferSize (EncodeRaw q))"
  using raw_arrives [OF assms] unfolding take_EncodeRaw incoming_ok_def by blast

lemma incoming_peer: "incoming_ok P own sent v (take MaxBufferSize (4 # b))" "incoming_ok P own sent v (take MaxBufferSize (5 # b))"
  by (simp_all add: incoming_ok_def MaxBufferSize_def take_Cons')

lemma incoming_tunnel:
  assumes "tunnels_fit P own" and "Encode P PacketType_OpenTunnel (MOpenTunnel t) = Ret d"
    and "own (tunnel_UdpAddress t) (tunnel_VirtAddress t)"
  shows "incoming_ok P own sent v (take MaxBufferSize d)"
proof -
  have "length d \<le> MaxBufferSize" using assms fitsD unfolding tunnels_fit_def by blast
  then show ?thesis using assms(2,3) by (auto simp: incoming_ok_def)
qed

lemma node_carries_ran: "node_carries P own sent n \<Longrightarrow> nd_heap n p = Some c \<Longrightarrow> conn_carries own sent c"
  by (auto simp: node_carries_def ran_def)

lemma node_carries_update:
  assumes "node_carries P own sent n" and "conn_carries own sent c" and "node_inv n'"
    and "nd_heap n' = (nd_heap n)(p \<mapsto> c)" and "nd_peer_out n' = nd_peer_out n @ out"
    and "nd_pipeline n' = nd_pipeline n" and "nd_dev_out n' = nd_dev_out n"
    and "nd_gateway_out n' = nd_gateway_out n" and "nd_opt n' = nd_opt n"
    and "\<forall>(a, d) \<in> set out. to_peer_ok own sent a d"
  shows "node_carries P own sent n'"
proof -
  have "ran (nd_heap n') \<subseteq> insert c (ran (nd_heap n))" using assms(4) by (auto simp: ran_def)
  then have "\<forall>c \<in> ran (nd_heap n'). conn_carries own sent c" using assms(1,2) by (auto simp: node_carries_def)
  then show ?thesis using assms by (auto simp: node_carries_def virt_def)
qed

lemma node_carries_gateway_write:
  assumes "node_carries P own sent n" and "to_gateway_ok P sent (virt n) d"
  shows "node_carries P own sent (gateway_write n d)"
  using assms by (auto simp: node_carries_def virt_def gateway_write_def node_inv_frame [of "gateway_write n d" n, unfolded gateway_write_def])

lemma node_carries_deliver:
  assumes "node_carries P own sent n" and "chan_send (nd_pipeline n) q = Ret ch" and "sent q (virt n)"
  shows "node_carries P own sent (n\<lparr>nd_pipeline := ch\<rparr>)"
  using assms node_inv_deliver [of n q ch] by (auto simp: node_carries_def virt_def chan_simps)

section \<open>The steps of a node\<close>

lemma forward_carries:
  assumes nc: "node_carries P own sent n" and fw: "forward P n v packet now = Ret n'" and s: "sent packet v"
  shows "node_carries P own sent n'"
proof -
  have inv: "node_inv n'" using forward_inv [OF _ fw] nc by (simp add: node_carries_def)
  show ?thesis
  proof (cases "nd_connections n v")
    case None
    then show ?thesis using fw nc inv by (auto simp: forward_def node_carries_def virt_def split: option.splits if_splits)
  next
    case (Some p)
    obtain c where c: "nd_heap n p = Some c" "peerVirtAddr c = v"
      using node_inv_tableD [OF _ Some] nc by (auto simp: node_carries_def)
    have cc: "conn_carries own sent c" by (rule node_carries_ran [OF nc c(1)])
    show ?thesis
    proof (cases "c_state c = StateEstablished")
      case True
      have "conn_carries own sent (c\<lparr>c_pipeline := snd (chan_try_send (c_pipeline c) (EncodeRaw packet))\<rparr>)"
        using cc s c(2) by (auto simp: conn_carries_def chan_try_send_def pipe_ok_def)
      from node_carries_update [OF nc this inv, of p "[]"] show ?thesis
        using fw Some c(1) True by (auto simp: forward_def)
    next
      case False
      then obtain d where "n' = gateway_write n d" "to_gateway_ok P sent (virt n) d"
        using fw Some c s by (auto simp: forward_def go_bind_Ret_iff to_gateway_ok_def)
      then show ?thesis using node_carries_gateway_write [OF nc] by simp
    qed
  qed
qed

lemma dev_read_carries:
  assumes nc: "node_carries P own sent n" and op: "dev_read_turn P decode n packet now = Ret n'"
    and s: "\<And>v. addressed decode packet v \<Longrightarrow> sent packet v"
  shows "node_carries P own sent n'"
proof (cases "decode packet")
  case None
  then show ?thesis using nc op by (simp add: dev_read_turn_def)
next
  case (Some q)
  obtain a b c d where q: "q = (a, b, c, d)" by (cases q)
  have "sent packet (dotted [a, b, c, d])" using s [of "dotted [a, b, c, d]"] Some q by (simp add: addressed_def)
  then show ?thesis
    using op Some q nc forward_carries [OF nc] node_carries_deliver [OF nc]
    by (auto simp: dev_read_turn_def Let_def go_bind_Ret_iff virt_def split: if_splits)
qed

lemma onPing_carries:
  assumes nc: "node_carries P own sent n" and op: "onPing P rnd n p = Ret n'"
  shows "node_carries P own sent n'"
proof (cases "nd_connections n (ping_VirtAddress p)")
  case None
  then show ?thesis using nc op by (simp add: onPing_def)
next
  case (Some q)
  from op Some obtain c d ch where c: "nd_heap n q = Some c" and ch: "chan_send (c_pipeline c) d = Ret ch"
    and d: "\<exists>b. d = 5 # b" and n': "n' = n\<lparr>nd_heap := (nd_heap n)(q \<mapsto> c\<lparr>c_pipeline := ch\<rparr>)\<rparr>"
    by (auto simp: onPing_def go_simps PacketType_defs split: option.splits)
  have "conn_carries own sent (c\<lparr>c_pipeline := ch\<rparr>)"
    using node_carries_ran [OF nc c] ch d by (auto simp: conn_carries_def chan_simps pipe_ok_def)
  moreover have "node_inv n'" using onPing_inv [OF _ op] nc by (simp add: node_carries_def)
  ultimately show ?thesis using node_carries_update [OF nc, of "c\<lparr>c_pipeline := ch\<rparr>" n' q "[]"] n' by simp
qed

lemma onPong_carries:
  assumes nc: "node_carries P own sent n" and op: "onPong n p now = Ret n'"
  shows "node_carries P own sent n'"
proof (cases "nd_connections n (pong_VirtAddress p)")
  case None
  then show ?thesis using nc op by (simp add: onPong_def)
next
  case (Some q)
  from op Some obtain c where c: "nd_heap n q = Some c" and n': "n' = n\<lparr>nd_heap := (nd_heap n)(q \<mapsto> pong_received c now)\<rparr>"
    by (auto simp: onPong_def split: option.splits)
  have "conn_carries own sent (pong_received c now)"
    using node_carries_ran [OF nc c] by (simp add: conn_carries_def pong_received_def Let_def)
  moreover have "node_inv n'" using onPong_inv [OF _ op] nc by (simp add: node_carries_def)
  ultimately show ?thesis using node_carries_update [OF nc, of "pong_received c now" n' q "[]"] n' by simp
qed

lemma send_ack_carries:
  assumes "node_carries P own sent n" and "send_ack P n k = Ret n'"
  shows "node_carries P own sent n'"
  using assms node_carries_gateway_write [OF assms(1)] by (auto simp: send_ack_Ret_iff to_gateway_ok_def)

lemma connect_carries:
  assumes nc: "node_carries P own sent n" and op: "connect P dial n t now = Ret n'" and dial: "dials_exactly dial"
    and o: "own (tunnel_UdpAddress t) (tunnel_VirtAddress t)"
  shows "node_carries P own sent n'"
proof (cases "dial (tunnel_UdpAddress t)")
  case None
  then show ?thesis using nc op by (simp add: connect_def)
next
  case (Some r)
  then have r: "r = tunnel_UdpAddress t" using dial by (auto simp: dials_exactly_def)
  have inv: "node_inv (new_conn_node n t r now)" using new_conn_node_inv nc by (simp add: node_carries_def)
  have "node_carries P own sent (new_conn_node n t r now)"
    using o by (intro node_carries_update [OF nc _ inv, of _ "nd_next n" "[]"])
      (simp_all add: new_conn_node_def new_connection_def conn_carries_def r)
  then show ?thesis using op Some send_ack_carries by (auto simp: connect_unfold)
qed

lemma onOpenTunnel_carries:
  assumes nc: "node_carries P own sent n" and op: "onOpenTunnel P dial n t now = Ret n'" and dial: "dials_exactly dial"
    and o: "own (tunnel_UdpAddress t) (tunnel_VirtAddress t)"
  shows "node_carries P own sent n'"
proof (cases "nd_connections n (tunnel_VirtAddress t)")
  case None
  then show ?thesis using op connect_carries [OF nc _ dial o] by (simp add: onOpenTunnel_def)
next
  case (Some q)
  then obtain c where c: "nd_heap n q = Some c" using op by (auto simp: onOpenTunnel_def split: option.splits)
  let ?n = "n\<lparr>nd_heap := (nd_heap n)(q \<mapsto> conn_close c)\<rparr>"
  have ok: "conn_ok c" using node_inv_heapD c nc by (auto simp: node_carries_def)
  have "node_inv ?n"
    using conn_close_ok [OF ok] nc c node_inv_update [of n q c "conn_close c" ?n]
    by (simp add: node_carries_def conn_ok_life ok)
  moreover have "conn_carries own sent (conn_close c)"
    using node_carries_ran [OF nc c] by (simp add: conn_carries_def conn_close_def)
  ultimately have "node_carries P own sent ?n" using node_carries_update [OF nc, of "conn_close c" ?n q "[]"] by simp
  then show ?thesis using op Some c send_ack_carries [OF nc] connect_carries [where own = own and t = t, OF _ _ dial o]
    by (auto simp: onOpenTunnel_def split: if_splits)
qed

lemma handlePacket_carries:
  assumes nc: "node_carries P own sent n" and op: "handlePacket P dial rnd n d now = Ret n'"
    and P: "proto_roundtrip P" "proto_typed P" and dial: "dials_exactly dial"
    and inc: "incoming_ok P own sent (virt n) d"
  shows "node_carries P own sent n'"
  using inc unfolding incoming_ok_def
proof (elim disjE exE conjE)
  fix q assume "d = EncodeRaw q" "sent q (virt n)"
  then show ?thesis using op node_carries_deliver [OF nc] by (auto simp: handlePacket_EncodeRaw go_bind_Ret_iff)
next
  fix b assume "d = 4 # b"
  then show ?thesis using op nc onPing_carries [OF nc]
    by (auto simp: handlePacket_Cons [OF P(2)] split: sum.splits proto_message.splits)
next
  fix b assume "d = 5 # b"
  then show ?thesis using op nc onPong_carries [OF nc]
    by (auto simp: handlePacket_Cons [OF P(2)] split: sum.splits proto_message.splits)
next
  fix t assume "Encode P PacketType_OpenTunnel (MOpenTunnel t) = Ret d" "own (tunnel_UdpAddress t) (tunnel_VirtAddress t)"
  then show ?thesis using op onOpenTunnel_carries [OF nc _ dial] by (simp add: handlePacket_Encode(1) [OF P(1)])
qed

text \<open>A branch of a connection's loop that changes the connection and writes to the peer's socket.\<close>

lemma set_conn_carries:
  assumes nc: "node_carries P own sent n" and c: "nd_heap n p = Some c" and "node_inv (set_conn n p c' ds)"
    and "c_remote c' = c_remote c" "peerVirtAddr c' = peerVirtAddr c"
    and "set (chan_buf (c_pipeline c')) \<subseteq> set (chan_buf (c_pipeline c))"
    and "\<forall>d \<in> set ds. pipe_ok sent (peerVirtAddr c) d \<or> (\<exists>b. d = 4 # b)"
  shows "node_carries P own sent (set_conn n p c' ds)"
proof -
  have cc: "conn_carries own sent c" by (rule node_carries_ran [OF nc c])
  have "conn_carries own sent c'" using cc assms(4-6) by (auto simp: conn_carries_def)
  moreover have "to_peer_ok own sent (c_remote c) d" if "d \<in> set ds" for d
    using cc assms(7) that unfolding conn_carries_def to_peer_ok_def pipe_ok_def by blast
  then have "\<forall>(a, d) \<in> set (map (Pair (c_remote c')) ds). to_peer_ok own sent a d" using assms(4) by auto
  ultimately show ?thesis
    using node_carries_update [OF nc, of c' "set_conn n p c' ds" p "map (Pair (c_remote c')) ds"] assms(3)
    by (simp add: set_conn_def)
qed

lemma ping_bytes: "ping P rnd c = Ret d \<Longrightarrow> \<exists>b. d = 4 # b"
  by (auto simp: ping_def Encode_Ret_iff PacketType_defs)

lemma loop_branch_frame:
  "loop_connecting P rnd c now = Ret (c', ds) \<Longrightarrow> c_remote c' = c_remote c \<and> peerVirtAddr c' = peerVirtAddr c \<and>
     c_pipeline c' = c_pipeline c \<and> (\<forall>d \<in> set ds. \<exists>b. d = 4 # b)"
  "loop_keepalive P rnd c now = Ret (c', ds) \<Longrightarrow> c_remote c' = c_remote c \<and> peerVirtAddr c' = peerVirtAddr c \<and>
     c_pipeline c' = c_pipeline c \<and> (\<forall>d \<in> set ds. \<exists>b. d = 4 # b)"
  "loop_pipeline c = Ret (c', ds) \<Longrightarrow> c_remote c' = c_remote c \<and> peerVirtAddr c' = peerVirtAddr c \<and>
     chan_buf (c_pipeline c) = ds @ chan_buf (c_pipeline c')"
  using ping_bytes [of P rnd]
  by (auto simp: loop_connecting_def loop_keepalive_def loop_pipeline_def conn_close_def go_simps chan_simps split: if_splits)

lemma node_step_carries:
  assumes nc: "node_carries P own sent n" and step: "node_step P dial decode n l n'"
    and P: "proto_roundtrip P" "proto_typed P" and dial: "dials_exactly dial"
    and dev: "\<And>q now v. l = NDevRead q now \<Longrightarrow> addressed decode q v \<Longrightarrow> sent q v"
    and inc: "\<And>d now. l = NPacket d now \<Longrightarrow> incoming_ok P own sent (virt n) (take MaxBufferSize d)"
  shows "node_carries P own sent n'"
proof -
  have inv: "node_inv n'" using node_inv_step [OF step] nc by (simp add: node_carries_def)
  show ?thesis using step
  proof cases
    case (dev_read packet now)
    then show ?thesis using dev_read_carries [OF nc] dev by blast
  next
    case dev_write
    then show ?thesis using nc inv by (auto simp: dev_write_turn_def go_simps chan_simps node_carries_def virt_def)
  next
    case (packet rnd d now)
    then show ?thesis using handlePacket_carries [OF nc _ P dial] inc by blast
  next
    case (req_done v)
    then show ?thesis using nc inv by (simp add: node_carries_def request_done_def virt_def)
  next
    case beat
    then show ?thesis using node_carries_gateway_write [OF nc]
      by (auto simp: heartbeat_turn_def heartbeat_data_def go_bind_Ret_iff to_gateway_ok_def virt_def)
  next
    case (start p c now)
    then show ?thesis using inv set_conn_carries [OF nc start(3), of "loop_start c now" "[]"] by (simp add: loop_start_def)
  next
    case (connecting p c t now rnd c' ds)
    then show ?thesis using inv loop_branch_frame(1) [OF connecting(7)] set_conn_carries [OF nc connecting(3), of c' ds] by simp
  next
    case (keepalive p c rnd now c' ds)
    then show ?thesis using inv loop_branch_frame(2) [OF keepalive(5)] set_conn_carries [OF nc keepalive(3), of c' ds] by simp
  next
    case (pipeline p c c' ds)
    have "conn_carries own sent c" using pipeline node_carries_ran [OF nc] by blast
    then show ?thesis using pipeline inv loop_branch_frame(3) [OF pipeline(5)] set_conn_carries [OF nc pipeline(3), of c' ds]
      by (auto simp: conn_carries_def)
  next
    case (die p c c')
    then show ?thesis using inv set_conn_carries [OF nc die(3), of c' "[]"] by (auto simp: loop_die_def split: if_splits)
  next
    case (closed p c)
    have "conn_carries own sent (c\<lparr>c_closing := False\<rparr>)" using node_carries_ran [OF nc] closed by (auto simp: conn_carries_def)
    then show ?thesis using node_carries_update [OF nc, of "c\<lparr>c_closing := False\<rparr>" n' p "[]"] closed inv
      by (simp add: handleClosed_def set_conn_def)
  qed
qed

section \<open>The steps of the gateway\<close>

definition packet_ok :: "(string \<Rightarrow> string \<Rightarrow> bool) \<Rightarrow> (bytes \<Rightarrow> string \<Rightarrow> bool) \<Rightarrow> packet \<Rightarrow> bool" where
  "packet_ok own sent p \<longleftrightarrow> (case pk_message p of
     PayloadRaw q \<Rightarrow> \<exists>v. own (pk_destination p) v \<and> sent q v
   | PayloadProto m \<Rightarrow> \<exists>t. pk_typ p = PacketType_OpenTunnel \<and> m = MOpenTunnel t \<and> own (tunnel_UdpAddress t) (tunnel_VirtAddress t))"

definition from_gateway_ok :: "proto_lib \<Rightarrow> (string \<Rightarrow> string \<Rightarrow> bool) \<Rightarrow> (bytes \<Rightarrow> string \<Rightarrow> bool) \<Rightarrow> string \<Rightarrow> bytes \<Rightarrow> bool" where
  "from_gateway_ok P own sent a d \<longleftrightarrow> (\<exists>q v. d = EncodeRaw q \<and> sent q v \<and> own a v) \<or>
     (\<exists>t. Encode P PacketType_OpenTunnel (MOpenTunnel t) = Ret d \<and> own (tunnel_UdpAddress t) (tunnel_VirtAddress t))"

definition gw_carries :: "proto_lib \<Rightarrow> (string \<Rightarrow> string \<Rightarrow> bool) \<Rightarrow> (bytes \<Rightarrow> string \<Rightarrow> bool) \<Rightarrow> gateway \<Rightarrow> bool" where
  "gw_carries P own sent g \<longleftrightarrow> gw_inv g \<and> srv_peers (gw_server g) '''' = None \<and>
     (\<forall>v p. srv_peers (gw_server g) v = Some p \<longrightarrow> own (UDPAddress p) v) \<and>
     (\<forall>rp \<in> ran (nt_data (gw_notifier g)). packet_ok own sent (rp_packet rp)) \<and>
     (\<forall>p \<in> set (chan_buf (nt_queue (gw_notifier g))). packet_ok own sent p) \<and>
     (\<forall>p \<in># held (gw_pc g) + in_flight (gw_disp g). packet_ok own sent p) \<and>
     (\<forall>(d, a) \<in> set (gw_out g). from_gateway_ok P own sent a d)"

lemma worker_write_ok:
  assumes "packet_ok own sent p" and "worker_write P resolve p = Ret (Some (d, a))" and "dials_exactly resolve"
  shows "from_gateway_ok P own sent a d"
  using assms
  by (auto simp: packet_ok_def worker_write_def from_gateway_ok_def dials_exactly_def go_bind_Ret_iff
      split: option.splits payload.splits)

lemma tunnel_packet_ok:
  "own (UDPAddress q) (VirtAddress q) \<Longrightarrow> packet_ok own sent (tunnel_packet p q k)"
  by (auto simp: packet_ok_def tunnel_packet_def)

text \<open>What the gateway reads of a datagram from the node with virtual address \<open>v\<close>, whole or cut off.\<close>

lemma heartbeat_arrives:
  assumes "to_gateway_ok P sent v (0 # d)" and "proto_roundtrip P" "proto_cut P"
    and "proto_Unmarshal P (MHeartbeat \<lparr>heartbeat_VirtAddress = ''''\<rparr>) (take k d) = Inr (MHeartbeat hb)"
  shows "heartbeat_VirtAddress hb \<in> {v, ''''}"
proof -
  let ?m = "MHeartbeat \<lparr>heartbeat_VirtAddress = v\<rparr>"
  have d: "proto_Marshal P ?m = Inr d" using assms(1) by (auto simp: to_gateway_ok_def Encode_Ret_iff PacketType_defs)
  have get: "proto_Unmarshal P (proto_Reset ?m) (take k d) = Inr (MHeartbeat hb)" using assms(4) by (simp add: Reset_defs)
  show ?thesis
  proof (cases "k < length d")
    case True
    then show ?thesis using proto_cutD [OF assms(3) d True get] by auto
  next
    case False
    then show ?thesis using proto_roundtripD [OF assms(2) d] get by auto
  qed
qed

lemma relay_arrives:
  assumes "to_gateway_ok P sent v (1 # d)" and "proto_roundtrip P" "proto_cut P" and cut: "cut_closed P sent"
    and "proto_Unmarshal P (MRelay \<lparr>relay_VirtAddress = '''', relay_Data = []\<rparr>) (take (MaxBufferSize - 1) d) = Inr (MRelay r)"
  shows "relay_VirtAddress r = '''' \<or> sent (relay_Data r) (relay_VirtAddress r)"
proof -
  obtain w q where w: "Encode P PacketType_Relay (MRelay \<lparr>relay_VirtAddress = w, relay_Data = q\<rparr>) = Ret (1 # d)" "sent q w"
    using assms(1) by (auto simp: to_gateway_ok_def Encode_Ret_iff PacketType_defs)
  let ?m = "MRelay \<lparr>relay_VirtAddress = w, relay_Data = q\<rparr>"
  have d: "proto_Marshal P ?m = Inr d" using w(1) by (auto simp: Encode_Ret_iff PacketType_defs)
  have get: "proto_Unmarshal P (proto_Reset ?m) (take (MaxBufferSize - 1) d) = Inr (MRelay r)" using assms(5) by (simp add: Reset_defs)
  show ?thesis
  proof (cases "MaxBufferSize - 1 < length d")
    case True
    then have "\<not> fits P PacketType_Relay ?m" using fitsD [OF _ w(1)] by (auto simp: MaxBufferSize_def)
    then have "sent [] w" using cut w(2) by (auto simp: cut_closed_def)
    then show ?thesis using proto_cutD [OF assms(3) d True get] w(2) by auto
  next
    case False
    then show ?thesis using proto_roundtripD [OF assms(2) d] get w(2) by auto
  qed
qed

lemma recv_carries:
  assumes gc: "gw_carries P own sent g" and step: "gw_step P resolve vars semver g (LRecv a d now) g'"
    and P: "proto_roundtrip P" "proto_typed P" "proto_cut P" and cut: "cut_closed P sent"
    and own: "own a v" and dok: "to_gateway_ok P sent v d"
  shows "gw_carries P own sent g'"
proof -
  have inv: "gw_inv g'" using gw_inv_step [OF _ P(2) step] gc by (simp add: gw_carries_def)
  from step obtain s' where turn: "serve_turn P (gw_server g) a d now = Ret s'"
    and g': "g' = g\<lparr>gw_server := s', gw_relayed := gw_relayed g @ newly_queued (gw_notifier g) (srv_notifier s')\<rparr>"
    by (rule gw_recvE) auto
  obtain b e where d: "d = b # e" using dok by (auto simp: to_gateway_ok_def Encode_Ret_iff)
  then obtain err where "process P (gw_server g) a (b # take (MaxBufferSize - 1) e) now = Ret (err, s')"
    using turn by (auto simp: serve_turn_def MaxBufferSize_def go_simps take_Cons')
  from P(2) this show ?thesis
  proof (cases rule: process_Ret_cases)
    case unchanged
    then show ?thesis using gc inv unfolding g' by (simp add: gw_carries_def gw_notifier_def)
  next
    case (heartbeat hb)
    then have v: "heartbeat_VirtAddress hb = v" using heartbeat_arrives [OF _ P(1,3)] dok d by fastforce
    have "own (UDPAddress p) w" if "srv_peers (Heartbeat (gw_server g) a hb now) w = Some p" for w p
      using that gc own v by (auto simp: gw_carries_def Heartbeat_def Let_def split: option.splits if_splits)
    moreover have "srv_peers (Heartbeat (gw_server g) a hb now) '''' = None"
      using gc heartbeat(3) by (auto simp: gw_carries_def Heartbeat_def Let_def split: option.splits)
    ultimately show ?thesis using gc inv heartbeat(4) unfolding g' by (auto simp: gw_carries_def gw_notifier_def)
  next
    case (relayed r dst q)
    have "relay_VirtAddress r \<noteq> ''''" using relayed(4) gc by (auto simp: gw_carries_def Peer_def)
    then have "sent (relay_Data r) (relay_VirtAddress r)" using relay_arrives [OF _ P(1,3) cut relayed(3)] dok d relayed(1) by auto
    then have "packet_ok own sent \<lparr>pk_destination = UDPAddress dst, pk_typ = PacketType_Data, pk_message = PayloadRaw (relay_Data r)\<rparr>"
      using relayed(4) gc by (auto simp: gw_carries_def packet_ok_def Peer_def)
    then show ?thesis using gc inv relayed(5,6) unfolding g' by (auto simp: relay_Ret_iff gw_carries_def gw_notifier_def)
  next
    case (acked k)
    have "ran ((nt_data (gw_notifier g))(k := None)) \<subseteq> ran (nt_data (gw_notifier g))" by (auto simp: ran_def)
    then show ?thesis using gc inv acked(3) unfolding g' by (auto simp: gw_carries_def gw_notifier_def openTunnelAck_def)
  qed
qed

lemma http_carries:
  assumes gc: "gw_carries P own sent g" and step: "gw_step P resolve vars semver g (LHttp req) g'"
  shows "gw_carries P own sent g'"
proof -
  have inv: "gw_inv g'" using gw_inv_http [OF _ step] gc by (simp add: gw_carries_def)
  from step obtain r s' where r: "Server_OpenTunnel vars semver Notifier_OpenTunnel (gw_server g) req = (r, s')"
    and g': "g' = g\<lparr>gw_server := s'\<rparr>" by (rule gw_httpE) auto
  show ?thesis
  proof (cases r)
    case (Inl e)
    then show ?thesis using r g' gc by (auto dest: Server_OpenTunnel_Inl_frame)
  next
    case (Inr res)
    with r obtain p q where pq: "srv_peers (gw_server g) (req_Source req) = Some p"
        "srv_peers (gw_server g) (req_Destination req) = Some q"
      and s': "s' = (gw_server g)\<lparr>srv_notifier := Notifier_OpenTunnel (gw_notifier g) p q\<rparr>"
      by (auto simp: Server_OpenTunnel_Inr_iff gw_notifier_def Peer_def)
    have "VirtAddress p = req_Source req" "VirtAddress q = req_Destination req"
      using gc pq by (auto simp: gw_carries_def gw_inv_def peers_wf_def)
    then have ok: "packet_ok own sent (tunnel_packet p q k)" "packet_ok own sent (tunnel_packet q p k)" for k
      using gc pq by (auto simp: gw_carries_def intro!: tunnel_packet_ok)
    have "packet_ok own sent (rp_packet rp)" if "rp \<in> ran (nt_data (Notifier_OpenTunnel (gw_notifier g) p q))" for rp
      using that gc ok
      by (auto simp: gw_carries_def ran_def Notifier_OpenTunnel_def open_one_def Let_def split: if_splits)
    then show ?thesis using gc inv unfolding g' s' by (auto simp: gw_carries_def)
  qed
qed

lemma gw_step_carries:
  assumes gc: "gw_carries P own sent g" and step: "gw_step P resolve vars semver g l g'" and "gw_internal l"
    and P: "proto_typed P" and exact: "dials_exactly resolve"
  shows "gw_carries P own sent g'"
proof -
  have inv: "gw_inv g'" using gw_inv_step [OF _ P step] gc by (simp add: gw_carries_def)
  show ?thesis using step
  proof cases
    case recv
    then show ?thesis using \<open>gw_internal l\<close> by (simp add: gw_internal_def)
  next
    case (http req r s')
    then show ?thesis using http_carries [OF gc] step by blast
  next
    case (queue p c)
    then show ?thesis using gc inv gochan.rcv_contents [OF queue(4)] by (auto simp: gw_carries_def set_notifier_def)
  next
    case (send p d)
    then show ?thesis using gc inv dispatch_conserves [OF send(4)] by (auto simp: gw_carries_def)
  next
    case (retrying k ks n d)
    have wf: "table_wf (gw_notifier g)" using gc by (simp add: gw_carries_def gw_inv_def)
    have n: "n = gw_notifier g" using retry_entry_keeps [OF wf retrying(4)] .
    have "\<forall>p \<in># in_flight d. packet_ok own sent p"
    proof (cases "nt_data (gw_notifier g) k")
      case None
      then show ?thesis using retrying gc by (auto simp: retry_entry_def gw_carries_def)
    next
      case (Some rp)
      then have "rp_packet rp \<in> rp_packet ` ran (nt_data (gw_notifier g))" by (auto simp: ran_def)
      then have "packet_ok own sent (rp_packet rp)" using gc by (auto simp: gw_carries_def)
      then show ?thesis using retrying(4) Some gc dispatch_conserves
        by (fastforce simp: retry_entry_def gw_carries_def go_bind_Ret_iff split: if_splits)
    qed
    then show ?thesis using gc inv retrying(2) unfolding n by (auto simp: gw_carries_def set_notifier_def)
  next
    case (worker i p c w)
    note fl = in_flight_worker [OF worker(3,4)]
    have "packet_ok own sent p" using gc fl by (auto simp: gw_carries_def)
    then show ?thesis using gc inv worker fl worker_write_ok [OF _ _ exact]
      by (auto simp: gw_carries_def split: option.splits)
  qed (use gc inv in \<open>auto simp: gw_carries_def set_notifier_def\<close>)
qed

section \<open>The invariant of the network\<close>

lemma carries_mono:
  assumes "\<And>q v. sent q v \<Longrightarrow> sent' q v"
  shows "node_carries P own sent n \<Longrightarrow> node_carries P own sent' n"
    and "gw_carries P own sent g \<Longrightarrow> gw_carries P own sent' g"
proof -
  have "pipe_ok sent v d \<Longrightarrow> pipe_ok sent' v d" "to_gateway_ok P sent v d \<Longrightarrow> to_gateway_ok P sent' v d"
    "to_peer_ok own sent a d \<Longrightarrow> to_peer_ok own sent' a d" "from_gateway_ok P own sent a d \<Longrightarrow> from_gateway_ok P own sent' a d"
    "packet_ok own sent p \<Longrightarrow> packet_ok own sent' p" for v a d p
    using assms by (auto simp: pipe_ok_def to_gateway_ok_def to_peer_ok_def from_gateway_ok_def packet_ok_def
        split: payload.splits)
  note mono = this
  then have "conn_carries own sent c \<Longrightarrow> conn_carries own sent' c" for c by (auto simp: conn_carries_def)
  with mono assms show "node_carries P own sent n \<Longrightarrow> node_carries P own sent' n" by (auto simp: node_carries_def)
  from mono show "gw_carries P own sent g \<Longrightarrow> gw_carries P own sent' g" by (auto simp: gw_carries_def)
qed

definition mesh_own :: "(nat \<Rightarrow> string set) \<Rightarrow> mesh \<Rightarrow> string \<Rightarrow> string \<Rightarrow> bool" where
  "mesh_own addr m a v \<longleftrightarrow> (\<exists>i. a \<in> addr i \<and> v = virt (mesh_nodes m i))"

text \<open>A packet is whole when neither its raw datagram nor its relay datagram is longer than the receive buffers.\<close>

definition whole :: "proto_lib \<Rightarrow> string \<Rightarrow> bytes \<Rightarrow> bool" where
  "whole P v p \<longleftrightarrow> length p < MaxBufferSize \<and> fits P PacketType_Relay (MRelay \<lparr>relay_VirtAddress = v, relay_Data = p\<rparr>)"

definition mesh_sent :: "proto_lib \<Rightarrow> (bytes \<Rightarrow> (byte \<times> byte \<times> byte \<times> byte) option) \<Rightarrow> mesh \<Rightarrow> bytes \<Rightarrow> string \<Rightarrow> bool" where
  "mesh_sent P decode m q v \<longleftrightarrow> (\<exists>i p. (i, p) \<in> set (mesh_read m) \<and> addressed decode p v \<and> (q = p \<or> \<not> whole P v p \<and> prefix q p))"

lemma mesh_sent_cut_closed: "cut_closed P (mesh_sent P decode m)"
proof -
  have "mesh_sent P decode m q' v" if "mesh_sent P decode m q v" and "\<not> whole P v q" and "prefix q' q" for q q' v
    using that unfolding mesh_sent_def by (metis prefix_order.trans)
  moreover have "prefix (take n q) q" for n and q :: bytes by (rule take_is_prefix)
  moreover have "\<not> whole P v q" if "MaxBufferSize \<le> length q \<or> \<not> fits P PacketType_Relay (MRelay \<lparr>relay_VirtAddress = v, relay_Data = q\<rparr>)" for q v
    using that by (auto simp: whole_def)
  ultimately show ?thesis unfolding cut_closed_def by (metis Nil_prefix)
qed

definition mesh_inv ::
  "proto_lib \<Rightarrow> (bytes \<Rightarrow> (byte \<times> byte \<times> byte \<times> byte) option) \<Rightarrow> (nat \<Rightarrow> string set) \<Rightarrow> mesh \<Rightarrow> bool" where
  "mesh_inv P decode addr m \<longleftrightarrow>
     (\<forall>i. node_carries P (mesh_own addr m) (mesh_sent P decode m) (mesh_nodes m i)) \<and>
     gw_carries P (mesh_own addr m) (mesh_sent P decode m) (mesh_gateway m)"

text \<open>No two nodes share an address.\<close>

definition apart :: "(nat \<Rightarrow> string set) \<Rightarrow> bool" where
  "apart addr \<longleftrightarrow> (\<forall>i j. i \<noteq> j \<longrightarrow> addr i \<inter> addr j = {})"

lemma own_here: "apart addr \<Longrightarrow> a \<in> addr i \<Longrightarrow> mesh_own addr m a v \<Longrightarrow> v = virt (mesh_nodes m i)"
  by (auto simp: apart_def mesh_own_def) (metis disjoint_iff)

text \<open>Replacing one node, and possibly adding to the history, keeps the invariant if the new node is fine.\<close>

lemma mesh_inv_node:
  assumes inv: "mesh_inv P decode addr m" and n: "virt n = virt (mesh_nodes m i)"
    and m': "m' = m\<lparr>mesh_nodes := (mesh_nodes m)(i := n), mesh_read := mesh_read m @ rd\<rparr>"
    and nc: "node_carries P (mesh_own addr m) (mesh_sent P decode m') n"
  shows "mesh_inv P decode addr m'"
proof -
  have own: "mesh_own addr m' = mesh_own addr m"
    using n by (auto simp: mesh_own_def m' fun_eq_iff)
  have "mesh_sent P decode m q v \<Longrightarrow> mesh_sent P decode m' q v" for q v by (auto simp: mesh_sent_def m')
  note mono = carries_mono [of "mesh_sent P decode m" "mesh_sent P decode m'", OF this]
  show ?thesis using inv mono nc unfolding mesh_inv_def own by (auto simp: m')
qed

lemma mesh_inv_set_node:
  assumes "mesh_inv P decode addr m" and "virt n = virt (mesh_nodes m i)"
    and "node_carries P (mesh_own addr m) (mesh_sent P decode m) n"
  shows "mesh_inv P decode addr (m\<lparr>mesh_nodes := (mesh_nodes m)(i := n)\<rparr>)"
proof -
  have "mesh_sent P decode (m\<lparr>mesh_nodes := (mesh_nodes m)(i := n)\<rparr>) = mesh_sent P decode m" by (simp add: mesh_sent_def fun_eq_iff)
  then show ?thesis using mesh_inv_node [OF assms(1,2), of _ "[]"] assms(3) by simp
qed

lemma mesh_inv_gateway:
  assumes "mesh_inv P decode addr m" and "gw_carries P (mesh_own addr m) (mesh_sent P decode m) g"
  shows "mesh_inv P decode addr (m\<lparr>mesh_gateway := g\<rparr>)"
proof -
  have "mesh_own addr (m\<lparr>mesh_gateway := g\<rparr>) = mesh_own addr m" "mesh_sent P decode (m\<lparr>mesh_gateway := g\<rparr>) = mesh_sent P decode m"
    by (auto simp: mesh_own_def mesh_sent_def fun_eq_iff)
  then show ?thesis using assms by (simp add: mesh_inv_def)
qed

lemma node_step_virt: "node_step P dial decode n l n' \<Longrightarrow> virt n' = virt n"
  by (simp add: virt_def node_step_opt)

lemma mesh_inv_step:
  assumes inv: "mesh_inv P decode addr m" and step: "mesh_step P dial resolve decode vars semver addr m m'"
    and P: "proto_roundtrip P" "proto_typed P" "proto_cut P" and exact: "dials_exactly dial" "dials_exactly resolve" and sep: "apart addr"
    and fit: "tunnels_fit P (mesh_own addr m)"
  shows "mesh_inv P decode addr m'"
proof -
  let ?own = "mesh_own addr m" and ?sent = "mesh_sent P decode m"
  have cut: "cut_closed P ?sent" by (rule mesh_sent_cut_closed)
  have nc: "node_carries P ?own ?sent (mesh_nodes m i)" for i using inv by (simp add: mesh_inv_def)
  have gc: "gw_carries P ?own ?sent (mesh_gateway m)" using inv by (simp add: mesh_inv_def)
  note node = mesh_inv_set_node [OF inv]
  show ?thesis using step
  proof cases
    case (node_internal l i n)
    then have "node_carries P ?own ?sent n" using node_step_carries [OF nc node_internal(3) P(1,2) exact(1)] by (cases l) (auto simp: internal_def)
    then show ?thesis using node [OF node_step_virt [OF node_internal(3)]] node_internal(1) by simp
  next
    case (device i packet now n)
    have grows: "?sent q v \<Longrightarrow> mesh_sent P decode m' q v" for q v by (auto simp: mesh_sent_def device(1))
    have nc': "node_carries P ?own (mesh_sent P decode m') (mesh_nodes m i)"
      by (rule carries_mono(1) [of ?sent, OF grows nc])
    have "node_carries P ?own (mesh_sent P decode m') n"
      using node_step_carries [OF nc' device(2) P(1,2) exact(1)]
      by (auto simp: mesh_sent_def device(1))
    then show ?thesis using mesh_inv_node [OF inv node_step_virt [OF device(2)], of m' "[(i, packet)]"] device(1) by simp
  next
    case (gateway_internal l g)
    then show ?thesis using mesh_inv_gateway [OF inv] gw_step_carries [OF gc _ _ P(2) exact(2)] by simp
  next
    case (to_gateway d i a now g)
    have "?own a (virt (mesh_nodes m i))" using to_gateway(3) by (auto simp: mesh_own_def)
    moreover have "to_gateway_ok P ?sent (virt (mesh_nodes m i)) d" using nc to_gateway(2) by (auto simp: node_carries_def)
    ultimately show ?thesis using mesh_inv_gateway [OF inv] recv_carries [OF gc to_gateway(4) P cut] to_gateway(1) by simp
  next
    case (from_gateway d a i now n)
    have "from_gateway_ok P ?own ?sent a d" using gc from_gateway(2) by (auto simp: gw_carries_def)
    then have "incoming_ok P ?own ?sent (virt (mesh_nodes m i)) (take MaxBufferSize d)"
      using own_here [OF sep from_gateway(3)] incoming_raw [OF cut] incoming_tunnel [OF fit] unfolding from_gateway_ok_def by blast
    then have "node_carries P ?own ?sent n" using node_step_carries [OF nc from_gateway(4) P(1,2) exact(1)] by auto
    then show ?thesis using node [OF node_step_virt [OF from_gateway(4)]] from_gateway(1) by simp
  next
    case (from_peer a d j i now n)
    have "to_peer_ok ?own ?sent a d" using nc [of j] from_peer(2) by (auto simp: node_carries_def)
    then have "incoming_ok P ?own ?sent (virt (mesh_nodes m i)) (take MaxBufferSize d)"
      using own_here [OF sep from_peer(3)] incoming_raw [OF cut] incoming_peer unfolding to_peer_ok_def by blast
    then have "node_carries P ?own ?sent n" using node_step_carries [OF nc from_peer(4) P(1,2) exact(1)] by auto
    then show ?thesis using node [OF node_step_virt [OF from_peer(4)]] from_peer(1) by simp
  qed
qed

lemma mesh_start_inv:
  assumes "mesh_start opts envs concurrency key m"
  shows "mesh_inv P decode addr m"
proof -
  have "node_carries P own sent (mesh_nodes m i)" for own sent i
  proof -
    have up: "Serve_setup (envs i) (New (opts i)) = (None, mesh_nodes m i)" using assms by (simp add: mesh_start_def)
    then have "mesh_nodes m i = (New (opts i))\<lparr>nd_mask := IP_Mask (ParseIP (opt_Address (opts i))) [255, 255, 0, 0], nd_gateway := True\<rparr>"
      by (auto simp: Serve_setup_def New_def Let_def split: sum.splits option.splits)
    then have "chan_buf (nd_pipeline (mesh_nodes m i)) = []" "nd_dev_out (mesh_nodes m i) = []" "nd_heap (mesh_nodes m i) = Map.empty"
      "nd_gateway_out (mesh_nodes m i) = []" "nd_peer_out (mesh_nodes m i) = []" by (simp_all add: New_def)
    then show ?thesis using Serve_setup_up(1) [OF up] by (simp add: node_carries_def)
  qed
  moreover have "gw_carries P own sent (mesh_gateway m)" for own sent
  proof -
    obtain d where d: "start_dispatcher concurrency = Ret d" "mesh_gateway m = gw_init key d"
      using assms by (auto simp: mesh_start_def)
    then have "in_flight d = {#}" by (auto simp: start_dispatcher_def in_flight_def split: if_splits)
    then show ?thesis using gw_init_inv [OF d(1), of key] d(2)
      by (simp add: gw_carries_def gw_init_def gw_notifier_def NewServer_def newNotifier_def)
  qed
  ultimately show ?thesis by (simp add: mesh_inv_def)
qed

lemma mesh_run_virt:
  assumes "mesh_run P dial resolve decode vars semver addr m m'"
  shows "virt (mesh_nodes m' i) = virt (mesh_nodes m i)"
  using assms
proof (induction rule: mesh_run.induct)
  case (run_step m' m'')
  from run_step(2) have "virt (mesh_nodes m'' i) = virt (mesh_nodes m' i)" by cases (auto simp: node_step_virt)
  then show ?case using run_step by simp
qed simp

lemma mesh_run_inv:
  assumes "mesh_run P dial resolve decode vars semver addr m m'" and "mesh_inv P decode addr m"
    and "proto_roundtrip P" "proto_typed P" "proto_cut P" and "dials_exactly dial" "dials_exactly resolve" and "apart addr"
    and "tunnels_fit P (mesh_own addr m)"
  shows "mesh_inv P decode addr m'"
  using assms
proof (induction rule: mesh_run.induct)
  case (run_step m' m'')
  have "mesh_own addr m' = mesh_own addr m" using mesh_run_virt [OF run_step(1)] by (simp add: mesh_own_def fun_eq_iff)
  then show ?case using run_step mesh_inv_step [OF _ run_step(2)] by simp
qed simp

lemma mesh_start_virt: "mesh_start opts envs concurrency key m \<Longrightarrow> virt (mesh_nodes m i) = opt_Address (opts i)"
  unfolding mesh_start_def virt_def using Serve_setup_up(2) by metis

end
