(* ===== verification/Wire.thy ===== *)
theory Wire
  imports Codec Constant
begin

text \<open>
  An instance of the protobuf library. The runtime of \<open>google.golang.org/protobuf\<close> is not in the repository, and the theorems speak about any
  \<open>proto_lib\<close> with the documented properties they name. This theory shows that these properties can hold together: a marshaller and
  a reader for the six control messages in the documented encoding, with the field numbers and types of the struct tags of
  \<open>message/api.pb.go\<close>. A message is a sequence of records, each a tag (field number and wire type) and a value, fields with the zero value are
  left out, a reader skips records it does not know and the last record of a field wins. It satisfies \<open>proto_roundtrip\<close>,
  \<open>proto_typed\<close>, \<open>marshals\<close>, \<open>proto_utf8\<close> and \<open>proto_cut\<close>, and the witnesses use it.
  Groups, the two wire types no message of the schema has, are refused by the reader.
\<close>

section \<open>Prefix codes\<close>

text \<open>
  A reader takes a value off the front of its input and returns the rest. The law of such a pair is
  stated once; sequences of values are read back by repetition.
\<close>

fun get_many :: "(bytes \<Rightarrow> ('a \<times> bytes) option) \<Rightarrow> nat \<Rightarrow> bytes \<Rightarrow> 'a list option" where
  "get_many get n [] = Some []"
| "get_many get 0 (b # d) = None"
| "get_many get (Suc n) (b # d) =
     (case get (b # d) of None \<Rightarrow> None | Some (x, r) \<Rightarrow> map_option (Cons x) (get_many get n r))"

definition get_all :: "(bytes \<Rightarrow> ('a \<times> bytes) option) \<Rightarrow> bytes \<Rightarrow> 'a list option" where
  "get_all get d = get_many get (length d) d"

locale prefix_code =
  fixes put :: "'a \<Rightarrow> bytes"
    and get :: "bytes \<Rightarrow> ('a \<times> bytes) option"
    and ok :: "'a \<Rightarrow> bool"
  assumes get_put: "ok x \<Longrightarrow> get (put x @ r) = Some (x, r)"
    and get_shorter: "get d = Some (x, r) \<Longrightarrow> length r < length d"
begin

lemma put_length: "ok x \<Longrightarrow> 0 < length (put x)"
  using get_shorter [of "put x @ []" x "[]"] get_put [of x "[]"] by force

lemma put_prefix_inject: "ok x \<Longrightarrow> ok y \<Longrightarrow> put x @ r = put y @ s \<Longrightarrow> x = y \<and> r = s"
  using get_put [of x r] get_put [of y s] by (metis option.inject prod.inject)

text \<open>The fuel, one unit per byte, is enough: a longer one changes nothing.\<close>

lemma get_many_fuel: "length d \<le> n \<Longrightarrow> get_many get n d = get_all get d"
  unfolding get_all_def
proof (induction "length d" arbitrary: d n rule: less_induct)
  case less
  show ?case
  proof (cases d)
    case (Cons b e)
    then obtain n' where n: "n = Suc n'" using less.prems by (cases n) auto
    show ?thesis
    proof (cases "get d")
      case (Some p)
      obtain x r where p: "p = (x, r)" by (cases p)
      then have "length r < length d" using get_shorter Some by blast
      then have "get_many get n' r = get_many get (length r) r" "get_many get (length e) r = get_many get (length r) r"
        using less.hyps [of r n'] less.hyps [of r "length e"] less.prems n Cons by (simp_all only: length_Cons)
      then show ?thesis using Some p n Cons by simp
    qed (use Cons n in simp)
  qed simp
qed

lemma get_all_put: "list_all ok xs \<Longrightarrow> get_all get (concat (map put xs)) = Some xs"
proof (induction xs)
  case Nil
  then show ?case by (simp add: get_all_def)
next
  case (Cons x xs)
  let ?t = "concat (map put xs)"
  obtain b e where be: "put x @ ?t = b # e" using put_length [of x] Cons.prems by (cases "put x") auto
  have "length ?t \<le> length e"
    using arg_cong [OF be, of length] put_length [of x] Cons.prems by (simp add: length_append del: length_greater_0_conv)
  then have "get_many get (length e) ?t = Some xs" using get_many_fuel Cons by simp
  with get_put [of x ?t] Cons.prems be show ?case by (simp add: get_all_def)
qed

end

text \<open>A code whose reader also refuses every value that is cut short.\<close>

locale cut_code = prefix_code +
  assumes get_cut: "ok x \<Longrightarrow> n < length (put x) \<Longrightarrow> get (take n (put x)) = None"
begin

lemma get_all_append:
  assumes "ok x"
  shows "get_all get (put x @ r) = map_option (Cons x) (get_all get r)"
proof -
  obtain b e where be: "put x @ r = b # e" using put_length [OF assms] by (cases "put x") auto
  have "length r \<le> length e"
    using arg_cong [OF be, of length] put_length [OF assms] by (simp add: length_append del: length_greater_0_conv)
  then have "get_many get (length e) r = get_all get r" by (rule get_many_fuel)
  then show ?thesis using get_put [OF assms, of r] be by (simp add: get_all_def)
qed

text \<open>Of a sequence that is cut short some values are read back, and at least one is missing, or nothing is.\<close>

lemma get_all_cut:
  assumes "list_all ok xs" and "n < length (concat (map put xs))" and "get_all get (take n (concat (map put xs))) = Some ys"
  shows "\<exists>k < length xs. ys = take k xs"
  using assms
proof (induction xs arbitrary: n ys)
  case (Cons x xs)
  have ok: "ok x" "list_all ok xs" using Cons.prems(1) by simp_all
  show ?case
  proof (cases "n < length (put x)")
    case True
    then have "get_all get (take n (put x)) = Some ys" using Cons.prems(3) by simp
    moreover have "get (take n (put x)) = None" by (rule get_cut [OF ok(1) True])
    ultimately have "ys = []" by (cases "take n (put x)") (auto simp: get_all_def)
    then show ?thesis by (intro exI [of _ 0]) simp
  next
    case False
    let ?n = "n - length (put x)"
    have "take n (concat (map put (x # xs))) = put x @ take ?n (concat (map put xs))" using False by simp
    then obtain zs where zs: "get_all get (take ?n (concat (map put xs))) = Some zs" "ys = x # zs"
      using Cons.prems(3) get_all_append [OF ok(1)] by auto
    moreover have "?n < length (concat (map put xs))" using Cons.prems(2) False by simp
    ultimately obtain k where "k < length xs" "zs = take k xs" using Cons.IH [OF ok(2)] by blast
    then show ?thesis using zs(2) by (intro exI [of _ "Suc k"]) simp
  qed
qed simp

end

section \<open>Variable-length integers\<close>

fun put_varint :: "nat \<Rightarrow> bytes" where
  "put_varint n = (if n < 128 then [of_nat n] else of_nat (n mod 128 + 128) # put_varint (n div 128))"

declare put_varint.simps [simp del]

text \<open>At most ten bytes, and the tenth carries the last of the 64 bits; \<open>k\<close> counts the bytes read.\<close>

fun get_varint_at :: "nat \<Rightarrow> bytes \<Rightarrow> (nat \<times> bytes) option" where
  "get_varint_at k [] = None"
| "get_varint_at k (b # r) =
     (if 9 \<le> k \<and> 1 < unat b then None
      else if unat b < 128 then Some (unat b, r)
      else map_option (\<lambda>(n, r'). (unat b - 128 + 128 * n, r')) (get_varint_at (Suc k) r))"

definition get_varint :: "bytes \<Rightarrow> (nat \<times> bytes) option" where
  "get_varint d = get_varint_at 0 d"

lemma unat_byte_of_nat: "n < 256 \<Longrightarrow> unat (of_nat n :: byte) = n"
  by (simp add: unat_of_nat)

lemma get_varint_at_put:
  "k \<le> 9 \<Longrightarrow> n < 2 ^ (64 - 7 * k) \<Longrightarrow> get_varint_at k (put_varint n @ r) = Some (n, r)"
proof (induction n arbitrary: k rule: put_varint.induct)
  case (1 n)
  show ?case
  proof (cases "n < 128")
    case True
    have "k = 9 \<Longrightarrow> n < 2" using "1.prems"(2) by simp
    then show ?thesis using True "1.prems"(1) by (auto simp: put_varint.simps [of n] unat_byte_of_nat)
  next
    case False
    then have k: "k < 9" using "1.prems" by (cases "k = 9") simp_all
    then have "(2 :: nat) ^ (64 - 7 * k) = 128 * 2 ^ (64 - 7 * Suc k)"
      using power_add [of "2 :: nat" 7 "64 - 7 * Suc k"] by (simp add: Suc_diff_le)
    then have "n div 128 < 2 ^ (64 - 7 * Suc k)" using "1.prems"(2) by (simp add: less_mult_imp_div_less mult.commute)
    then have "get_varint_at (Suc k) (put_varint (n div 128) @ r) = Some (n div 128, r)"
      using "1.IH" [OF False, of "Suc k"] k by simp
    moreover have "unat (of_nat (n mod 128 + 128) :: byte) = n mod 128 + 128" by (rule unat_byte_of_nat) simp
    ultimately show ?thesis using False k by (simp add: put_varint.simps [of n])
  qed
qed

lemma get_varint_at_shorter: "get_varint_at k d = Some (n, r) \<Longrightarrow> length r < length d"
  by (induction k d arbitrary: n rule: get_varint_at.induct) (fastforce split: if_splits)+

lemma get_varint_at_cut: "j < length (put_varint n) \<Longrightarrow> get_varint_at k (take j (put_varint n)) = None"
proof (induction n arbitrary: k j rule: put_varint.induct)
  case (1 n)
  show ?case
  proof (cases "n < 128")
    case True
    then show ?thesis using "1.prems" by (simp add: put_varint.simps [of n])
  next
    case False
    have "unat (of_nat (n mod 128 + 128) :: byte) = n mod 128 + 128" by (rule unat_byte_of_nat) simp
    then show ?thesis using "1.prems" "1.IH" [OF False] False by (cases j) (simp_all add: put_varint.simps [of n])
  qed
qed

interpretation varint: cut_code put_varint get_varint "\<lambda>n. n < 2 ^ 64"
proof (unfold_locales, goal_cases)
  case (1 n r)
  then show ?case using get_varint_at_put [of 0 n r] by (simp add: get_varint_def)
next
  case (2 d n r)
  then show ?case using get_varint_at_shorter by (simp add: get_varint_def)
next
  case (3 n j)
  then show ?case using get_varint_at_cut by (simp add: get_varint_def)
qed

lemma length_put_varint: "length (put_varint n) = varint_size n"
  by (induction n rule: put_varint.induct) (simp add: put_varint.simps varint_size.simps)

section \<open>Records\<close>

datatype wire_value =
    WVarint nat
  | WFixed64 bytes
  | WBytes bytes
  | WFixed32 bytes

type_synonym wire_record = "nat \<times> wire_value"

fun wire_type :: "wire_value \<Rightarrow> nat" where
  "wire_type (WVarint _) = 0"
| "wire_type (WFixed64 _) = 1"
| "wire_type (WBytes _) = 2"
| "wire_type (WFixed32 _) = 5"

fun put_value :: "wire_value \<Rightarrow> bytes" where
  "put_value (WVarint n) = put_varint n"
| "put_value (WFixed64 b) = b"
| "put_value (WBytes b) = put_varint (length b) @ b"
| "put_value (WFixed32 b) = b"

definition put_record :: "wire_record \<Rightarrow> bytes" where
  "put_record = (\<lambda>(k, v). put_varint (8 * k + wire_type v) @ put_value v)"

definition get_fixed :: "nat \<Rightarrow> (bytes \<Rightarrow> wire_value) \<Rightarrow> bytes \<Rightarrow> (wire_value \<times> bytes) option" where
  "get_fixed n f d = (if n \<le> length d then Some (f (take n d), drop n d) else None)"

definition get_value :: "nat \<Rightarrow> bytes \<Rightarrow> (wire_value \<times> bytes) option" where
  "get_value t d =
     (if t = 0 then map_option (map_prod WVarint id) (get_varint d)
      else if t = 1 then get_fixed 8 WFixed64 d
      else if t = 2 then (case get_varint d of None \<Rightarrow> None | Some (n, r) \<Rightarrow> get_fixed n WBytes r)
      else if t = 5 then get_fixed 4 WFixed32 d
      else None)"

definition get_record :: "bytes \<Rightarrow> (wire_record \<times> bytes) option" where
  "get_record d =
     (case get_varint d of None \<Rightarrow> None
      | Some (tag, r) \<Rightarrow>
          if tag div 8 < 1 \<or> 2 ^ 29 \<le> int (tag div 8) then None
          else map_option (map_prod (Pair (tag div 8)) id) (get_value (tag mod 8) r))"

fun ok_value :: "wire_value \<Rightarrow> bool" where
  "ok_value (WVarint n) \<longleftrightarrow> n < 2 ^ 64"
| "ok_value (WFixed64 b) \<longleftrightarrow> length b = 8"
| "ok_value (WBytes b) \<longleftrightarrow> length b < 2 ^ 64"
| "ok_value (WFixed32 b) \<longleftrightarrow> length b = 4"

definition ok_record :: "wire_record \<Rightarrow> bool" where
  "ok_record = (\<lambda>(k, v). 1 \<le> k \<and> k < 2 ^ 29 \<and> ok_value v)"

lemma wire_type_lt: "wire_type v < 8"
  by (cases v) auto

lemma get_value_put: "ok_value v \<Longrightarrow> get_value (wire_type v) (put_value v @ r) = Some (v, r)"
  using varint.get_put by (cases v) (simp_all add: get_value_def get_fixed_def)

lemma get_value_shorter: "get_value t d = Some (v, r) \<Longrightarrow> length r \<le> length d"
  using varint.get_shorter by (fastforce simp: get_value_def get_fixed_def split: if_splits option.splits)

lemma get_record_put:
  assumes "ok_record x"
  shows "get_record (put_record x @ r) = Some (x, r)"
proof -
  obtain k v where x: "x = (k, v)" by (cases x)
  have k: "1 \<le> k" "k < 2 ^ 29" "ok_value v" using assms by (simp_all add: ok_record_def x)
  have "8 * k + wire_type v < 2 ^ 64" using k(2) wire_type_lt [of v] by simp
  then have "get_varint (put_varint (8 * k + wire_type v) @ put_value v @ r) = Some (8 * k + wire_type v, put_value v @ r)"
    by (rule varint.get_put)
  moreover have "(8 * k + wire_type v) div 8 = k" "(8 * k + wire_type v) mod 8 = wire_type v"
    using wire_type_lt [of v] by simp_all
  ultimately show ?thesis using k get_value_put [OF k(3)] by (simp add: get_record_def put_record_def x)
qed

lemma get_record_shorter: "get_record d = Some (x, r) \<Longrightarrow> length r < length d"
  using varint.get_shorter get_value_shorter
  by (fastforce simp: get_record_def split: if_splits option.splits)

lemma get_value_cut: "ok_value v \<Longrightarrow> n < length (put_value v) \<Longrightarrow> get_value (wire_type v) (take n (put_value v)) = None"
proof (cases v)
  case (WVarint k)
  assume "ok_value v" "n < length (put_value v)"
  then show ?thesis using WVarint varint.get_cut [of k n] by (simp add: get_value_def)
next
  case (WBytes b)
  assume v: "ok_value v" "n < length (put_value v)"
  show ?thesis
  proof (cases "n < length (put_varint (length b))")
    case True
    then show ?thesis using v WBytes varint.get_cut [of "length b" n] by (simp add: get_value_def)
  next
    case False
    then show ?thesis using v WBytes varint.get_put [of "length b"] by (simp add: get_value_def get_fixed_def)
  qed
qed (simp_all add: get_value_def get_fixed_def)

lemma get_record_cut:
  assumes "ok_record x" and "n < length (put_record x)"
  shows "get_record (take n (put_record x)) = None"
proof -
  obtain k v where x: "x = (k, v)" by (cases x)
  have k: "k < 2 ^ 29" "ok_value v" using assms(1) by (simp_all add: ok_record_def x)
  let ?t = "8 * k + wire_type v"
  have t: "?t < 2 ^ 64" "?t mod 8 = wire_type v" using k(1) wire_type_lt [of v] by simp_all
  show ?thesis
  proof (cases "n < length (put_varint ?t)")
    case True
    then show ?thesis using varint.get_cut [OF t(1) True] by (simp add: get_record_def put_record_def x)
  next
    case False
    then have "get_value (?t mod 8) (take (n - length (put_varint ?t)) (put_value v)) = None"
      using get_value_cut [OF k(2)] assms(2) unfolding t(2) by (simp add: put_record_def x)
    then show ?thesis using False varint.get_put [OF t(1)] by (simp add: get_record_def put_record_def x)
  qed
qed

interpretation record_code: cut_code put_record get_record ok_record
  by unfold_locales (simp_all add: get_record_put get_record_shorter get_record_cut)

section \<open>The control messages\<close>

text \<open>
  The struct tags: the number and the name of every field, with its Go type (\<open>string\<close>, \<open>[]byte\<close>
  or \<open>int64\<close>).
\<close>

datatype go_kind = KString | KBytes | KInt64

type_synonym struct_tag = "nat \<times> string \<times> go_kind"

definition CtrlHeartbeat_tags :: "struct_tag list" where
  "CtrlHeartbeat_tags = [(1, ''virtAddress'', KString)]"
definition CtrlPing_tags :: "struct_tag list" where
  "CtrlPing_tags = [(1, ''virtAddress'', KString), (2, ''nonce'', KString)]"
definition CtrlPong_tags :: "struct_tag list" where
  "CtrlPong_tags = [(1, ''virtAddress'', KString), (2, ''nonce'', KString)]"
definition CtrlOpenTunnel_tags :: "struct_tag list" where
  "CtrlOpenTunnel_tags = [(1, ''ackId'', KInt64), (2, ''virtAddress'', KString), (3, ''udpAddress'', KString)]"
definition CtrlOpenTunnelAck_tags :: "struct_tag list" where
  "CtrlOpenTunnelAck_tags = [(1, ''ackId'', KInt64)]"
definition CtrlRelay_tags :: "struct_tag list" where
  "CtrlRelay_tags = [(1, ''virtAddress'', KString), (2, ''data'', KBytes)]"

lemmas tags_defs [simp] = CtrlHeartbeat_tags_def CtrlPing_tags_def CtrlPong_tags_def CtrlOpenTunnel_tags_def CtrlOpenTunnelAck_tags_def CtrlRelay_tags_def

fun struct_tags :: "proto_message \<Rightarrow> struct_tag list" where
  "struct_tags (MHeartbeat _) = CtrlHeartbeat_tags"
| "struct_tags (MPing _) = CtrlPing_tags"
| "struct_tags (MPong _) = CtrlPong_tags"
| "struct_tags (MOpenTunnel _) = CtrlOpenTunnel_tags"
| "struct_tags (MOpenTunnelAck _) = CtrlOpenTunnelAck_tags"
| "struct_tags (MRelay _) = CtrlRelay_tags"

definition str_bytes :: "string \<Rightarrow> bytes" where
  "str_bytes s = map of_char s"

definition bytes_str :: "bytes \<Rightarrow> string" where
  "bytes_str b = map (\<lambda>x. char_of (unat x)) b"

lemma bytes_str_bytes [simp]: "bytes_str (str_bytes s) = s"
  by (simp add: bytes_str_def str_bytes_def comp_def)

lemma length_str_bytes [simp]: "length (str_bytes s) = length s" "str_bytes s = [] \<longleftrightarrow> s = []"
  by (simp_all add: str_bytes_def)

text \<open>The values of the fields, in the order of the struct.\<close>

fun wire_values :: "proto_message \<Rightarrow> wire_value list" where
  "wire_values (MHeartbeat x) = [WBytes (str_bytes (heartbeat_VirtAddress x))]"
| "wire_values (MPing x) = [WBytes (str_bytes (ping_VirtAddress x)), WBytes (str_bytes (ping_Nonce x))]"
| "wire_values (MPong x) = [WBytes (str_bytes (pong_VirtAddress x)), WBytes (str_bytes (pong_Nonce x))]"
| "wire_values (MOpenTunnel x) =
     [WVarint (unat (tunnel_AckId x)), WBytes (str_bytes (tunnel_VirtAddress x)), WBytes (str_bytes (tunnel_UdpAddress x))]"
| "wire_values (MOpenTunnelAck x) = [WVarint (unat (ack_AckId x))]"
| "wire_values (MRelay x) = [WBytes (str_bytes (relay_VirtAddress x)), WBytes (relay_Data x)]"

fun zero_value :: "wire_value \<Rightarrow> bool" where
  "zero_value (WVarint n) \<longleftrightarrow> n = 0"
| "zero_value (WBytes b) \<longleftrightarrow> b = []"
| "zero_value _ \<longleftrightarrow> False"

definition wire_records :: "proto_message \<Rightarrow> wire_record list" where
  "wire_records m = filter (\<lambda>(k, v). \<not> zero_value v) (zip (map fst (struct_tags m)) (wire_values m))"

text \<open>Storing one record: a string must be valid UTF-8, a record of another wire type is skipped.\<close>

definition set_string :: "wire_value \<Rightarrow> (string \<Rightarrow> proto_message) \<Rightarrow> proto_message \<Rightarrow> proto_message option" where
  "set_string v f m =
     (case v of WBytes b \<Rightarrow> if ValidString (bytes_str b) then Some (f (bytes_str b)) else None | _ \<Rightarrow> Some m)"

definition set_bytes :: "wire_value \<Rightarrow> (bytes \<Rightarrow> proto_message) \<Rightarrow> proto_message \<Rightarrow> proto_message option" where
  "set_bytes v f m = (case v of WBytes b \<Rightarrow> Some (f b) | _ \<Rightarrow> Some m)"

definition set_int64 :: "wire_value \<Rightarrow> (int64 \<Rightarrow> proto_message) \<Rightarrow> proto_message \<Rightarrow> proto_message option" where
  "set_int64 v f m = (case v of WVarint n \<Rightarrow> Some (f (of_nat n)) | _ \<Rightarrow> Some m)"

lemmas set_defs = set_string_def set_bytes_def set_int64_def

text \<open>The position of the field with a number in the struct.\<close>

fun tag_index :: "struct_tag list \<Rightarrow> nat \<Rightarrow> nat option" where
  "tag_index [] k = None"
| "tag_index ((n, _) # tags) k = (if k = n then Some 0 else map_option Suc (tag_index tags k))"

fun set_field :: "proto_message \<Rightarrow> wire_record \<Rightarrow> proto_message option" where
  "set_field (MHeartbeat x) (k, v) =
     (if tag_index CtrlHeartbeat_tags k = Some 0 then set_string v (\<lambda>s. MHeartbeat (x\<lparr>heartbeat_VirtAddress := s\<rparr>)) (MHeartbeat x)
      else Some (MHeartbeat x))"
| "set_field (MPing x) (k, v) =
     (if tag_index CtrlPing_tags k = Some 0 then set_string v (\<lambda>s. MPing (x\<lparr>ping_VirtAddress := s\<rparr>)) (MPing x)
      else if tag_index CtrlPing_tags k = Some 1 then set_string v (\<lambda>s. MPing (x\<lparr>ping_Nonce := s\<rparr>)) (MPing x)
      else Some (MPing x))"
| "set_field (MPong x) (k, v) =
     (if tag_index CtrlPong_tags k = Some 0 then set_string v (\<lambda>s. MPong (x\<lparr>pong_VirtAddress := s\<rparr>)) (MPong x)
      else if tag_index CtrlPong_tags k = Some 1 then set_string v (\<lambda>s. MPong (x\<lparr>pong_Nonce := s\<rparr>)) (MPong x)
      else Some (MPong x))"
| "set_field (MOpenTunnel x) (k, v) =
     (if tag_index CtrlOpenTunnel_tags k = Some 0 then set_int64 v (\<lambda>i. MOpenTunnel (x\<lparr>tunnel_AckId := i\<rparr>)) (MOpenTunnel x)
      else if tag_index CtrlOpenTunnel_tags k = Some 1 then set_string v (\<lambda>s. MOpenTunnel (x\<lparr>tunnel_VirtAddress := s\<rparr>)) (MOpenTunnel x)
      else if tag_index CtrlOpenTunnel_tags k = Some 2 then set_string v (\<lambda>s. MOpenTunnel (x\<lparr>tunnel_UdpAddress := s\<rparr>)) (MOpenTunnel x)
      else Some (MOpenTunnel x))"
| "set_field (MOpenTunnelAck x) (k, v) =
     (if tag_index CtrlOpenTunnelAck_tags k = Some 0 then set_int64 v (\<lambda>i. MOpenTunnelAck (x\<lparr>ack_AckId := i\<rparr>)) (MOpenTunnelAck x)
      else Some (MOpenTunnelAck x))"
| "set_field (MRelay x) (k, v) =
     (if tag_index CtrlRelay_tags k = Some 0 then set_string v (\<lambda>s. MRelay (x\<lparr>relay_VirtAddress := s\<rparr>)) (MRelay x)
      else if tag_index CtrlRelay_tags k = Some 1 then set_bytes v (\<lambda>d. MRelay (x\<lparr>relay_Data := d\<rparr>)) (MRelay x)
      else Some (MRelay x))"

fun set_fields :: "proto_message \<Rightarrow> wire_record list \<Rightarrow> proto_message option" where
  "set_fields m [] = Some m"
| "set_fields m (r # rs) = Option.bind (set_field m r) (\<lambda>m'. set_fields m' rs)"

definition wire_put :: "proto_message \<Rightarrow> bytes" where
  "wire_put m = concat (map put_record (wire_records m))"

definition wire_get :: "proto_message \<Rightarrow> bytes \<Rightarrow> proto_message option" where
  "wire_get m d = Option.bind (get_all get_record d) (set_fields (proto_Reset m))"

definition wire_lib :: proto_lib where
  "wire_lib =
     \<lparr>proto_Marshal = (\<lambda>m. if utf8_message m then Inr (wire_put m) else Inl ''string field contains invalid UTF-8''),
      proto_Unmarshal = (\<lambda>m d. case wire_get m d of None \<Rightarrow> Inl ''cannot parse invalid wire-format data'' | Some m' \<Rightarrow> Inr m'),
      proto_EnumString = (\<lambda>t. case PacketType_name t of None \<Rightarrow> dec_int (sint t) | Some s \<Rightarrow> s)\<rparr>"

section \<open>The laws of the library\<close>

lemma set_field_type: "set_field m r = Some m' \<Longrightarrow> same_type m m'"
  by (cases r; cases m) (auto simp: set_defs split: if_splits wire_value.splits)

lemma same_type_trans: "same_type a b \<Longrightarrow> same_type b c \<Longrightarrow> same_type a c"
  by (cases a) auto

lemma set_fields_type: "set_fields m rs = Some m' \<Longrightarrow> same_type m m'"
proof (induction rs arbitrary: m)
  case Nil
  then show ?case by (cases m) auto
next
  case (Cons r rs)
  then obtain m1 where "set_field m r = Some m1" "set_fields m1 rs = Some m'" by (auto split: bind_splits)
  then show ?case using Cons.IH set_field_type same_type_trans by blast
qed

lemma unat_zero: "unat (w :: int64) = 0 \<longleftrightarrow> w = 0"
  by (simp add: unat_eq_0)

lemma int64_of_unat [simp]: "of_nat (unat w) = (w :: int64)"
  by (simp add: of_nat_unat ucast_id)

lemma set_wire_records: "utf8_message m \<Longrightarrow> set_fields (proto_Reset m) (wire_records m) = Some m"
  by (cases m) (auto simp: wire_records_def Reset_defs set_defs utf8_string_def unat_zero)

lemma unat_int64_lt: "unat (w :: int64) < 18446744073709551616"
  using unsigned_less [of w] by simp

lemma wire_records_ok: "utf8_message m \<Longrightarrow> list_all ok_record (wire_records m)"
  by (cases m) (auto simp: wire_records_def ok_record_def utf8_string_def unat_int64_lt)

lemma wire_get_put: "utf8_message m \<Longrightarrow> wire_get (proto_Reset m) (wire_put m) = Some m"
  by (simp add: wire_get_def wire_put_def record_code.get_all_put wire_records_ok set_wire_records)

lemma wire_get_type: "wire_get m d = Some m' \<Longrightarrow> same_type m m'"
  using set_fields_type same_type_trans same_type_Reset by (fastforce simp: wire_get_def split: bind_splits)

lemma wire_lib_roundtrip [simp]: "proto_roundtrip wire_lib"
  by (simp add: proto_roundtrip_def wire_lib_def wire_get_put)

lemma wire_lib_typed [simp]: "proto_typed wire_lib"
  using wire_get_type by (auto simp: proto_typed_def wire_lib_def split: option.splits)

lemma wire_lib_marshals [simp]: "marshals wire_lib"
  by (simp add: marshals_def wire_lib_def)

text \<open>What is read is no longer than the input, and its strings are valid.\<close>

fun short_value :: "nat \<Rightarrow> wire_value \<Rightarrow> bool" where
  "short_value n (WBytes b) \<longleftrightarrow> length b \<le> n"
| "short_value n _ \<longleftrightarrow> True"

lemma short_value_mono: "short_value m v \<Longrightarrow> m \<le> n \<Longrightarrow> short_value n v"
  by (cases v) auto

lemma get_value_short:
  assumes "get_value t d = Some (v, r)"
  shows "short_value (length d) v"
proof (cases "t = 2")
  case True
  then obtain n e where e: "get_varint d = Some (n, e)" "get_fixed n WBytes e = Some (v, r)"
    using assms by (auto simp: get_value_def split: option.splits)
  then have "length e < length d" "v = WBytes (take n e)"
    using varint.get_shorter by (auto simp: get_fixed_def split: if_splits)
  then show ?thesis by simp
next
  case False
  then show ?thesis using assms by (auto simp: get_value_def get_fixed_def split: if_splits)
qed

lemma get_record_short:
  assumes "get_record d = Some (x, r)"
  shows "short_value (length d) (snd x)"
proof -
  from assms obtain tag e v where "get_varint d = Some (tag, e)" "get_value (tag mod 8) e = Some (v, r)" "x = (tag div 8, v)"
    by (auto simp: get_record_def split: option.splits if_splits)
  then show ?thesis using get_value_short [of "tag mod 8" e v r] varint.get_shorter [of d tag e] short_value_mono by force
qed

lemma get_many_short: "get_many get_record k d = Some xs \<Longrightarrow> length d \<le> n \<Longrightarrow> list_all (\<lambda>x. short_value n (snd x)) xs"
proof (induction k arbitrary: d xs)
  case 0
  then show ?case by (cases d) simp_all
next
  case (Suc k)
  show ?case
  proof (cases d)
    case Nil
    then show ?thesis using Suc.prems by simp
  next
    case (Cons b e)
    then obtain x r ys where x: "get_record d = Some (x, r)" "get_many get_record k r = Some ys" "xs = x # ys"
      using Suc.prems(1) by (auto split: option.splits)
    have "short_value n (snd x)" using get_record_short [OF x(1)] Suc.prems(2) short_value_mono by blast
    moreover have "list_all (\<lambda>x. short_value n (snd x)) ys"
      using Suc.IH [OF x(2)] get_record_shorter [OF x(1)] Suc.prems(2) by simp
    ultimately show ?thesis using x(3) by simp
  qed
qed

lemma set_field_utf8:
  "set_field m (k, v) = Some m' \<Longrightarrow> utf8_message m \<Longrightarrow> short_value n v \<Longrightarrow> n < 2 ^ 63 \<Longrightarrow> utf8_message m'"
  by (cases m) (auto simp: set_defs utf8_string_def bytes_str_def split: if_splits wire_value.splits)

lemma set_fields_utf8:
  "set_fields m rs = Some m' \<Longrightarrow> utf8_message m \<Longrightarrow> list_all (\<lambda>x. short_value n (snd x)) rs \<Longrightarrow> n < 2 ^ 63 \<Longrightarrow> utf8_message m'"
proof (induction rs arbitrary: m)
  case (Cons r rs)
  then obtain m1 where m1: "set_field m r = Some m1" "set_fields m1 rs = Some m'" by (auto split: bind_splits)
  then have "utf8_message m1" using set_field_utf8 [of m "fst r" "snd r" m1 n] Cons.prems by simp
  then show ?case using Cons m1 by simp
qed simp

lemma utf8_message_Reset [simp]: "utf8_message (proto_Reset m)"
  by (cases m) (simp_all add: Reset_defs utf8_string_def)

lemma wire_lib_utf8 [simp]: "proto_utf8 wire_lib"
proof -
  have "utf8_message m'" if d: "length d < 2 ^ 63" and get: "wire_get m d = Some m'" for m d m'
  proof -
    from get obtain rs where rs: "get_all get_record d = Some rs" "set_fields (proto_Reset m) rs = Some m'"
      by (auto simp: wire_get_def split: bind_splits)
    have "list_all (\<lambda>x. short_value (length d) (snd x)) rs" using get_many_short rs(1) by (simp add: get_all_def)
    then show ?thesis by (rule set_fields_utf8 [OF rs(2) utf8_message_Reset _ d])
  qed
  then show ?thesis by (auto simp: proto_utf8_def wire_lib_def split: option.splits)
qed

text \<open>A payload that is cut short.\<close>

lemma set_wire_records_cut:
  assumes "k < length (wire_records m)" and "set_fields (proto_Reset m) (take k (wire_records m)) = Some m'"
  shows "some_fields m m' \<and> m' \<noteq> m"
proof (cases m)
  case (MHeartbeat x)
  then show ?thesis using assms by (cases x) (auto simp: wire_records_def Reset_defs set_defs unat_zero take_Cons' split: if_splits)
next
  case (MPing x)
  then show ?thesis using assms by (cases x) (auto simp: wire_records_def Reset_defs set_defs unat_zero take_Cons' split: if_splits)
next
  case (MPong x)
  then show ?thesis using assms by (cases x) (auto simp: wire_records_def Reset_defs set_defs unat_zero take_Cons' split: if_splits)
next
  case (MOpenTunnel x)
  then show ?thesis using assms by (cases x) (auto simp: wire_records_def Reset_defs set_defs unat_zero take_Cons' split: if_splits)
next
  case (MOpenTunnelAck x)
  then show ?thesis using assms by (cases x) (auto simp: wire_records_def Reset_defs set_defs unat_zero take_Cons' split: if_splits)
next
  case (MRelay x)
  then show ?thesis using assms by (cases x) (auto simp: wire_records_def Reset_defs set_defs unat_zero take_Cons' split: if_splits)
qed

lemma wire_lib_cut [simp]: "proto_cut wire_lib"
proof -
  have "some_fields m m' \<and> m' \<noteq> m"
    if m: "utf8_message m" "n < length (wire_put m)" "wire_get (proto_Reset m) (take n (wire_put m)) = Some m'" for m n m'
  proof -
    obtain rs where rs: "get_all get_record (take n (wire_put m)) = Some rs" "set_fields (proto_Reset m) rs = Some m'"
      using m(3) by (auto simp: wire_get_def split: bind_splits)
    obtain k where "k < length (wire_records m)" "rs = take k (wire_records m)"
      using record_code.get_all_cut [OF wire_records_ok [OF m(1)]] m(2) rs(1) unfolding wire_put_def by blast
    then show ?thesis using rs(2) set_wire_records_cut by blast
  qed
  then show ?thesis unfolding proto_cut_def wire_lib_def by (auto split: if_splits option.splits)
qed

text \<open>The sizes.\<close>

lemma length_put_record:
  "k < 16 \<Longrightarrow> length (put_record (k, WBytes b)) = 1 + varint_size (length b) + length b"
  "k < 16 \<Longrightarrow> length (put_record (k, WVarint n)) = 1 + varint_size n"
  by (simp_all add: put_record_def length_put_varint varint_size_small)

lemma length_wire_put: "length (wire_put m) = wire_size m"
  by (cases m) (simp_all add: wire_put_def wire_records_def length_put_record text_size_def int_size_def unat_zero)

lemma wire_lib_sizes [simp]: "proto_sizes wire_lib"
  by (simp add: proto_sizes_def wire_lib_def length_wire_put)

end
