(* ===== verification/Mesh_Properties.thy ===== *)
theory Mesh_Properties
  imports Mesh_System Wire
begin

text \<open>
  From a cold start to a packet at its destination, through all the machines of \<open>Mesh_System\<close>: the first packet for an
  unknown peer is dropped and asks for a tunnel, the gateway notifies, the node opens a connection, and
  the second packet arrives by way of the gateway's relay.
\<close>

section \<open>The gateway's part\<close>

text \<open>Every worker's channel is empty, and \<open>k\<close> packets have been dispatched.\<close>

definition clear :: "nat \<Rightarrow> dispatcher \<Rightarrow> bool" where
  "clear k d \<longleftrightarrow> dp_chs d \<noteq> [] \<and> (\<forall>c \<in> set (dp_chs d). chan_buf c = [] \<and> 0 < chan_cap c) \<and>
     dp_roundTrip d = word_of_nat k \<and> k < 2 ^ 63"

lemma sint_small_nat: "k < 2 ^ 63 \<Longrightarrow> sint (word_of_nat k :: int64) = int k"
  by transfer (simp add: signed_take_bit_int_eq_self)

lemma clear_index:
  assumes "clear k d"
  obtains i where "dispatch_index d = Ret i" "i < length (dp_chs d)" "chan_buf (dp_chs d ! i) = []" "0 < chan_cap (dp_chs d ! i)"
proof -
  have "sint (dp_roundTrip d) = int k" using assms sint_small_nat [of k] unfolding clear_def by metis
  then have idx: "dispatch_index d = Ret (nat (go_rem (int k) (int (length (dp_chs d)))))"
    using assms by (simp add: clear_def dispatch_index_def Let_def go_rem_def sgn_if not_less)
  note i = dispatch_index_bound [OF idx]
  with assms that [OF idx i] show thesis by (simp add: clear_def)
qed

text \<open>A packet is handed to a worker, which writes it at once.\<close>

lemma retry_transmit:
  assumes pc: "gw_pc g = Retrying (k # ks)" and rp: "nt_data (gw_notifier g) k = Some rp" "sint (rp_counter rp) \<le> MaxRetrySend"
    and clr: "clear c (gw_disp g)" "Suc c < 2 ^ 63" and wr: "worker_write P resolve (rp_packet rp) = Ret (Some x)"
  shows "\<exists>l g1 g'. gw_step P resolve vars semver g LRetry g1 \<and> gw_step P resolve vars semver g1 (LWorker l) g' \<and>
     g' = g\<lparr>gw_pc := Retrying ks, gw_disp := gw_disp g', gw_out := gw_out g @ [x], gw_done := gw_done g @ [rp_packet rp]\<rparr> \<and>
     clear (Suc c) (gw_disp g')"
proof -
  obtain i where i: "dispatch_index (gw_disp g) = Ret i" "i < length (dp_chs (gw_disp g))"
    "chan_buf (dp_chs (gw_disp g) ! i) = []" "0 < chan_cap (dp_chs (gw_disp g) ! i)" using clear_index [OF clr(1)] .
  let ?ch = "dp_chs (gw_disp g) ! i" and ?p = "rp_packet rp"
  let ?d = "(gw_disp g)\<lparr>dp_chs := (dp_chs (gw_disp g))[i := ?ch\<lparr>chan_buf := [?p]\<rparr>], dp_roundTrip := dp_roundTrip (gw_disp g) + 1\<rparr>"
  let ?g1 = "(set_notifier g (gw_notifier g))\<lparr>gw_disp := ?d, gw_pc := Retrying ks\<rparr>"
  let ?d' = "?d\<lparr>dp_chs := (dp_chs ?d)[i := ?ch\<lparr>chan_buf := []\<rparr>]\<rparr>"
  let ?g' = "?g1\<lparr>gw_disp := ?d', gw_out := gw_out ?g1 @ [x], gw_done := gw_done ?g1 @ [?p]\<rparr>"
  have "dispatch (gw_disp g) ?p = Ret ?d" using i by (simp add: dispatch_Ret_iff chan_full_def)
  then have "gw_step P resolve vars semver g LRetry ?g1"
    using rp by (intro gw_step.retrying [OF pc]) (simp add: retry_entry_def)
  moreover have "gw_step P resolve vars semver ?g1 (LWorker i) ?g'"
    using gw_step.worker [of i ?g1 ?p "?ch\<lparr>chan_buf := []\<rparr>" P resolve "Some x"] i wr by (simp add: chan_simps)
  moreover have "?ch\<lparr>chan_buf := []\<rparr> = ?ch" using i(3) by simp
  then have "dp_chs ?d' = dp_chs (gw_disp g)" by (simp del: chan.update_convs)
  then have "clear (Suc c) ?d'" using clr by (simp add: clear_def)
  ultimately show ?thesis
    by (intro exI [of _ i] exI [of _ ?g1] exI [of _ ?g']) (simp add: set_notifier_def gw_notifier_def)
qed

text \<open>A heartbeat enters the directory, and a relayed packet the queue.\<close>

lemma gw_register:
  assumes "proto_roundtrip P" and enc: "Encode P PacketType_Heartbeat (MHeartbeat \<lparr>heartbeat_VirtAddress = v\<rparr>) = Ret d"
    and "length d \<le> MaxBufferSize" and "v \<noteq> ''''"
  shows "gw_step P resolve vars semver g (LRecv a d now) (g\<lparr>gw_server := heartbeat_from (gw_server g) a v now\<rparr>)"
proof -
  have "serve_turn P (gw_server g) a d now = Ret (heartbeat_from (gw_server g) a v now)"
    using serve_turn_Encode [OF assms(1-3)] assms(4) by (simp add: heartbeat_from_def)
  moreover have "d \<noteq> []" "packetType_of d \<noteq> PacketType_OpenTunnelAck"
    using enc by (auto simp: Encode_Ret_iff packetType_of_def PacketType_defs)
  moreover have "g\<lparr>gw_server := heartbeat_from (gw_server g) a v now,
      gw_relayed := gw_relayed g @ newly_queued (gw_notifier g) (srv_notifier (heartbeat_from (gw_server g) a v now))\<rparr> =
      g\<lparr>gw_server := heartbeat_from (gw_server g) a v now\<rparr>" by (simp add: heartbeat_from_def gw_notifier_def)
  ultimately show ?thesis using gw_step.recv [of P g a d now] by metis
qed

lemma gw_relay:
  assumes "proto_roundtrip P" and enc: "Encode P PacketType_Relay (MRelay \<lparr>relay_VirtAddress = v, relay_Data = q\<rparr>) = Ret d"
    and "length d \<le> MaxBufferSize" and peer: "Peer (gw_server g) v = Some info"
    and room: "nt_queue (gw_notifier g) = make_chan 16"
  shows "\<exists>g'. gw_step P resolve vars semver g (LRecv a d now) g' \<and> gw_pc g' = gw_pc g \<and> gw_disp g' = gw_disp g \<and>
     chan_buf (nt_queue (gw_notifier g')) =
       [\<lparr>pk_destination = UDPAddress info, pk_typ = PacketType_Data, pk_message = PayloadRaw q\<rparr>]"
proof -
  let ?p = "\<lparr>pk_destination = UDPAddress info, pk_typ = PacketType_Data, pk_message = PayloadRaw q\<rparr>"
  let ?s = "(gw_server g)\<lparr>srv_notifier := (gw_notifier g)\<lparr>nt_queue := (make_chan 16)\<lparr>chan_buf := [?p]\<rparr>\<rparr>\<rparr>"
  have "serve_turn P (gw_server g) a d now = Ret ?s"
    using serve_turn_Encode [OF assms(1-3)] peer room
    by (simp add: process_relay_def relay_def chan_send_def chan_full_def make_chan_def gw_notifier_def)
  moreover have "d \<noteq> []" "packetType_of d \<noteq> PacketType_OpenTunnelAck"
    using enc by (auto simp: Encode_Ret_iff packetType_of_def PacketType_defs)
  ultimately have "gw_step P resolve vars semver g (LRecv a d now)
      (g\<lparr>gw_server := ?s, gw_relayed := gw_relayed g @ newly_queued (gw_notifier g) (srv_notifier ?s)\<rparr>)"
    by (intro gw_step.recv) simp_all
  then show ?thesis by (intro exI) (auto simp: gw_notifier_def)
qed

section \<open>Runs of the network\<close>

lemma mesh_run_trans:
  assumes "mesh_run P dial resolve decode vars semver addr m1 m2" and "mesh_run P dial resolve decode vars semver addr m2 m3"
  shows "mesh_run P dial resolve decode vars semver addr m1 m3"
  using assms(2,1) by (induction rule: mesh_run.induct) (auto intro: mesh_run.intros)

lemma mesh_run_one: "mesh_step P dial resolve decode vars semver addr m m' \<Longrightarrow> mesh_run P dial resolve decode vars semver addr m m'"
  by (auto intro: mesh_run.intros)

lemma mesh_run_internal:
  assumes "gw_step P resolve vars semver g l g'" and "gw_internal l"
  shows "mesh_run P dial resolve decode vars semver addr (m\<lparr>mesh_gateway := g\<rparr>) (m\<lparr>mesh_gateway := g'\<rparr>)"
  using mesh_step.gateway_internal [of l P resolve vars semver "m\<lparr>mesh_gateway := g\<rparr>" g'] assms by (auto intro: mesh_run_one)

text \<open>A node beats and the gateway receives it.\<close>

lemma mesh_register:
  assumes rt: "proto_roundtrip P" and enc: "Encode P PacketType_Heartbeat (MHeartbeat \<lparr>heartbeat_VirtAddress = virt (mesh_nodes m i)\<rparr>) = Ret d"
    and len: "length d \<le> MaxBufferSize" and v: "virt (mesh_nodes m i) \<noteq> ''''" and a: "a \<in> addr i"
  shows "mesh_run P dial resolve decode vars semver addr m
     (m\<lparr>mesh_nodes := (mesh_nodes m)(i := gateway_write (mesh_nodes m i) d),
        mesh_gateway := (mesh_gateway m)\<lparr>gw_server := heartbeat_from (gw_server (mesh_gateway m)) a (virt (mesh_nodes m i)) now\<rparr>\<rparr>)"
proof -
  let ?n = "gateway_write (mesh_nodes m i) d"
  let ?m = "m\<lparr>mesh_nodes := (mesh_nodes m)(i := ?n)\<rparr>"
  have "node_step P dial decode (mesh_nodes m i) NHeartbeat ?n"
    using enc by (intro node_step.beat) (simp add: heartbeat_turn_def heartbeat_data_def virt_def)
  then have "mesh_step P dial resolve decode vars semver addr m ?m" by (intro mesh_step.node_internal) (simp_all add: internal_def)
  moreover have "mesh_step P dial resolve decode vars semver addr ?m
      (?m\<lparr>mesh_gateway := (mesh_gateway ?m)\<lparr>gw_server := heartbeat_from (gw_server (mesh_gateway ?m)) a (virt (mesh_nodes m i)) now\<rparr>\<rparr>)"
    using gw_register [OF rt enc len v] a by (intro mesh_step.to_gateway [of d _ i a]) simp_all
  ultimately show ?thesis by (auto intro: mesh_run_trans mesh_run_one)
qed

text \<open>A tunnel is requested and both peers are notified.\<close>

definition both_notified :: "PeerInfo \<Rightarrow> PeerInfo \<Rightarrow> notifier \<Rightarrow> (int64 \<rightharpoonup> retryPacket)" where
  "both_notified src dst n =
     [nt_ackID n + 1 \<mapsto> \<lparr>rp_packet = tunnel_packet src dst (nt_ackID n + 1), rp_counter = 0\<rparr>,
      nt_ackID n + 2 \<mapsto> \<lparr>rp_packet = tunnel_packet dst src (nt_ackID n + 2), rp_counter = 0\<rparr>]"

lemma mesh_open:
  assumes g: "gw_pc g = Idle" "nt_data (gw_notifier g) = Map.empty" "clear c (gw_disp g)" "c + 2 < 2 ^ 63"
    and ver: "semver (req_Version (req :: OpenTunnelRequest)) = Inr major" "sint (MajorVersion vars) \<le> sint major"
    and peers: "Peer (gw_server g) (req_Source req) = Some src" "Peer (gw_server g) (req_Destination req) = Some dst"
    and wr: "worker_write P resolve (tunnel_packet src dst (nt_ackID (gw_notifier g) + 1)) = Ret (Some x)"
      "worker_write P resolve (tunnel_packet dst src (nt_ackID (gw_notifier g) + 2)) = Ret (Some y)"
  shows "\<exists>g'. mesh_run P dial resolve decode vars semver addr (m\<lparr>mesh_gateway := g\<rparr>) (m\<lparr>mesh_gateway := g'\<rparr>) \<and>
     x \<in> set (gw_out g') \<and> gw_pc g' = Idle \<and> srv_peers (gw_server g') = srv_peers (gw_server g) \<and> clear (c + 2) (gw_disp g') \<and>
     nt_queue (gw_notifier g') = nt_queue (gw_notifier g)"
proof -
  let ?k = "nt_ackID (gw_notifier g)"
  let ?n = "Notifier_OpenTunnel (gw_notifier g) src dst"
  let ?g1 = "g\<lparr>gw_server := (gw_server g)\<lparr>srv_notifier := ?n\<rparr>\<rparr>"
  let ?g2 = "?g1\<lparr>gw_pc := Retrying [?k + 1, ?k + 2]\<rparr>"
  have k: "?k + 1 \<noteq> ?k + 2" by simp
  have dat: "nt_data ?n = both_notified src dst (gw_notifier g)" "nt_queue ?n = nt_queue (gw_notifier g)"
    by (simp_all add: Notifier_OpenTunnel_def notify_def open_one_def Let_def g(2) both_notified_def ac_simps)
  have s1: "gw_step P resolve vars semver g (LHttp req) ?g1"
    using ver peers g(1) by (intro gw_step.http) (auto simp: Server_OpenTunnel_def lock_held_def gw_notifier_def)
  have s2: "gw_step P resolve vars semver ?g1 (LTick [?k + 1, ?k + 2]) ?g2"
    using g(1) k by (intro gw_step.tick) (auto simp: is_order_def dat(1) both_notified_def g(2))
  obtain l3 g3 g4 where s3: "gw_step P resolve vars semver ?g2 LRetry g3" "gw_step P resolve vars semver g3 (LWorker l3) g4"
    and g4: "g4 = ?g2\<lparr>gw_pc := Retrying [?k + 2], gw_disp := gw_disp g4, gw_out := gw_out ?g2 @ [x],
      gw_done := gw_done ?g2 @ [tunnel_packet src dst (?k + 1)]\<rparr>" and c4: "clear (Suc c) (gw_disp g4)"
    using retry_transmit [of ?g2 "?k + 1" "[?k + 2]" "\<lparr>rp_packet = tunnel_packet src dst (?k + 1), rp_counter = 0\<rparr>" c P resolve x vars semver]
      dat(1) k g(3,4) wr(1) by (auto simp: both_notified_def MaxRetrySend_def)
  have n4: "gw_notifier g4 = ?n" "gw_pc g4 = Retrying [?k + 2]" "gw_out g4 = gw_out g @ [x]" "gw_server g4 = gw_server ?g1"
    by (subst g4, simp)+
  obtain l5 g5 g6 where s5: "gw_step P resolve vars semver g4 LRetry g5" "gw_step P resolve vars semver g5 (LWorker l5) g6"
    and g6: "g6 = g4\<lparr>gw_pc := Retrying [], gw_disp := gw_disp g6, gw_out := gw_out g4 @ [y],
      gw_done := gw_done g4 @ [tunnel_packet dst src (?k + 2)]\<rparr>" and c6: "clear (Suc (Suc c)) (gw_disp g6)"
    using retry_transmit [of g4 "?k + 2" "[]" "\<lparr>rp_packet = tunnel_packet dst src (?k + 2), rp_counter = 0\<rparr>" "Suc c" P resolve y vars semver]
      dat(1) k g(4) c4 wr(2) n4(1,2) by (auto simp: both_notified_def MaxRetrySend_def)
  have n6: "gw_notifier g6 = ?n" "gw_pc g6 = Retrying []" "gw_out g6 = gw_out g @ [x, y]" "gw_server g6 = gw_server ?g1"
    by (subst g6, simp add: n4)+
  have s7: "gw_step P resolve vars semver g6 LRetryDone (g6\<lparr>gw_pc := Idle\<rparr>)" by (rule gw_step.retried [OF n6(2)])
  note run = mesh_run_internal [where dial = dial and decode = decode and addr = addr and m = m]
  have "mesh_run P dial resolve decode vars semver addr (m\<lparr>mesh_gateway := g\<rparr>) (m\<lparr>mesh_gateway := g6\<lparr>gw_pc := Idle\<rparr>\<rparr>)"
    by (intro mesh_run_trans [OF run [OF s1]] mesh_run_trans [OF run [OF s2]] mesh_run_trans [OF run [OF s3(1)]]
        mesh_run_trans [OF run [OF s3(2)]] mesh_run_trans [OF run [OF s5(1)]] mesh_run_trans [OF run [OF s5(2)]] run [OF s7])
      (simp_all add: gw_internal_def)
  then show ?thesis using n6 c6 dat(2) by (intro exI [of _ "g6\<lparr>gw_pc := Idle\<rparr>"]) simp
qed

text \<open>Two nodes beat, one asks for a tunnel, and the gateway tells both.\<close>

lemma mesh_meet:
  assumes rt: "proto_roundtrip P" and ij: "i \<noteq> j" "virt (mesh_nodes m i) = u" "virt (mesh_nodes m j) = v" "u \<noteq> v" "u \<noteq> ''''" "v \<noteq> ''''"
    and g: "gw_pc (mesh_gateway m) = Idle" "clear c (gw_disp (mesh_gateway m))" "c + 2 < 2 ^ 63" "gw_notifier (mesh_gateway m) = newNotifier"
      "peers_wf (gw_server (mesh_gateway m))"
    and net: "a \<in> addr i" "b \<in> addr j" "resolve a = Some a" "resolve b = Some b"
    and ver: "semver (req_Version (req :: OpenTunnelRequest)) = Inr major" "sint (MajorVersion vars) \<le> sint major"
    and req: "req_Source req = u" "req_Destination req = v"
    and di: "Encode P PacketType_Heartbeat (MHeartbeat \<lparr>heartbeat_VirtAddress = u\<rparr>) = Ret di" "length di \<le> MaxBufferSize"
    and dj: "Encode P PacketType_Heartbeat (MHeartbeat \<lparr>heartbeat_VirtAddress = v\<rparr>) = Ret dj" "length dj \<le> MaxBufferSize"
    and dt: "Encode P PacketType_OpenTunnel (MOpenTunnel \<lparr>tunnel_AckId = 1, tunnel_VirtAddress = v, tunnel_UdpAddress = b\<rparr>) = Ret dt"
      "Encode P PacketType_OpenTunnel (MOpenTunnel \<lparr>tunnel_AckId = 2, tunnel_VirtAddress = u, tunnel_UdpAddress = a\<rparr>) = Ret dt'"
  shows "\<exists>g'. mesh_run P dial resolve decode vars semver addr m
      (m\<lparr>mesh_nodes := (mesh_nodes m)(i := gateway_write (mesh_nodes m i) di, j := gateway_write (mesh_nodes m j) dj), mesh_gateway := g'\<rparr>) \<and>
     (dt, a) \<in> set (gw_out g') \<and> gw_pc g' = Idle \<and> clear (c + 2) (gw_disp g') \<and> nt_queue (gw_notifier g') = make_chan 16 \<and>
     Peer (gw_server g') v = Some \<lparr>VirtAddress = v, UDPAddress = b, LastHeartbeat = 0\<rparr>"
proof -
  let ?s = "gw_server (mesh_gateway m)" and ?src = "\<lparr>VirtAddress = u, UDPAddress = a, LastHeartbeat = 0\<rparr>"
    and ?dst = "\<lparr>VirtAddress = v, UDPAddress = b, LastHeartbeat = 0\<rparr>"
  let ?m1 = "m\<lparr>mesh_nodes := (mesh_nodes m)(i := gateway_write (mesh_nodes m i) di),
      mesh_gateway := (mesh_gateway m)\<lparr>gw_server := heartbeat_from ?s a u 0\<rparr>\<rparr>"
  have r1: "mesh_run P dial resolve decode vars semver addr m ?m1"
    using mesh_register [of P m i di a addr dial resolve decode vars semver 0] rt di ij(2,5) net(1) by simp
  define g2 where "g2 = (mesh_gateway m)\<lparr>gw_server := heartbeat_from (heartbeat_from ?s a u 0) b v 0\<rparr>"
  let ?m2 = "m\<lparr>mesh_nodes := (mesh_nodes m)(i := gateway_write (mesh_nodes m i) di, j := gateway_write (mesh_nodes m j) dj), mesh_gateway := g2\<rparr>"
  have r2: "mesh_run P dial resolve decode vars semver addr ?m1 ?m2"
    using mesh_register [of P ?m1 j dj b addr dial resolve decode vars semver 0] rt dj ij(1,3,6) net(2) by (simp add: g2_def)
  have ps: "Peer (gw_server g2) (req_Source req) = Some ?src" "Peer (gw_server g2) (req_Destination req) = Some ?dst"
    using ij(4) by (simp_all add: req g2_def dir.beat_same dir.beat_other dir.wf_beat g(5))
  have nt: "gw_notifier g2 = newNotifier" using g(4) by (simp add: gw_notifier_def heartbeat_from_def g2_def)
  have ww: "worker_write P resolve (tunnel_packet ?src ?dst (nt_ackID (gw_notifier g2) + 1)) = Ret (Some (dt, a))"
    "worker_write P resolve (tunnel_packet ?dst ?src (nt_ackID (gw_notifier g2) + 2)) = Ret (Some (dt', b))"
    using dt net unfolding nt by (simp_all add: worker_write_def tunnel_packet_def newNotifier_def)
  have g2: "gw_pc g2 = Idle" "nt_data (gw_notifier g2) = Map.empty" "clear c (gw_disp g2)"
    using g(1,2) unfolding nt by (simp_all add: newNotifier_def g2_def)
  obtain g3 where "mesh_run P dial resolve decode vars semver addr (?m2\<lparr>mesh_gateway := g2\<rparr>) (?m2\<lparr>mesh_gateway := g3\<rparr>)"
    and g3: "(dt, a) \<in> set (gw_out g3)" "gw_pc g3 = Idle" "srv_peers (gw_server g3) = srv_peers (gw_server g2)"
      "clear (c + 2) (gw_disp g3)" "nt_queue (gw_notifier g3) = nt_queue (gw_notifier g2)"
    using mesh_open [where m = ?m2 and dial = dial and decode = decode and addr = addr and semver = semver and P = P and resolve = resolve,
        OF g2 g(3) ver ps ww] by blast
  then have "mesh_run P dial resolve decode vars semver addr m (?m2\<lparr>mesh_gateway := g3\<rparr>)"
    using mesh_run_trans [OF r1 mesh_run_trans [OF r2]] by simp
  moreover have "nt_queue (gw_notifier g3) = make_chan 16" using g3(5) by (simp add: nt newNotifier_def)
  moreover have "Peer (gw_server g3) v = Some ?dst" using ps(2) g3(3) by (simp add: Peer_def req)
  ultimately show ?thesis using g3 by (intro exI [of _ g3]) simp
qed

text \<open>A node that is told of a peer it does not know opens a connection.\<close>

lemma mesh_connect:
  assumes rt: "proto_roundtrip P" and enc: "Encode P PacketType_OpenTunnel (MOpenTunnel t) = Ret d" "length d \<le> MaxBufferSize"
    and ack: "Encode P PacketType_OpenTunnelAck (MOpenTunnelAck \<lparr>ack_AckId = tunnel_AckId t\<rparr>) = Ret da"
    and out: "(d, a) \<in> set (gw_out (mesh_gateway m))" "a \<in> addr i"
    and n: "nd_connections (mesh_nodes m i) (tunnel_VirtAddress t) = None" and dial: "dial (tunnel_UdpAddress t) = Some r"
  shows "mesh_run P dial resolve decode vars semver addr m
     (m\<lparr>mesh_nodes := (mesh_nodes m)(i := gateway_write (new_conn_node (mesh_nodes m i) t r now) da)\<rparr>)"
proof -
  have "handlePacket P dial rnd (mesh_nodes m i) d now = Ret (gateway_write (new_conn_node (mesh_nodes m i) t r now) da)" for rnd
    using n dial ack by (simp add: handlePacket_Encode(1) [OF rt enc(1)] onOpenTunnel_def connect_unfold send_ack_def)
  then have "node_step P dial decode (mesh_nodes m i) (NPacket d now) (gateway_write (new_conn_node (mesh_nodes m i) t r now) da)"
    using enc(2) by (intro node_step.packet) simp
  then show ?thesis using mesh_step.from_gateway [where addr = addr and i = i, OF out(1) out(2)] mesh_run_one by blast
qed

text \<open>A packet on its way from the device of \<open>i\<close>, through the gateway, to the device of \<open>j\<close>.\<close>

lemma mesh_relay:
  assumes rt: "proto_roundtrip P" and enc: "Encode P PacketType_Relay (MRelay \<lparr>relay_VirtAddress = v, relay_Data = q\<rparr>) = Ret d"
      "length d \<le> MaxBufferSize" "length q < MaxBufferSize"
    and src: "dev_read_turn P decode (mesh_nodes m i) q now = Ret (gateway_write (mesh_nodes m i) d)" "a \<in> addr i" "i \<noteq> j"
    and g: "gw_pc (mesh_gateway m) = Idle" "clear c (gw_disp (mesh_gateway m))" "nt_queue (gw_notifier (mesh_gateway m)) = make_chan 16"
      "Peer (gw_server (mesh_gateway m)) v = Some info" "resolve (UDPAddress info) = Some b"
    and dst: "b \<in> addr j" "nd_pipeline (mesh_nodes m j) = make_chan 512"
  shows "\<exists>m'. mesh_run P dial resolve decode vars semver addr m m' \<and>
     nd_dev_out (mesh_nodes m' j) = nd_dev_out (mesh_nodes m j) @ [q] \<and> mesh_read m' = mesh_read m @ [(i, q)] \<and>
     mesh_nodes m' i = gateway_write (mesh_nodes m i) d"
proof -
  let ?n = "gateway_write (mesh_nodes m i) d" and ?j = "mesh_nodes m j" and ?g = "mesh_gateway m"
  let ?m1 = "m\<lparr>mesh_nodes := (mesh_nodes m)(i := ?n), mesh_read := mesh_read m @ [(i, q)]\<rparr>"
  have s1: "mesh_run P dial resolve decode vars semver addr m ?m1"
    by (intro mesh_run_one mesh_step.device [of P dial decode m i q now] node_step.dev_read src(1))
  obtain g1 where g1: "gw_step P resolve vars semver ?g (LRecv a d now) g1" "gw_pc g1 = Idle" "gw_disp g1 = gw_disp ?g"
    "chan_buf (nt_queue (gw_notifier g1)) = [\<lparr>pk_destination = UDPAddress info, pk_typ = PacketType_Data, pk_message = PayloadRaw q\<rparr>]"
    using gw_relay [OF rt enc(1,2) g(4,3), of resolve vars semver a now] g(1) by auto
  have s2: "mesh_run P dial resolve decode vars semver addr ?m1 (?m1\<lparr>mesh_gateway := g1\<rparr>)"
    using g1(1) by (intro mesh_run_one mesh_step.to_gateway [of d _ i a]) (simp_all add: src(2))
  obtain l where l: "dispatch_index (gw_disp g1) = Ret l" "chan_buf (dp_chs (gw_disp g1) ! l) = []" "0 < chan_cap (dp_chs (gw_disp g1) ! l)"
    using clear_index [OF g(2)] g1(3) by metis
  obtain g2 g3 g4 where g4: "gw_step P resolve vars semver g1 LQueue g2" "gw_step P resolve vars semver g2 LSend g3"
    "gw_step P resolve vars semver g3 (LWorker l) g4" "gw_out g4 = gw_out g1 @ [(EncodeRaw q, b)]"
    using relay_three_steps [where resolve = resolve, OF g1(2,4) refl l g(5), of P vars semver] by blast
  note run = mesh_run_internal [where dial = dial and decode = decode and addr = addr and m = ?m1]
  have s3: "mesh_run P dial resolve decode vars semver addr (?m1\<lparr>mesh_gateway := g1\<rparr>) (?m1\<lparr>mesh_gateway := g4\<rparr>)"
    by (intro mesh_run_trans [OF run [OF g4(1)]] mesh_run_trans [OF run [OF g4(2)]] run [OF g4(3)]) (simp_all add: gw_internal_def)
  let ?m4 = "?m1\<lparr>mesh_gateway := g4\<rparr>"
  let ?j1 = "?j\<lparr>nd_pipeline := (nd_pipeline ?j)\<lparr>chan_buf := [q]\<rparr>\<rparr>"
  let ?j2 = "?j1\<lparr>nd_pipeline := nd_pipeline ?j, nd_dev_out := nd_dev_out ?j @ [q]\<rparr>"
  have len: "length (EncodeRaw q) \<le> MaxBufferSize" using enc(3) by simp
  have jj: "mesh_nodes ?m4 j = ?j" using src(3) by simp
  have "node_step P dial decode ?j (NPacket (EncodeRaw q) now) ?j1"
    using len dst(2) by (intro node_step.packet) (simp add: handlePacket_EncodeRaw chan_send_def chan_full_def make_chan_def)
  then have s4: "mesh_run P dial resolve decode vars semver addr ?m4 (?m4\<lparr>mesh_nodes := (mesh_nodes ?m4)(j := ?j1)\<rparr>)"
    using g4(4) jj by (intro mesh_run_one mesh_step.from_gateway [of "EncodeRaw q" b]) (simp_all add: dst(1))
  let ?m5 = "?m4\<lparr>mesh_nodes := (mesh_nodes ?m4)(j := ?j1)\<rparr>"
  have "node_step P dial decode ?j1 NDevWrite ?j2"
    using dst(2) by (intro node_step.dev_write) (simp add: dev_write_turn_def chan_recv_def make_chan_def)
  then have s5: "mesh_run P dial resolve decode vars semver addr ?m5 (?m5\<lparr>mesh_nodes := (mesh_nodes ?m5)(j := ?j2)\<rparr>)"
    by (intro mesh_run_one mesh_step.node_internal [of NDevWrite]) (simp_all add: internal_def)
  have "mesh_run P dial resolve decode vars semver addr m (?m5\<lparr>mesh_nodes := (mesh_nodes ?m5)(j := ?j2)\<rparr>)"
    by (rule mesh_run_trans [OF s1 mesh_run_trans [OF s2 mesh_run_trans [OF s3 mesh_run_trans [OF s4 s5]]]])
  then show ?thesis using src(3) by (intro exI [of _ "?m5\<lparr>mesh_nodes := (mesh_nodes ?m5)(j := ?j2)\<rparr>"]) simp
qed

section \<open>A cold start\<close>

lemma mesh_start_fields:
  assumes "mesh_start opts envs concurrency key m" and "0 < concurrency"
  shows "nd_connections (mesh_nodes m i) = Map.empty" "nd_pending (mesh_nodes m i) = Map.empty"
    "nd_pipeline (mesh_nodes m i) = make_chan 512" "nd_dev_out (mesh_nodes m i) = []"
    "gw_pc (mesh_gateway m) = Idle" "gw_server (mesh_gateway m) = NewServer newNotifier key" "clear 0 (gw_disp (mesh_gateway m))"
    "nd_mask (mesh_nodes m i) = IP_Mask (ParseIP (opt_Address (opts i))) [255, 255, 0, 0]"
    "nd_opt (mesh_nodes m i) = opts i" "nd_requests (mesh_nodes m i) = []" "mesh_read m = []"
proof -
  have "Serve_setup (envs i) (New (opts i)) = (None, mesh_nodes m i)" using assms by (simp add: mesh_start_def)
  then have n: "mesh_nodes m i = (New (opts i))\<lparr>nd_mask := IP_Mask (ParseIP (opt_Address (opts i))) [255, 255, 0, 0], nd_gateway := True\<rparr>"
    by (auto simp: Serve_setup_def New_def Let_def split: sum.splits option.splits)
  show "nd_connections (mesh_nodes m i) = Map.empty" "nd_pending (mesh_nodes m i) = Map.empty"
    "nd_pipeline (mesh_nodes m i) = make_chan 512" "nd_dev_out (mesh_nodes m i) = []"
    "nd_mask (mesh_nodes m i) = IP_Mask (ParseIP (opt_Address (opts i))) [255, 255, 0, 0]"
    "nd_opt (mesh_nodes m i) = opts i" "nd_requests (mesh_nodes m i) = []" by (simp_all add: n New_def)
  show "mesh_read m = []" using assms by (simp add: mesh_start_def)
  obtain d where d: "start_dispatcher concurrency = Ret d" "mesh_gateway m = gw_init key d" using assms by (auto simp: mesh_start_def)
  then show "gw_pc (mesh_gateway m) = Idle" "gw_server (mesh_gateway m) = NewServer newNotifier key" by (simp_all add: gw_init_def)
  show "clear 0 (gw_disp (mesh_gateway m))" using d assms(2)
    by (auto simp: start_dispatcher_def gw_init_def clear_def)
qed

lemma dotted_not_empty: "dotted [a, b, c, d] \<noteq> []"
  by (simp add: dotted_def)

lemma cold_start_run:
  assumes start: "mesh_start opts envs concurrency key m0" "0 < concurrency" and rt: "proto_roundtrip P"
    and ij: "i \<noteq> j" "opt_Address (opts i) = dotted vi" "length vi = 4" "opt_Address (opts j) = dotted [w, x, y, z]"
      "take 2 vi = [w, x]" "vi \<noteq> [w, x, y, z]"
    and net: "a \<in> addr i" "b \<in> addr j" "resolve a = Some a" "resolve b = Some b" "dial b = Some b"
    and ver: "semver (req_Version req) = Inr major" "sint (MajorVersion vars) \<le> sint major"
    and req: "req_Source (req :: OpenTunnelRequest) = dotted vi" "req_Destination req = dotted [w, x, y, z]"
    and q: "decode q = Some (w, x, y, z)" "length q < MaxBufferSize"
    and fit: "fits P PacketType_Heartbeat (MHeartbeat \<lparr>heartbeat_VirtAddress = dotted vi\<rparr>)"
      "fits P PacketType_Heartbeat (MHeartbeat \<lparr>heartbeat_VirtAddress = dotted [w, x, y, z]\<rparr>)"
      "fits P PacketType_OpenTunnel (MOpenTunnel \<lparr>tunnel_AckId = 1, tunnel_VirtAddress = dotted [w, x, y, z], tunnel_UdpAddress = b\<rparr>)"
      "fits P PacketType_OpenTunnel (MOpenTunnel \<lparr>tunnel_AckId = 2, tunnel_VirtAddress = dotted vi, tunnel_UdpAddress = a\<rparr>)"
      "fits P PacketType_OpenTunnelAck (MOpenTunnelAck \<lparr>ack_AckId = 1\<rparr>)"
      "fits P PacketType_Relay (MRelay \<lparr>relay_VirtAddress = dotted [w, x, y, z], relay_Data = q\<rparr>)"
  shows "\<exists>m1 m2. mesh_run P dial resolve decode vars semver addr m0 m1 \<and> mesh_read m1 = [(i, q)] \<and>
     nd_requests (mesh_nodes m1 i) = [dotted [w, x, y, z]] \<and>
     mesh_run P dial resolve decode vars semver addr m1 m2 \<and> mesh_read m2 = [(i, q), (i, q)] \<and>
     nd_dev_out (mesh_nodes m2 j) = [q] \<and> nd_connections (mesh_nodes m2 i) (dotted [w, x, y, z]) \<noteq> None"
proof -
  let ?v = "dotted [w, x, y, z]" and ?u = "dotted vi"
  note st = mesh_start_fields [OF start]
  let ?n0 = "mesh_nodes m0 i"
  have uv: "?u \<noteq> ?v" using dotted_inject [of vi "[w, x, y, z]"] ij(3,6) by simp
  have ne: "?u \<noteq> ''''" "?v \<noteq> ''''" using dotted_not_empty ij(3) by (auto simp: length_Suc_conv numeral_eq_Suc)
  have virt: "virt (mesh_nodes m0 i) = ?u" "virt (mesh_nodes m0 j) = ?v" using st(9) ij by (simp_all add: virt_def)
  have mask: "nd_mask ?n0 = IP_Mask (v4InV6Prefix @ vi) [255, 255, 0, 0]" using st(8) ij(2,3) by (simp add: ParseIP_dotted)
  have route: "dev_read_turn P decode n q now = forward P n ?v q now" if "nd_mask n = nd_mask ?n0" "nd_opt n = nd_opt ?n0" for n now
    using mask_equal_iff [OF ij(3), of "[w, x, y, z]"] that mask st(9) ij(2,5) uv q(1) by (simp add: dev_read_turn_def Let_def numeral_2_eq_2)
  obtain di where di: "Encode P PacketType_Heartbeat (MHeartbeat \<lparr>heartbeat_VirtAddress = ?u\<rparr>) = Ret di" "length di \<le> MaxBufferSize"
    using fit(1) by (rule fitsE)
  obtain dj where dj: "Encode P PacketType_Heartbeat (MHeartbeat \<lparr>heartbeat_VirtAddress = ?v\<rparr>) = Ret dj" "length dj \<le> MaxBufferSize"
    using fit(2) by (rule fitsE)
  let ?t = "\<lparr>tunnel_AckId = 1, tunnel_VirtAddress = ?v, tunnel_UdpAddress = b\<rparr>"
  obtain dt where dt: "Encode P PacketType_OpenTunnel (MOpenTunnel ?t) = Ret dt" "length dt \<le> MaxBufferSize" using fit(3) by (rule fitsE)
  obtain dt' where dt': "Encode P PacketType_OpenTunnel (MOpenTunnel \<lparr>tunnel_AckId = 2, tunnel_VirtAddress = ?u, tunnel_UdpAddress = a\<rparr>) = Ret dt'"
    using fit(4) by (rule fitsE)
  obtain da where da: "Encode P PacketType_OpenTunnelAck (MOpenTunnelAck \<lparr>ack_AckId = tunnel_AckId ?t\<rparr>) = Ret da"
    using fit(5) unfolding CtrlOpenTunnel.simps by (rule fitsE)
  obtain dr where dr: "Encode P PacketType_Relay (MRelay \<lparr>relay_VirtAddress = ?v, relay_Data = q\<rparr>) = Ret dr" "length dr \<le> MaxBufferSize"
    using fit(6) by (rule fitsE)
  \<comment> \<open>the first packet is dropped and asks for a tunnel\<close>
  let ?n1 = "?n0\<lparr>nd_pending := [?v \<mapsto> 0], nd_requests := [?v]\<rparr>"
  let ?m1 = "m0\<lparr>mesh_nodes := (mesh_nodes m0)(i := ?n1), mesh_read := [(i, q)]\<rparr>"
  have "dev_read_turn P decode ?n0 q 0 = Ret ?n1" using st(1,2,10) by (simp add: route forward_def)
  then have "mesh_step P dial resolve decode vars semver addr m0 ?m1"
    using mesh_step.device [of P dial decode m0 i q 0 ?n1 resolve vars semver addr] st(11) by (simp add: node_step.dev_read)
  then have r1: "mesh_run P dial resolve decode vars semver addr m0 ?m1" by (rule mesh_run_one)
  \<comment> \<open>both nodes beat and are told of each other\<close>
  have nt: "gw_notifier (mesh_gateway m0) = newNotifier" by (simp add: gw_notifier_def st(6) NewServer_def)
  have v1: "virt (mesh_nodes ?m1 i) = ?u" "virt (mesh_nodes ?m1 j) = ?v" using virt ij(1) by (simp_all add: virt_def)
  let ?nodes = "(mesh_nodes ?m1)(i := gateway_write (mesh_nodes ?m1 i) di, j := gateway_write (mesh_nodes ?m1 j) dj)"
  have g1: "gw_pc (mesh_gateway ?m1) = Idle" "clear 0 (gw_disp (mesh_gateway ?m1))" "0 + 2 < (2 :: nat) ^ 63"
    "gw_notifier (mesh_gateway ?m1) = newNotifier" "peers_wf (gw_server (mesh_gateway ?m1))"
    using st(5,6,7) nt by simp_all
  obtain g4 where r2: "mesh_run P dial resolve decode vars semver addr ?m1 (?m1\<lparr>mesh_nodes := ?nodes, mesh_gateway := g4\<rparr>)"
    and g4: "(dt, a) \<in> set (gw_out g4)" "gw_pc g4 = Idle" "clear (0 + 2) (gw_disp g4)" "nt_queue (gw_notifier g4) = make_chan 16"
      "Peer (gw_server g4) ?v = Some \<lparr>VirtAddress = ?v, UDPAddress = b, LastHeartbeat = 0\<rparr>"
    using mesh_meet [where m = ?m1 and addr = addr and dial = dial and decode = decode and semver = semver and resolve = resolve,
        OF rt ij(1) v1 uv ne g1 net(1-4) ver req di dj dt(1) dt'] by blast
  let ?m4 = "?m1\<lparr>mesh_nodes := ?nodes, mesh_gateway := g4\<rparr>"
  \<comment> \<open>the node opens a connection\<close>
  let ?n4 = "gateway_write ?n1 di"
  let ?n5 = "gateway_write (new_conn_node ?n4 ?t b 0) da"
  let ?m5 = "?m4\<lparr>mesh_nodes := (mesh_nodes ?m4)(i := ?n5)\<rparr>"
  have n4: "mesh_nodes ?m4 i = ?n4" using ij(1) by simp
  have r5: "mesh_run P dial resolve decode vars semver addr ?m4 ?m5"
    using mesh_connect [where m = ?m4 and i = i and a = a and addr = addr and dial = dial and r = b, OF rt dt da] g4(1) net(1,5) st(1) n4
    by (simp add: gateway_write_def)
  \<comment> \<open>the second packet is relayed\<close>
  have fw: "dev_read_turn P decode (mesh_nodes ?m5 i) q 0 = Ret (gateway_write (mesh_nodes ?m5 i) dr)"
    using dr(1) by (simp add: route gateway_write_def new_conn_node_def forward_def new_connection_def State_defs)
  have j5: "nd_pipeline (mesh_nodes ?m5 j) = make_chan 512" "nd_dev_out (mesh_nodes ?m5 j) = []"
    using ij(1) st(3,4) by (simp_all add: gateway_write_def)
  have g5: "gw_pc (mesh_gateway ?m5) = Idle" "clear (0 + 2) (gw_disp (mesh_gateway ?m5))" "nt_queue (gw_notifier (mesh_gateway ?m5)) = make_chan 16"
    "Peer (gw_server (mesh_gateway ?m5)) ?v = Some \<lparr>VirtAddress = ?v, UDPAddress = b, LastHeartbeat = 0\<rparr>" using g4 by simp_all
  have res: "resolve (UDPAddress \<lparr>VirtAddress = ?v, UDPAddress = b, LastHeartbeat = 0\<rparr>) = Some b" using net(4) by simp
  obtain m6 where r6: "mesh_run P dial resolve decode vars semver addr ?m5 m6" and m6: "nd_dev_out (mesh_nodes m6 j) = nd_dev_out (mesh_nodes ?m5 j) @ [q]"
    "mesh_read m6 = mesh_read ?m5 @ [(i, q)]" "mesh_nodes m6 i = gateway_write (mesh_nodes ?m5 i) dr"
    using mesh_relay [where m = ?m5 and addr = addr and resolve = resolve and b = b, OF rt dr q(2) fw net(1) ij(1) g5 res net(2) j5(1)] by blast
  have "nd_connections (mesh_nodes m6 i) ?v \<noteq> None" unfolding m6(3) by (simp add: gateway_write_def new_conn_node_def)
  moreover have "mesh_run P dial resolve decode vars semver addr ?m1 m6" by (rule mesh_run_trans [OF r2 mesh_run_trans [OF r5 r6]])
  ultimately show ?thesis using r1 m6(1,2) j5(2) by (intro exI [of _ ?m1] exI [of _ m6]) simp
qed

section \<open>A sample network\<close>

definition sample_opts :: "nat \<Rightarrow> Options" where
  "sample_opts i = sample_opt\<lparr>opt_Address := dotted [10, 0, 0, word_of_nat (Suc i)]\<rparr>"

definition sample_addr :: "nat \<Rightarrow> string set" where
  "sample_addr i = (if i = 0 then {''1.1.1.1:10''} else if i = 1 then {''2.2.2.2:20''} else {})"

definition sample_mesh :: mesh where
  "sample_mesh = \<lparr>mesh_nodes = (\<lambda>i. snd (Serve_setup sample_env (New (sample_opts i)))),
     mesh_gateway = gw_init ''key'' (fresh_dispatcher 1), mesh_read = []\<rparr>"

definition sample_request :: OpenTunnelRequest where
  "sample_request = \<lparr>req_Version = [], req_Algorithm = [], req_Nonce = [], req_Cipher = [],
     req_Source = dotted [10, 0, 0, 1], req_Destination = dotted [10, 0, 0, 2]\<rparr>"

lemma sample_mesh_start: "mesh_start sample_opts (\<lambda>_. sample_env) 1 ''key'' sample_mesh"
  by (auto simp: mesh_start_def sample_mesh_def Serve_setup_def sample_env_def Let_def start_dispatcher_def fresh_dispatcher_def)

lemma sample_apart: "apart sample_addr"
  by (simp add: apart_def sample_addr_def)

lemma fits_sizes: "proto_sizes P \<Longrightarrow> marshals P \<Longrightarrow> utf8_message m \<Longrightarrow> fits P t m \<longleftrightarrow> wire_size m < MaxBufferSize"
  using marshals_Encode [of P m t] by (auto simp: fits_def proto_sizes_def)

lemma dotted_size: "text_size (dotted a) \<le> 17"
  using length_dotted [of a] by (simp add: text_size_def varint_size_small)

lemma wire_fits_heartbeat: "fits wire_lib t (MHeartbeat \<lparr>heartbeat_VirtAddress = dotted a\<rparr>)"
  using dotted_size [of a] by (simp add: fits_sizes MaxBufferSize_def)

lemma wire_fits_tunnel:
  assumes "utf8_string b" and "length b \<le> 4000"
  shows "fits wire_lib t (MOpenTunnel \<lparr>tunnel_AckId = k, tunnel_VirtAddress = dotted a, tunnel_UdpAddress = b\<rparr>)"
  using assms dotted_size [of a] text_size_le [of b] int_size_le [of k] by (simp add: fits_sizes MaxBufferSize_def)

lemma wire_fits_ack: "fits wire_lib t (MOpenTunnelAck \<lparr>ack_AckId = k\<rparr>)"
  using int_size_le [of k] by (simp add: fits_sizes MaxBufferSize_def)

lemma wire_fits_relay: "length q \<le> 4075 \<Longrightarrow> fits wire_lib t (MRelay \<lparr>relay_VirtAddress = dotted a, relay_Data = q\<rparr>)"
  using dotted_size [of a] text_size_le [of q] by (simp add: fits_sizes MaxBufferSize_def)

lemma sample_addr_utf8: "a \<in> sample_addr i \<Longrightarrow> utf8_string a \<and> length a \<le> 4000"
  by (auto simp: sample_addr_def utf8_string_def split: if_splits)

lemma sample_fits:
  "fits wire_lib t (MHeartbeat \<lparr>heartbeat_VirtAddress = dotted v\<rparr>)"
  "a \<in> sample_addr i \<Longrightarrow> fits wire_lib t (MOpenTunnel \<lparr>tunnel_AckId = k, tunnel_VirtAddress = dotted v, tunnel_UdpAddress = a\<rparr>)"
  "fits wire_lib t (MOpenTunnelAck \<lparr>ack_AckId = k\<rparr>)"
  "fits wire_lib t (MRelay \<lparr>relay_VirtAddress = dotted v, relay_Data = [1, 2, 3]\<rparr>)"
  using sample_addr_utf8 by (simp_all add: wire_fits_heartbeat wire_fits_tunnel wire_fits_ack wire_fits_relay)

lemma sample_tunnels_fit:
  "\<And>k i a. a \<in> sample_addr i \<Longrightarrow> fits wire_lib PacketType_OpenTunnel
     (MOpenTunnel \<lparr>tunnel_AckId = k, tunnel_VirtAddress = opt_Address (sample_opts i), tunnel_UdpAddress = a\<rparr>)"
  using sample_fits(2) by (simp add: sample_opts_def)

text \<open>The runs of the sample network, with packets that all go to the second node.\<close>

abbreviation sample_runs :: "mesh \<Rightarrow> mesh \<Rightarrow> bool" where
  "sample_runs \<equiv> mesh_run wire_lib Some Some (\<lambda>_. Some (10, 0, 0, 2)) version_defaults (\<lambda>_. Inr (MajorVersion version_defaults)) sample_addr"

lemma sample_mesh_run:
  "\<exists>m1 m2. sample_runs sample_mesh m1 \<and> mesh_read m1 = [(0, [1, 2, 3])] \<and>
     nd_requests (mesh_nodes m1 0) = [dotted [10, 0, 0, 2]] \<and> sample_runs m1 m2 \<and> mesh_read m2 = [(0, [1, 2, 3]), (0, [1, 2, 3])] \<and>
     nd_dev_out (mesh_nodes m2 1) = [[1, 2, 3]] \<and> nd_connections (mesh_nodes m2 0) (dotted [10, 0, 0, 2]) \<noteq> None"
  by (rule cold_start_run [where vi = "[10, 0, 0, 1]" and a = "''1.1.1.1:10''" and b = "''2.2.2.2:20''" and req = sample_request and
        major = "MajorVersion version_defaults",
        OF sample_mesh_start])
    (simp_all add: sample_opts_def sample_addr_def sample_request_def sample_fits(1,3,4) sample_fits(2) [of _ 0] sample_fits(2) [of _ 1] MaxBufferSize_def)

section \<open>Properties\<close>

text \<open>Notifications carry the addresses of nodes only.\<close>

lemma mesh_tunnels_fit:
  assumes "mesh_start opts envs concurrency key m"
    and "\<And>k j a. a \<in> addr j \<Longrightarrow> fits P PacketType_OpenTunnel
      (MOpenTunnel \<lparr>tunnel_AckId = k, tunnel_VirtAddress = opt_Address (opts j), tunnel_UdpAddress = a\<rparr>)"
  shows "tunnels_fit P (mesh_own addr m)"
proof -
  have "fits P PacketType_OpenTunnel (MOpenTunnel t)" if own: "mesh_own addr m (tunnel_UdpAddress t) (tunnel_VirtAddress t)" for t :: CtrlOpenTunnel
  proof -
    obtain j where "tunnel_UdpAddress t \<in> addr j" "tunnel_VirtAddress t = opt_Address (opts j)"
      using own mesh_start_virt [OF assms(1)] by (auto simp: mesh_own_def)
    with assms(2) [OF this(1), of "tunnel_AckId t"] show ?thesis by (cases t) simp
  qed
  then show ?thesis by (simp add: tunnels_fit_def)
qed

text \<open>
  C1: packets leave the network only where they are addressed. In every state of every run of any number of nodes and the
  gateway, over a network that loses, duplicates, delays and reorders datagrams and cuts those that are longer than the receive
  buffers, and with HTTP requests from anybody: each packet that a node has written to its device comes from a packet that was read from the
  device of some node and whose IPv4 destination is the virtual address of the node that wrote it. It is that packet, unaltered, if
  the packet is shorter than \<open>MaxBufferSize\<close> and its relay message fits a datagram of \<open>MaxBufferSize\<close> bytes; otherwise it may
  be a front part of it. This covers direct and relayed packets, changing public addresses and reconnections. It assumes that no
  two nodes share a public address, that dialling and resolving keep an address, that notifications with the addresses of
  nodes fit the buffers, and of the protobuf library that it decodes what it encoded and that a message that is cut short is refused or
  lacks fields.
\<close>

theorem packets_reach_only_their_destination:
  assumes "mesh_start opts envs concurrency key m0" and "mesh_run P dial resolve decode vars semver addr m0 m"
    and "proto_roundtrip P" "proto_typed P" "proto_cut P" and "dials_exactly dial" "dials_exactly resolve" and "apart addr"
    and "\<And>k j a. a \<in> addr j \<Longrightarrow> fits P PacketType_OpenTunnel
      (MOpenTunnel \<lparr>tunnel_AckId = k, tunnel_VirtAddress = opt_Address (opts j), tunnel_UdpAddress = a\<rparr>)"
    and "q \<in> set (nd_dev_out (mesh_nodes m i))"
  shows "\<exists>j p. (j, p) \<in> set (mesh_read m) \<and> addressed decode p (opt_Address (opts i)) \<and> prefix q p \<and>
    (length p < MaxBufferSize \<and> fits P PacketType_Relay (MRelay \<lparr>relay_VirtAddress = opt_Address (opts i), relay_Data = p\<rparr>) \<longrightarrow> q = p)"
proof -
  have "mesh_inv P decode addr m"
    by (rule mesh_run_inv [OF assms(2) mesh_start_inv [OF assms(1)] assms(3-8) mesh_tunnels_fit [OF assms(1,9)]])
  then have "mesh_sent P decode m q (virt (mesh_nodes m i))" using assms(10) by (auto simp: mesh_inv_def node_carries_def)
  then show ?thesis
    unfolding mesh_run_virt [OF assms(2)] mesh_start_virt [OF assms(1)] mesh_sent_def whole_def by blast
qed

text \<open>
  C3: addresses stay with their nodes. In the same runs, every connection in the table of a node leads to a public
  address of the very node whose virtual address it is filed under, and every entry of the gateway's directory names a
  public address of the node with that virtual address. The assumptions are the same.
\<close>

theorem connections_lead_to_their_peers:
  assumes "mesh_start opts envs concurrency key m0" and "mesh_run P dial resolve decode vars semver addr m0 m"
    and "proto_roundtrip P" "proto_typed P" "proto_cut P" and "dials_exactly dial" "dials_exactly resolve" and "apart addr"
    and "\<And>k j a. a \<in> addr j \<Longrightarrow> fits P PacketType_OpenTunnel
      (MOpenTunnel \<lparr>tunnel_AckId = k, tunnel_VirtAddress = opt_Address (opts j), tunnel_UdpAddress = a\<rparr>)"
  shows "(nd_connections (mesh_nodes m i) v = Some p \<longrightarrow>
      (\<exists>c j. nd_heap (mesh_nodes m i) p = Some c \<and> opt_Address (opts j) = v \<and> c_remote c \<in> addr j)) \<and>
    (Peer (gw_server (mesh_gateway m)) v = Some info \<longrightarrow> (\<exists>j. opt_Address (opts j) = v \<and> UDPAddress info \<in> addr j))"
proof -
  have inv: "mesh_inv P decode addr m"
    by (rule mesh_run_inv [OF assms(2) mesh_start_inv [OF assms(1)] assms(3-8) mesh_tunnels_fit [OF assms(1,9)]])
  have nodes: "virt (mesh_nodes m j) = opt_Address (opts j)" for j
    using mesh_run_virt [OF assms(2)] mesh_start_virt [OF assms(1)] by simp
  have "\<exists>c j. nd_heap (mesh_nodes m i) p = Some c \<and> opt_Address (opts j) = v \<and> c_remote c \<in> addr j"
    if tab: "nd_connections (mesh_nodes m i) v = Some p"
  proof -
    have nc: "node_carries P (mesh_own addr m) (mesh_sent P decode m) (mesh_nodes m i)" using inv by (simp add: mesh_inv_def)
    obtain c where c: "nd_heap (mesh_nodes m i) p = Some c" "peerVirtAddr c = v"
      using node_inv_tableD [OF _ tab] nc by (auto simp: node_carries_def)
    have "mesh_own addr m (c_remote c) v" using node_carries_ran [OF nc c(1)] c(2) by (simp add: conn_carries_def)
    then show ?thesis using c nodes by (auto simp: mesh_own_def)
  qed
  moreover have "\<exists>j. opt_Address (opts j) = v \<and> UDPAddress info \<in> addr j" if "Peer (gw_server (mesh_gateway m)) v = Some info"
  proof -
    have "mesh_own addr m (UDPAddress info) v" using inv that by (auto simp: mesh_inv_def gw_carries_def Peer_def)
    then show ?thesis using nodes by (auto simp: mesh_own_def)
  qed
  ultimately show ?thesis by blast
qed

text \<open>
  C2: from a cold start to delivery. Two nodes of the same /16 network and the gateway have just been set up. Then there is a run in
  which the first packet that node \<open>i\<close> reads for node \<open>j\<close> is dropped and leaves a request for a tunnel, the heartbeats
  of both reach the gateway, the request makes the gateway notify both, \<open>i\<close> opens a connection, and a second
  packet arrives, byte for byte, at the device of \<open>j\<close> through the gateway's relay. It assumes that the messages
  involved encode to datagrams of at most \<open>MaxBufferSize\<close> bytes and decode to themselves.
\<close>

theorem cold_start_delivers:
  assumes "mesh_start opts envs concurrency key m0" "0 < concurrency" "proto_roundtrip P"
    and "i \<noteq> j" "opt_Address (opts i) = dotted vi" "length vi = 4" "opt_Address (opts j) = dotted [w, x, y, z]"
      "take 2 vi = [w, x]" "vi \<noteq> [w, x, y, z]"
    and "a \<in> addr i" "b \<in> addr j" "resolve a = Some a" "resolve b = Some b" "dial b = Some b"
    and "semver (req_Version req) = Inr major" "sint (MajorVersion vars) \<le> sint major"
    and "req_Source (req :: OpenTunnelRequest) = dotted vi" "req_Destination req = dotted [w, x, y, z]"
    and "decode q = Some (w, x, y, z)" "length q < MaxBufferSize"
    and "fits P PacketType_Heartbeat (MHeartbeat \<lparr>heartbeat_VirtAddress = dotted vi\<rparr>)"
      "fits P PacketType_Heartbeat (MHeartbeat \<lparr>heartbeat_VirtAddress = dotted [w, x, y, z]\<rparr>)"
      "fits P PacketType_OpenTunnel (MOpenTunnel \<lparr>tunnel_AckId = 1, tunnel_VirtAddress = dotted [w, x, y, z], tunnel_UdpAddress = b\<rparr>)"
      "fits P PacketType_OpenTunnel (MOpenTunnel \<lparr>tunnel_AckId = 2, tunnel_VirtAddress = dotted vi, tunnel_UdpAddress = a\<rparr>)"
      "fits P PacketType_OpenTunnelAck (MOpenTunnelAck \<lparr>ack_AckId = 1\<rparr>)"
      "fits P PacketType_Relay (MRelay \<lparr>relay_VirtAddress = dotted [w, x, y, z], relay_Data = q\<rparr>)"
  shows "\<exists>m1 m2. mesh_run P dial resolve decode vars semver addr m0 m1 \<and> mesh_read m1 = [(i, q)] \<and>
     nd_requests (mesh_nodes m1 i) = [dotted [w, x, y, z]] \<and>
     mesh_run P dial resolve decode vars semver addr m1 m2 \<and> mesh_read m2 = [(i, q), (i, q)] \<and>
     nd_dev_out (mesh_nodes m2 j) = [q]"
  using cold_start_run [where opts = opts and addr = addr and resolve = resolve and dial = dial and semver = semver and decode = decode, OF assms]
  by blast

theorem cold_start_delivers_witness:
  "\<exists>m1 m2. sample_runs sample_mesh m1 \<and> mesh_read m1 = [(0, [1, 2, 3])] \<and> sample_runs m1 m2 \<and> nd_dev_out (mesh_nodes m2 1) = [[1, 2, 3]]"
proof -
  have "\<exists>m1 m2. sample_runs sample_mesh m1 \<and> mesh_read m1 = [(0, [1, 2, 3])] \<and>
     nd_requests (mesh_nodes m1 0) = [dotted [10, 0, 0, 2]] \<and> sample_runs m1 m2 \<and> mesh_read m2 = [(0, [1, 2, 3]), (0, [1, 2, 3])] \<and>
     nd_dev_out (mesh_nodes m2 1) = [[1, 2, 3]]"
    by (rule cold_start_delivers [where vi = "[10, 0, 0, 1]" and a = "''1.1.1.1:10''" and b = "''2.2.2.2:20''" and req = sample_request and
        major = "MajorVersion version_defaults",
          OF sample_mesh_start])
      (simp_all add: sample_opts_def sample_addr_def sample_request_def sample_fits(1,3,4) sample_fits(2) [of _ 0] sample_fits(2) [of _ 1] MaxBufferSize_def)
  then show ?thesis by blast
qed

theorem packets_reach_only_their_destination_witness:
  "\<exists>m j p. sample_runs sample_mesh m \<and> [1, 2, 3] \<in> set (nd_dev_out (mesh_nodes m 1)) \<and> (j, p) \<in> set (mesh_read m) \<and>
     addressed (\<lambda>_. Some (10, 0, 0, 2)) p (opt_Address (sample_opts 1)) \<and> prefix [1, 2, 3] p"
proof -
  obtain m1 m where run: "sample_runs sample_mesh m1" "sample_runs m1 m" and out: "[1, 2, 3] \<in> set (nd_dev_out (mesh_nodes m 1))"
    using sample_mesh_run by auto
  note r = mesh_run_trans [OF run]
  have exact: "dials_exactly Some" by (simp add: dials_exactly_def)
  from packets_reach_only_their_destination [OF sample_mesh_start r wire_lib_roundtrip wire_lib_typed wire_lib_cut exact exact
      sample_apart sample_tunnels_fit out] r out
  show ?thesis by blast
qed

theorem connections_lead_to_their_peers_witness:
  "\<exists>m p c j. sample_runs sample_mesh m \<and> nd_connections (mesh_nodes m 0) (dotted [10, 0, 0, 2]) = Some p \<and>
     nd_heap (mesh_nodes m 0) p = Some c \<and> opt_Address (sample_opts j) = dotted [10, 0, 0, 2] \<and> c_remote c \<in> sample_addr j"
proof -
  obtain m1 m p where run: "sample_runs sample_mesh m1" "sample_runs m1 m" and tab: "nd_connections (mesh_nodes m 0) (dotted [10, 0, 0, 2]) = Some p"
    using sample_mesh_run by auto
  note r = mesh_run_trans [OF run]
  have exact: "dials_exactly Some" by (simp add: dials_exactly_def)
  from connections_lead_to_their_peers [OF sample_mesh_start r wire_lib_roundtrip wire_lib_typed wire_lib_cut exact exact
      sample_apart sample_tunnels_fit] r tab
  show ?thesis by blast
qed

end
