(* ===== verification/Relay_Size.thy ===== *)
theory Relay_Size
  imports Mesh_Properties
begin

text \<open>
  The sizes of relay messages against the receive buffer of the gateway (\<open>node/node.go\<close>, \<open>gateway/gateway.go\<close>): which packets of the virtual
  device survive the relay, and what becomes of the others, for any protobuf library with the documented encoded sizes.
\<close>

lemma relay_fits_iff:
  assumes "proto_sizes P" and "Encode P PacketType_Relay (MRelay \<lparr>relay_VirtAddress = dotted a, relay_Data = q\<rparr>) = Ret d"
    and "length q \<le> MaxBufferSize"
  shows "length d \<le> MaxBufferSize \<longleftrightarrow> length q + length (dotted a) + 6 \<le> MaxBufferSize"
proof -
  have d: "length d = 1 + text_size (dotted a) + text_size q" using assms(1,2) by (auto simp: proto_sizes_def Encode_Ret_iff)
  have "dotted a \<noteq> []" by (simp add: dotted_def)
  then have a: "text_size (dotted a) = 2 + length (dotted a)" using length_dotted [of a] by (simp add: text_size_def varint_size_small)
  show ?thesis
  proof (cases "length q < 128")
    case True
    then have "text_size q \<le> length q + 2" by (simp add: text_size_def varint_size_small)
    then show ?thesis using True d a length_dotted [of a] by (simp add: MaxBufferSize_def)
  next
    case False
    then have "text_size q = length q + 3" using assms(3) by (auto simp: text_size_def varint_size_small MaxBufferSize_def)
    then show ?thesis using d a by (simp add: MaxBufferSize_def add.commute)
  qed
qed

text \<open>A relay message that is cut short lacks its address, which no peer has, or its data.\<close>

lemma relay_cut:
  assumes P: "proto_cut P" "proto_typed P" and enc: "Encode P PacketType_Relay (MRelay \<lparr>relay_VirtAddress = v, relay_Data = q\<rparr>) = Ret d"
    and long: "MaxBufferSize < length d" and peer: "Peer s '''' = None"
  shows "serve_turn P s remote d now = Ret s \<or>
    serve_turn P s remote d now = go_bind (process_relay s \<lparr>relay_VirtAddress = v, relay_Data = []\<rparr>) (\<lambda>(err, s'). Ret s')"
proof -
  let ?m = "MRelay \<lparr>relay_VirtAddress = v, relay_Data = q\<rparr>" and ?zero = "MRelay \<lparr>relay_VirtAddress = '''', relay_Data = []\<rparr>"
  obtain b where b: "proto_Marshal P ?m = Inr b" "d = 1 # b" using enc by (auto simp: Encode_Ret_iff PacketType_defs)
  have cut: "MaxBufferSize - 1 < length b" using long b(2) by (simp add: MaxBufferSize_def)
  have turn: "serve_turn P s remote d now = go_bind (process P s remote (1 # take (MaxBufferSize - 1) b) now) (\<lambda>(err, s'). Ret s')"
    by (simp add: serve_turn_def b(2) MaxBufferSize_def take_Cons')
  show ?thesis
  proof (cases "proto_Unmarshal P ?zero (take (MaxBufferSize - 1) b)")
    case (Inl e)
    then show ?thesis unfolding turn process_Cons by simp
  next
    case (Inr m')
    then have "proto_Unmarshal P (proto_Reset ?m) (take (MaxBufferSize - 1) b) = Inr m'" by (simp add: Reset_defs)
    from proto_cutD [OF P(1) b(1) cut this] obtain r where r: "m' = MRelay r" "relay_VirtAddress r \<in> {v, ''''}" "relay_Data r \<in> {q, []}"
      "r \<noteq> \<lparr>relay_VirtAddress = v, relay_Data = q\<rparr>" by (cases m') auto
    then have shape: "relay_VirtAddress r = '''' \<or> r = \<lparr>relay_VirtAddress = v, relay_Data = []\<rparr>" by (cases r) auto
    have proc: "process P s remote (1 # take (MaxBufferSize - 1) b) now = process_relay s r"
      using Inr unfolding process_Cons r(1) by simp
    from shape show ?thesis unfolding turn proc using peer by (auto simp: process_relay_def)
  qed
qed

section \<open>Properties\<close>

text \<open>
  C38: which packets the relay carries. A node reads packets of up to \<open>MaxBufferSize\<close> (4096) bytes from its device and wraps
  them for the gateway. The datagram fits the gateway's buffer exactly when the packet, the text of the
  destination address and six bytes of framing do, and then the packet is handed to the relay with its data intact; this covers every
  packet of up to 4075 bytes. When the datagram does not fit, the packet never gets through: what arrives is cut off, and
  the gateway is unchanged or hands on an empty packet. Of the protobuf library it needs the documented sizes,
  that it decodes what it encoded and that a message that is cut short is refused or lacks fields.
\<close>

theorem relay_size_limit:
  assumes "proto_roundtrip P" "proto_typed P" "proto_cut P" "proto_sizes P" and "length q \<le> MaxBufferSize" and "Peer s '''' = None"
    and "Encode P PacketType_Relay (MRelay \<lparr>relay_VirtAddress = dotted a, relay_Data = q\<rparr>) = Ret d"
  shows "(length d \<le> MaxBufferSize \<longleftrightarrow> length q + length (dotted a) + 6 \<le> MaxBufferSize) \<and>
    (length q \<le> 4075 \<longrightarrow> length d \<le> MaxBufferSize) \<and>
    (if length d \<le> MaxBufferSize
     then serve_turn P s remote d now =
       go_bind (process_relay s \<lparr>relay_VirtAddress = dotted a, relay_Data = q\<rparr>) (\<lambda>(err, s'). Ret s')
     else serve_turn P s remote d now = Ret s \<or>
       serve_turn P s remote d now =
         go_bind (process_relay s \<lparr>relay_VirtAddress = dotted a, relay_Data = []\<rparr>) (\<lambda>(err, s'). Ret s'))"
proof -
  note size = relay_fits_iff [OF assms(4,7,5)]
  have "length q \<le> 4075 \<longrightarrow> length d \<le> MaxBufferSize" using size length_dotted [of a] by (simp add: MaxBufferSize_def)
  moreover have "serve_turn P s remote d now =
      go_bind (process_relay s \<lparr>relay_VirtAddress = dotted a, relay_Data = q\<rparr>) (\<lambda>(err, s'). Ret s')" if "length d \<le> MaxBufferSize"
    using serve_turn_Encode [OF assms(1,7) that, of s remote now] by simp
  ultimately show ?thesis using size relay_cut [OF assms(3,2,7) _ assms(6), of remote now] by auto
qed

theorem relay_size_limit_witness:
  "\<exists>d. Encode wire_lib PacketType_Relay (MRelay \<lparr>relay_VirtAddress = dotted [10, 0, 0, 1], relay_Data = replicate 4083 7\<rparr>) = Ret d \<and>
     MaxBufferSize < length d \<and>
     serve_turn wire_lib (NewServer newNotifier ''key'') ''1.1.1.1:10'' d 0 = Ret (NewServer newNotifier ''key'')"
proof -
  let ?m = "MRelay \<lparr>relay_VirtAddress = dotted [10, 0, 0, 1], relay_Data = replicate 4083 7\<rparr>"
  have "length (dotted [10, 0, 0, 1]) = 8" by code_simp
  moreover obtain d where "Encode wire_lib PacketType_Relay ?m = Ret d"
    by (rule marshals_EncodeE [OF wire_lib_marshals, of ?m]) simp_all
  moreover have "Peer (NewServer newNotifier ''key'') '''' = None" by (simp add: Peer_def NewServer_def)
  ultimately show ?thesis
    using relay_size_limit [OF wire_lib_roundtrip wire_lib_typed wire_lib_cut wire_lib_sizes, of "replicate 4083 7"
        "NewServer newNotifier ''key''" "[10, 0, 0, 1]" d "''1.1.1.1:10''" 0]
    by (auto simp: MaxBufferSize_def process_relay_def Peer_def NewServer_def)
qed

end
