(* ===== verification/Close_Race.thy ===== *)
theory Close_Race
  imports Node_Properties
begin

text \<open>
  \<open>connection.close\<close> (\<open>node/connection.go\<close>) with one step per access to the channel \<open>die\<close>: the \<open>select\<close> looks whether the channel is
  closed, and its \<open>default\<close> branch closes it. Calls of different goroutines may interleave between the two. The loop of the
  connection calls \<open>close\<close> when its peer has been silent, and \<open>onOpenTunnel\<close> calls it, in another goroutine, when the
  address of the peer has changed. Calls that do not overlap have the effect of \<open>conn_close\<close>, as the other theories take
  them; overlapping calls may close the channel twice, which panics.
\<close>

section \<open>Calls of close\<close>

datatype close_pc =
    CIdle
  | CSelect  \<comment> \<open>before the \<open>select\<close>\<close>
  | CDefault  \<comment> \<open>before \<open>close(c.die)\<close>\<close>
  | CDone
  | CPanicked string

record close_state =
  cs_conn :: connection
  cs_pc :: "nat \<Rightarrow> close_pc"

inductive close_step :: "nat \<Rightarrow> close_state \<Rightarrow> close_state \<Rightarrow> bool" where
  call: "cs_pc s i = CIdle \<or> cs_pc s i = CDone \<Longrightarrow> close_step i s (s\<lparr>cs_pc := (cs_pc s)(i := CSelect)\<rparr>)"
| already: "cs_pc s i = CSelect \<Longrightarrow> c_die (cs_conn s) \<Longrightarrow> close_step i s (s\<lparr>cs_pc := (cs_pc s)(i := CDone)\<rparr>)"
| default: "cs_pc s i = CSelect \<Longrightarrow> \<not> c_die (cs_conn s) \<Longrightarrow> close_step i s (s\<lparr>cs_pc := (cs_pc s)(i := CDefault)\<rparr>)"
| close: "cs_pc s i = CDefault \<Longrightarrow> \<not> c_die (cs_conn s) \<Longrightarrow>
    close_step i s (s\<lparr>cs_conn := (cs_conn s)\<lparr>c_die := True\<rparr>, cs_pc := (cs_pc s)(i := CDone)\<rparr>)"
| panic: "cs_pc s i = CDefault \<Longrightarrow> c_die (cs_conn s) \<Longrightarrow>
    close_step i s (s\<lparr>cs_pc := (cs_pc s)(i := CPanicked ''close of closed channel'')\<rparr>)"

definition no_calls :: "connection \<Rightarrow> close_state" where
  "no_calls c = \<lparr>cs_conn = c, cs_pc = (\<lambda>_. CIdle)\<rparr>"

inductive close_reach :: "connection \<Rightarrow> close_state \<Rightarrow> bool" for c where
  init: "close_reach c (no_calls c)"
| step: "close_reach c s \<Longrightarrow> close_step i s s' \<Longrightarrow> close_reach c s'"

text \<open>The runs in which a goroutine takes a step only while no other one is inside a call.\<close>

definition inside :: "close_pc \<Rightarrow> bool" where
  "inside pc \<longleftrightarrow> pc = CSelect \<or> pc = CDefault"

inductive close_alone :: "connection \<Rightarrow> close_state \<Rightarrow> bool" for c where
  init: "close_alone c (no_calls c)"
| step: "close_alone c s \<Longrightarrow> close_step i s s' \<Longrightarrow> \<forall>j. j \<noteq> i \<longrightarrow> \<not> inside (cs_pc s j) \<Longrightarrow> close_alone c s'"

inductive_cases close_stepE: "close_step i s s'"

section \<open>Calls that do not overlap\<close>

fun pc_fine :: "connection \<Rightarrow> connection \<Rightarrow> close_pc \<Rightarrow> bool" where
  "pc_fine c d (CPanicked e) \<longleftrightarrow> False"
| "pc_fine c d CDefault \<longleftrightarrow> \<not> c_die d"
| "pc_fine c d CDone \<longleftrightarrow> d = conn_close c"
| "pc_fine c d _ \<longleftrightarrow> True"

definition alone_inv :: "connection \<Rightarrow> close_state \<Rightarrow> bool" where
  "alone_inv c s \<longleftrightarrow> (cs_conn s = c \<or> cs_conn s = conn_close c) \<and> (\<forall>i. pc_fine c (cs_conn s) (cs_pc s i))"

lemma conn_close_dead: "c_die (conn_close c)" "c_die c \<Longrightarrow> conn_close c = c" "\<not> c_die c \<Longrightarrow> conn_close c = c\<lparr>c_die := True\<rparr>"
  by (simp_all add: conn_close_def)

lemma alone_inv_step:
  assumes inv: "alone_inv c s" and step: "close_step i s s'" and quiet: "\<forall>j. j \<noteq> i \<longrightarrow> \<not> inside (cs_pc s j)"
  shows "alone_inv c s'"
proof -
  have conn: "cs_conn s = c \<or> cs_conn s = conn_close c" using inv by (simp add: alone_inv_def)
  have pc: "pc_fine c (cs_conn s) (cs_pc s j)" for j
    using inv unfolding alone_inv_def by blast
  have dead: "c_die (cs_conn s) \<Longrightarrow> cs_conn s = conn_close c" using conn conn_close_dead by metis
  show ?thesis
    using step
  proof cases
    case close
    then have c: "cs_conn s = c" "\<not> c_die c" using conn conn_close_dead by auto
    have "pc_fine c (conn_close c) (cs_pc s j)" if "j \<noteq> i" for j
      using pc [of j] quiet that by (cases "cs_pc s j") (auto simp: inside_def)
    then show ?thesis using close c conn_close_dead(3) [OF c(2)] unfolding alone_inv_def by auto
  next
    case panic
    then show ?thesis using pc [of i] by simp
  qed (use conn pc dead in \<open>auto simp: alone_inv_def\<close>)
qed

lemma alone_inv_reach: "close_alone c s \<Longrightarrow> alone_inv c s"
proof (induction rule: close_alone.induct)
  case init
  show ?case by (simp add: no_calls_def alone_inv_def)
qed (blast intro: alone_inv_step)

section \<open>Two calls that overlap\<close>

definition two_calls :: "connection \<Rightarrow> close_pc \<Rightarrow> close_pc \<Rightarrow> close_state" where
  "two_calls c p q = \<lparr>cs_conn = c, cs_pc = (\<lambda>i. if i = 0 then p else if i = 1 then q else CIdle)\<rparr>"

lemma two_calls_pc: "cs_pc (two_calls c p q) 0 = p" "cs_pc (two_calls c p q) 1 = q"
  by (simp_all add: two_calls_def)

lemma close_reach_via: "close_reach c s \<Longrightarrow> close_step i s t \<Longrightarrow> s' = t \<Longrightarrow> close_reach c s'"
  using close_reach.step by blast

lemma overlapping_calls_panic:
  assumes "\<not> c_die c"
  shows "\<exists>s. close_reach c s \<and> cs_pc s 0 = CDone \<and> cs_pc s 1 = CPanicked ''close of closed channel''"
proof -
  note simps = two_calls_def no_calls_def fun_eq_iff assms
  have "close_reach c (two_calls c CSelect CIdle)"
    by (rule close_reach_via [OF close_reach.init close_step.call [of _ 0]]) (simp_all add: simps)
  then have "close_reach c (two_calls c CSelect CSelect)"
    by (rule close_reach_via [OF _ close_step.call [of _ 1]]) (simp_all add: simps)
  then have "close_reach c (two_calls c CDefault CSelect)"
    by (rule close_reach_via [OF _ close_step.default [of _ 0]]) (simp_all add: simps)
  then have "close_reach c (two_calls c CDefault CDefault)"
    by (rule close_reach_via [OF _ close_step.default [of _ 1]]) (simp_all add: simps)
  then have "close_reach c (two_calls (c\<lparr>c_die := True\<rparr>) CDone CDefault)"
    by (rule close_reach_via [OF _ close_step.close [of _ 0]]) (simp_all add: simps)
  then have "close_reach c (two_calls (c\<lparr>c_die := True\<rparr>) CDone (CPanicked ''close of closed channel''))"
    by (rule close_reach_via [OF _ close_step.panic [of _ 1]]) (simp_all add: simps)
  then show ?thesis using two_calls_pc by blast
qed

section \<open>Properties\<close>

text \<open>
  C12: closing a connection is not atomic. Take any reachable state of a node with a connection that its peer has left silent for
  twice the keepalive period while the gateway announces a new address of that peer. Then the turn of the connection's loop and the
  turn of the handler both call \<open>close\<close> on it. Calls that do not overlap, however many, never panic and
  close the channel once; but there is an interleaving of two calls in which both find the channel open and the second
  one panics, which ends the process.
\<close>

theorem close_race:
  assumes "Serve_setup env (New opt) = (None, n0)" and "node_run P dial decode n0 ls n"
    and "nd_connections n (tunnel_VirtAddress t) = Some p" and "nd_heap n p = Some c" and "\<not> c_die c"
    and "c_keepalive c + PeerKeepaliveDuration * 2 < now" and "c_remote c \<noteq> tunnel_UdpAddress t"
  shows "loop_keepalive P rnd c now = Ret (conn_close c, []) \<and>
    onOpenTunnel P dial n t now = connect P dial (n\<lparr>nd_heap := (nd_heap n)(p \<mapsto> conn_close c)\<rparr>) t now \<and>
    (\<exists>s. close_reach c s \<and> cs_pc s 0 = CDone \<and> cs_pc s 1 = CPanicked ''close of closed channel'') \<and>
    (\<forall>s i. close_alone c s \<longrightarrow> (\<forall>e. cs_pc s i \<noteq> CPanicked e) \<and> (cs_pc s i = CDone \<longrightarrow> cs_conn s = conn_close c))"
proof (intro conjI allI impI)
  show "loop_keepalive P rnd c now = Ret (conn_close c, [])" using assms(6) by (simp add: loop_keepalive_def)
  show "onOpenTunnel P dial n t now = connect P dial (n\<lparr>nd_heap := (nd_heap n)(p \<mapsto> conn_close c)\<rparr>) t now"
    using assms(3,4,7) by (simp add: onOpenTunnel_def)
  show "\<exists>s. close_reach c s \<and> cs_pc s 0 = CDone \<and> cs_pc s 1 = CPanicked ''close of closed channel''"
    by (rule overlapping_calls_panic [OF assms(5)])
  fix s i
  assume "close_alone c s"
  then have pc: "pc_fine c (cs_conn s) (cs_pc s i)"
    using alone_inv_reach [of c s] unfolding alone_inv_def by blast
  show "cs_pc s i \<noteq> CPanicked e" for e using pc by auto
  show "cs_conn s = conn_close c" if "cs_pc s i = CDone" using pc that by simp
qed

theorem close_race_witness:
  "\<exists>c s. nd_heap (sample_node ''2.2.2.2:20'') 0 = Some c \<and> close_reach c s \<and> cs_pc s 1 = CPanicked ''close of closed channel'' \<and>
     loop_keepalive sample_lib (\<lambda>_. 0) c (c_keepalive c + PeerKeepaliveDuration * 2 + 1) = Ret (conn_close c, [])"
proof -
  let ?n = "sample_node ''2.2.2.2:20''" and ?t = "\<lparr>tunnel_AckId = 2, tunnel_VirtAddress = ''10.0.0.2'', tunnel_UdpAddress = ''3.3.3.3:30''\<rparr>"
  obtain c where c: "nd_heap ?n 0 = Some c" "nd_connections ?n ''10.0.0.2'' = Some 0" "\<not> c_die c" "c_remote c = ''2.2.2.2:20''"
    by (auto simp: sample_node_def new_conn_node_def new_connection_def New_def sample_start_def sample_tunnel_def)
  from close_race [OF sample_start_up sample_node_run, of ?t 0 c "c_keepalive c + PeerKeepaliveDuration * 2 + 1" "\<lambda>_. 0"] c
  show ?thesis by auto
qed

end
