(* ===== verification/Gateway_Safety.thy ===== *)
theory Gateway_Safety
  imports Gateway_System Wire
begin

text \<open>
  The gateway's goroutines do not panic. A worker panics when a notification cannot be encoded,
  the dispatcher when it has no channel or its counter has wrapped around. The invariant says that every
  text the gateway keeps is valid UTF-8, because the protobuf reader lets no other string in, and
  bounds the counter by the number of steps; it holds in every interleaving of the gateway's goroutines.
\<close>

section \<open>The invariant\<close>

definition encodable :: "packet \<Rightarrow> bool" where
  "encodable p \<longleftrightarrow> (case pk_message p of PayloadProto m \<Rightarrow> utf8_message m | PayloadRaw b \<Rightarrow> True)"

definition utf8_peer :: "PeerInfo \<Rightarrow> bool" where
  "utf8_peer info \<longleftrightarrow> utf8_string (VirtAddress info) \<and> utf8_string (UDPAddress info)"

definition peers_utf8 :: "'n Server \<Rightarrow> bool" where
  "peers_utf8 s \<longleftrightarrow> (\<forall>v info. srv_peers s v = Some info \<longrightarrow> utf8_peer info)"

definition table_utf8 :: "notifier \<Rightarrow> bool" where
  "table_utf8 n \<longleftrightarrow> (\<forall>k rp. nt_data n k = Some rp \<longrightarrow> encodable (rp_packet rp))"

text \<open>\<open>k\<close> bounds the packets dispatched so far.\<close>

definition disp_ok :: "nat \<Rightarrow> dispatcher \<Rightarrow> bool" where
  "disp_ok k d \<longleftrightarrow> dp_chs d \<noteq> [] \<and> unat (dp_roundTrip d) \<le> k \<and> (\<forall>p \<in># in_flight d. encodable p)"

definition safe_inv :: "nat \<Rightarrow> gateway \<Rightarrow> bool" where
  "safe_inv k g \<longleftrightarrow> gw_inv g \<and> peers_utf8 (gw_server g) \<and> table_utf8 (gw_notifier g) \<and> disp_ok k (gw_disp g)"

text \<open>The source addresses of datagrams are texts of UDP addresses.\<close>

fun utf8_label :: "gw_label \<Rightarrow> bool" where
  "utf8_label (LRecv remote _ _) \<longleftrightarrow> utf8_string remote"
| "utf8_label _ \<longleftrightarrow> True"

lemma raw_encodable: "is_raw p \<Longrightarrow> encodable p"
  by (auto simp: is_raw_def encodable_def)

lemma encodable_tunnel [simp]: "encodable (tunnel_packet a b k) \<longleftrightarrow> utf8_peer b"
  by (simp add: encodable_def tunnel_packet_def utf8_peer_def)

lemma disp_ok_mono: "disp_ok k d \<Longrightarrow> k \<le> n \<Longrightarrow> disp_ok n d"
  by (simp add: disp_ok_def)

section \<open>Preservation by the operations\<close>

lemma peers_utf8_Heartbeat:
  "peers_utf8 s \<Longrightarrow> utf8_string (heartbeat_VirtAddress hb) \<Longrightarrow> utf8_string remote \<Longrightarrow> peers_utf8 (Heartbeat s remote hb now)"
  by (auto simp: peers_utf8_def utf8_peer_def Heartbeat_def Let_def split: option.splits if_splits)

lemma peers_utf8_notifier [simp]: "peers_utf8 (s\<lparr>srv_notifier := n\<rparr>) \<longleftrightarrow> peers_utf8 s"
  by (simp add: peers_utf8_def)

lemma table_utf8_OpenTunnel:
  "table_utf8 n \<Longrightarrow> utf8_peer src \<Longrightarrow> utf8_peer dst \<Longrightarrow> table_utf8 (Notifier_OpenTunnel n src dst)"
  by (auto simp: table_utf8_def Notifier_OpenTunnel_def open_one_def Let_def)

lemma table_utf8_Ack: "table_utf8 n \<Longrightarrow> table_utf8 (openTunnelAck n k)"
  by (auto simp: table_utf8_def openTunnelAck_def)

lemma unat_Suc_le: "unat ((w :: int64) + 1) \<le> Suc (unat w)"
  by (simp add: unat_word_ariths)

lemma disp_ok_dispatch:
  assumes "disp_ok k d" and "encodable p" and "dispatch d p = Ret d'"
  shows "disp_ok (Suc k) d'"
proof -
  have "dp_chs d' \<noteq> []" "dp_roundTrip d' = dp_roundTrip d + 1"
    using assms(1,3) by (auto simp: disp_ok_def dispatch_Ret_iff)
  then show ?thesis
    using assms(1,2) dispatch_conserves [OF assms(3)] unat_Suc_le [of "dp_roundTrip d"]
    by (auto simp: disp_ok_def)
qed

lemma dispatch_no_panic:
  assumes "disp_ok k d" and "k < 2 ^ 63"
  shows "dispatch d p \<noteq> Panic e"
proof -
  have "unat (dp_roundTrip d) < 2 ^ 63" using assms by (simp add: disp_ok_def)
  then have "int (unat (dp_roundTrip d)) < int (2 ^ 63)" by (simp only: of_nat_less_iff)
  then have lt: "uint (dp_roundTrip d) < 2 ^ 63" by (simp only: uint_nat of_nat_power of_nat_numeral)
  have "sint (dp_roundTrip d) = signed_take_bit 63 (uint (dp_roundTrip d))" by (simp add: sint_uint)
  also have "\<dots> = uint (dp_roundTrip d)"
    using lt uint_ge_0 [of "dp_roundTrip d"] by (intro signed_take_bit_int_eq_self) linarith+
  finally have "0 \<le> sint (dp_roundTrip d)" by simp
  then have "dispatch_index d = Ret (nat (sint (dp_roundTrip d) mod int (length (dp_chs d))))"
    using assms(1) by (intro dispatch_index_Ret) (simp_all add: disp_ok_def)
  then show ?thesis by (simp add: dispatch_def go_bind_Panic_iff)
qed

text \<open>How a datagram can change the server, with the payload its heartbeat was read from.\<close>

lemma serve_turn_Ret_cases:
  assumes "proto_typed P" and "serve_turn P s remote datagram now = Ret s'"
  obtains (unchanged) "s' = s"
  | (heartbeat) hb d where "length d < 2 ^ 63" "s' = Heartbeat s remote hb now"
      "proto_Unmarshal P (MHeartbeat \<lparr>heartbeat_VirtAddress = []\<rparr>) d = Inr (MHeartbeat hb)"
  | (relayed) dest b n where "relay (srv_notifier s) dest b = Ret n" "s' = s\<lparr>srv_notifier := n\<rparr>"
  | (acked) a where "s' = s\<lparr>srv_notifier := openTunnelAck (srv_notifier s) a\<rparr>"
proof (cases "take MaxBufferSize datagram")
  case Nil
  then show thesis using assms(2) unchanged by (simp add: serve_turn_def)
next
  case (Cons b d)
  have d: "length d < 2 ^ 63" using arg_cong [OF Cons, of length] by (simp add: MaxBufferSize_def)
  obtain err where "process P s remote (b # d) now = Ret (err, s')"
    using assms(2) Cons by (auto simp: serve_turn_def go_bind_Ret_iff)
  with assms(1) show thesis
    by (cases rule: process_Ret_cases) (use d in \<open>auto intro: unchanged heartbeat relayed acked\<close>)
qed

section \<open>Invariance\<close>

lemma safe_inv_step:
  assumes inv: "safe_inv k g" and step: "gw_step P resolve vars semver g l g'" and P: "proto_typed P" "proto_utf8 P"
    and l: "utf8_label l"
  shows "safe_inv (Suc k) g'"
proof -
  have gw: "gw_inv g" "gw_inv g'" using inv gw_inv_step [OF _ P(1) step] by (simp_all add: safe_inv_def)
  have parts: "peers_utf8 (gw_server g)" "table_utf8 (gw_notifier g)" "disp_ok k (gw_disp g)" "disp_ok (Suc k) (gw_disp g)"
    using inv disp_ok_mono [of k _ "Suc k"] by (simp_all add: safe_inv_def)
  have "peers_utf8 (gw_server g') \<and> table_utf8 (gw_notifier g') \<and> disp_ok (Suc k) (gw_disp g')"
    using step
  proof (cases rule: gw_step.cases)
    case (recv remote datagram now s')
    from P(1) recv(3) show ?thesis
    proof (cases rule: serve_turn_Ret_cases)
      case (heartbeat hb d)
      then have "utf8_string (heartbeat_VirtAddress hb)" using P(2) by (force simp: proto_utf8_def)
      then show ?thesis using heartbeat recv l parts peers_utf8_Heartbeat by (simp add: gw_notifier_def)
    next
      case (relayed dest b n)
      then show ?thesis using recv parts by (simp add: relay_Ret_iff gw_notifier_def table_utf8_def)
    qed (use recv parts table_utf8_Ack in \<open>simp_all add: gw_notifier_def\<close>)
  next
    case (http req r s')
    show ?thesis
    proof (cases r)
      case (Inl e)
      then show ?thesis using http parts by (auto simp: gw_notifier_def dest: Server_OpenTunnel_Inl_frame)
    next
      case (Inr res)
      then obtain src dst where "Peer (gw_server g) (req_Source req) = Some src" "Peer (gw_server g) (req_Destination req) = Some dst"
        "s' = (gw_server g)\<lparr>srv_notifier := Notifier_OpenTunnel (gw_notifier g) src dst\<rparr>"
        using http by (auto simp: Server_OpenTunnel_Inr_iff gw_notifier_def)
      moreover from this have "utf8_peer src" "utf8_peer dst" using parts(1) by (auto simp: peers_utf8_def Peer_def)
      ultimately show ?thesis using http parts table_utf8_OpenTunnel by simp
    qed
  next
    case (send p d)
    then have "encodable p" using gw(1) raw_encodable by (simp add: gw_inv_def)
    then show ?thesis using send parts disp_ok_dispatch by simp
  next
    case (retrying j ks n d)
    then obtain rp where rp: "nt_data (gw_notifier g) j = Some rp" using gw(1) by (auto simp: gw_inv_def)
    have wf: "table_wf (gw_notifier g)" using gw(1) by (simp add: gw_inv_def)
    have "n = gw_notifier g" using retrying by (intro retry_entry_keeps [OF wf]) simp
    moreover have "dispatch (gw_disp g) (rp_packet rp) = Ret d"
      using retrying rp retry_entry_sends [OF wf, of j] by (auto simp: go_simps pending_packet_def)
    moreover have "encodable (rp_packet rp)" using parts(2) rp by (simp add: table_utf8_def)
    ultimately show ?thesis
      using retrying parts disp_ok_dispatch [OF parts(3), of "rp_packet rp" d] by (simp add: set_notifier_def)
  next
    case (worker i p c w)
    have "disp_ok (Suc k) ((gw_disp g)\<lparr>dp_chs := (dp_chs (gw_disp g))[i := c]\<rparr>)"
      using parts(4) in_flight_worker [OF worker(3,4)] by (auto simp: disp_ok_def)
    then show ?thesis using worker parts by simp
  qed (use parts in \<open>auto simp: set_notifier_def gw_notifier_def table_utf8_def\<close>)
  then show ?thesis using gw(2) by (simp add: safe_inv_def)
qed

lemma safe_inv_run:
  assumes "gw_run P resolve vars semver g ls g'" and "safe_inv k g" and "proto_typed P" "proto_utf8 P" and "list_all utf8_label ls"
  shows "safe_inv (k + length ls) g'"
  using assms by (induction rule: gw_run.induct) (auto intro: safe_inv_step)

lemma safe_inv_init:
  assumes "start_dispatcher concurrency = Ret d" and "0 < concurrency"
  shows "safe_inv 0 (gw_init key d)"
proof -
  have d: "d = \<lparr>dp_chs = replicate (nat concurrency) (make_chan 256), dp_roundTrip = 0\<rparr>"
    using assms by (simp add: start_dispatcher_def split: if_splits)
  have "disp_ok 0 d" using assms(2) by (simp add: d disp_ok_def in_flight_def make_chan_def)
  then show ?thesis using gw_init_inv [OF assms(1)]
    by (simp add: safe_inv_def peers_utf8_def table_utf8_def gw_init_def gw_notifier_def NewServer_def newNotifier_def)
qed

section \<open>Properties\<close>

text \<open>
  C13: no goroutine of a running gateway panics. In every state of every interleaving of fewer than 2 to the power of 63 steps of a
  gateway with at least one worker: the UDP loop returns or blocks for any datagram from any address, the
  dispatcher and its retry pass find a channel for every packet, and every worker can encode the packet at the
  head of its channel, whatever nodes and HTTP clients have sent before. Of the protobuf library it needs that it keeps dynamic
  types, refuses strings that are not valid UTF-8 and marshals all others; the texts of source addresses are valid UTF-8.
\<close>

theorem gateway_never_panics:
  assumes "start_dispatcher concurrency = Ret d" and "0 < concurrency"
    and "gw_run P resolve vars semver (gw_init key d) ls g" and "proto_typed P" "proto_utf8 P" "marshals P"
    and "list_all utf8_label ls" and "length ls < 2 ^ 63"
  shows "serve_turn P (gw_server g) remote datagram now \<noteq> Panic e \<and> dispatch (gw_disp g) p \<noteq> Panic e \<and>
    retry_entry j (gw_notifier g, gw_disp g) \<noteq> Panic e \<and>
    (\<forall>i q c. i < length (dp_chs (gw_disp g)) \<longrightarrow> chan_recv (dp_chs (gw_disp g) ! i) = Ret (q, c) \<longrightarrow>
       worker_write P resolve q \<noteq> Panic e)"
proof (intro conjI allI impI)
  have inv: "safe_inv (length ls) g"
    using safe_inv_run [OF assms(3) safe_inv_init [OF assms(1,2)] assms(4,5,7)] by simp
  then have disp: "disp_ok (length ls) (gw_disp g)" by (simp add: safe_inv_def)
  show "serve_turn P (gw_server g) remote datagram now \<noteq> Panic e"
    using process_not_Panic [OF assms(4)] by (simp add: serve_turn_def go_bind_Panic_iff Let_def)
  show no: "dispatch (gw_disp g) q \<noteq> Panic e" for q by (rule dispatch_no_panic [OF disp assms(8)])
  show "retry_entry j (gw_notifier g, gw_disp g) \<noteq> Panic e"
    using no by (auto simp: retry_entry_def go_bind_Panic_iff split: option.splits)
  fix i q c
  assume "i < length (dp_chs (gw_disp g))" and "chan_recv (dp_chs (gw_disp g) ! i) = Ret (q, c)"
  then have "q \<in># in_flight (gw_disp g)" using in_flight_worker by fastforce
  then have "encodable q" using disp by (simp add: disp_ok_def)
  then show "worker_write P resolve q \<noteq> Panic e"
    using assms(6) by (auto simp: worker_write_def encodable_def go_bind_Panic_iff split: option.splits payload.splits)
qed

theorem gateway_never_panics_witness:
  "\<exists>g. gw_run wire_lib Some version_defaults (\<lambda>_. Inl ''bad'') (gw_init ''key'' (fresh_dispatcher 1))
      [LRecv ''1.1.1.1:10'' (0 # wire_put (MHeartbeat \<lparr>heartbeat_VirtAddress = ''10.0.0.1''\<rparr>)) 1] g \<and>
     Peer (gw_server g) ''10.0.0.1'' \<noteq> None \<and>
     serve_turn wire_lib (gw_server g) ''2.2.2.2:20'' [1, 255] 2 \<noteq> Panic ''panic'' \<and>
     dispatch (gw_disp g) relayed_packet \<noteq> Panic ''panic''"
proof -
  let ?init = "gw_init ''key'' (fresh_dispatcher 1)" and ?m = "MHeartbeat \<lparr>heartbeat_VirtAddress = ''10.0.0.1''\<rparr>"
  let ?d = "0 # wire_put ?m" and ?l = "LRecv ''1.1.1.1:10'' (0 # wire_put ?m) 1"
  let ?srv = "Heartbeat (gw_server ?init) ''1.1.1.1:10'' \<lparr>heartbeat_VirtAddress = ''10.0.0.1''\<rparr> 1"
  let ?after = "?init\<lparr>gw_server := ?srv, gw_relayed := gw_relayed ?init @ newly_queued (gw_notifier ?init) (srv_notifier ?srv)\<rparr>"
  have v: "utf8_string ''10.0.0.1''" "utf8_string ''1.1.1.1:10''" by (simp_all add: utf8_string_def)
  have enc: "Encode wire_lib PacketType_Heartbeat ?m = Ret ?d" using v by (simp add: Encode_def wire_lib_def PacketType_defs)
  have "length ?d \<le> MaxBufferSize"
    by (simp add: length_wire_put text_size_def varint_size_small MaxBufferSize_def)
  from serve_turn_Encode [where s = "gw_server ?init" and remote = "''1.1.1.1:10''" and now = 1, OF wire_lib_roundtrip enc this]
  have "serve_turn wire_lib (gw_server ?init) ''1.1.1.1:10'' ?d 1 = Ret ?srv" by simp
  then have "gw_step wire_lib Some version_defaults (\<lambda>_. Inl ''bad'') ?init ?l ?after"
    by (intro gw_step.recv [where g = ?init]) (simp_all add: packetType_of_def PacketType_defs)
  from run_snoc [OF run_nil this]
  have run: "gw_run wire_lib Some version_defaults (\<lambda>_. Inl ''bad'') ?init [?l] ?after" by simp
  have start: "start_dispatcher 1 = Ret (fresh_dispatcher 1)" by (simp add: start_dispatcher_def fresh_dispatcher_def)
  have "Peer (gw_server ?after) ''10.0.0.1'' \<noteq> None" by (simp add: Peer_def Heartbeat_def gw_init_def NewServer_def)
  with run gateway_never_panics [OF start _ run wire_lib_typed wire_lib_utf8 wire_lib_marshals,
      of "''2.2.2.2:20''" "[1, 255]" 2 "''panic''" relayed_packet 0] v(2)
  show ?thesis by (intro exI [of _ ?after]) simp
qed

end
