(* ===== verification/Descriptor.thy ===== *)
theory Descriptor
  imports Wire
begin

text \<open>
  The descriptor of the protocol that \<open>message/api.pb.go\<close> carries as bytes, and the registration
  of the generated types with the protobuf runtime: \<open>file_api_proto_init\<close>, the compressed copy that
  \<open>file_api_proto_rawDescGZIP\<close> makes once, the \<open>Descriptor\<close> and \<open>ProtoReflect\<close> methods. The bytes
  are parsed as a file descriptor, the protobuf message that describes a schema, with the reader of
  the wire format; the theorem says that the descriptor, the struct tags, the enum tables and the
  type tables of the generated code describe the same schema. The runtime's type builder and its
  compression are arguments.
\<close>

section \<open>The bytes\<close>

definition file_api_proto_rawDesc :: bytes where
  "file_api_proto_rawDesc =
     [0x0a, 0x09, 0x61, 0x70, 0x69, 0x2e, 0x70, 0x72, 0x6f, 0x74, 0x6f, 0x22, 0x31, 0x0a, 0x0d, 0x43,
      0x74, 0x72, 0x6c, 0x48, 0x65, 0x61, 0x72, 0x74, 0x62, 0x65, 0x61, 0x74, 0x12, 0x20, 0x0a, 0x0b,
      0x76, 0x69, 0x72, 0x74, 0x41, 0x64, 0x64, 0x72, 0x65, 0x73, 0x73, 0x18, 0x01, 0x20, 0x01, 0x28,
      0x09, 0x52, 0x0b, 0x76, 0x69, 0x72, 0x74, 0x41, 0x64, 0x64, 0x72, 0x65, 0x73, 0x73, 0x22, 0x42,
      0x0a, 0x08, 0x43, 0x74, 0x72, 0x6c, 0x50, 0x69, 0x6e, 0x67, 0x12, 0x20, 0x0a, 0x0b, 0x76, 0x69,
      0x72, 0x74, 0x41, 0x64, 0x64, 0x72, 0x65, 0x73, 0x73, 0x18, 0x01, 0x20, 0x01, 0x28, 0x09, 0x52,
      0x0b, 0x76, 0x69, 0x72, 0x74, 0x41, 0x64, 0x64, 0x72, 0x65, 0x73, 0x73, 0x12, 0x14, 0x0a, 0x05,
      0x6e, 0x6f, 0x6e, 0x63, 0x65, 0x18, 0x02, 0x20, 0x01, 0x28, 0x09, 0x52, 0x05, 0x6e, 0x6f, 0x6e,
      0x63, 0x65, 0x22, 0x42, 0x0a, 0x08, 0x43, 0x74, 0x72, 0x6c, 0x50, 0x6f, 0x6e, 0x67, 0x12, 0x20,
      0x0a, 0x0b, 0x76, 0x69, 0x72, 0x74, 0x41, 0x64, 0x64, 0x72, 0x65, 0x73, 0x73, 0x18, 0x01, 0x20,
      0x01, 0x28, 0x09, 0x52, 0x0b, 0x76, 0x69, 0x72, 0x74, 0x41, 0x64, 0x64, 0x72, 0x65, 0x73, 0x73,
      0x12, 0x14, 0x0a, 0x05, 0x6e, 0x6f, 0x6e, 0x63, 0x65, 0x18, 0x02, 0x20, 0x01, 0x28, 0x09, 0x52,
      0x05, 0x6e, 0x6f, 0x6e, 0x63, 0x65, 0x22, 0x68, 0x0a, 0x0e, 0x43, 0x74, 0x72, 0x6c, 0x4f, 0x70,
      0x65, 0x6e, 0x54, 0x75, 0x6e, 0x6e, 0x65, 0x6c, 0x12, 0x14, 0x0a, 0x05, 0x61, 0x63, 0x6b, 0x49,
      0x64, 0x18, 0x01, 0x20, 0x01, 0x28, 0x03, 0x52, 0x05, 0x61, 0x63, 0x6b, 0x49, 0x64, 0x12, 0x20,
      0x0a, 0x0b, 0x76, 0x69, 0x72, 0x74, 0x41, 0x64, 0x64, 0x72, 0x65, 0x73, 0x73, 0x18, 0x02, 0x20,
      0x01, 0x28, 0x09, 0x52, 0x0b, 0x76, 0x69, 0x72, 0x74, 0x41, 0x64, 0x64, 0x72, 0x65, 0x73, 0x73,
      0x12, 0x1e, 0x0a, 0x0a, 0x75, 0x64, 0x70, 0x41, 0x64, 0x64, 0x72, 0x65, 0x73, 0x73, 0x18, 0x03,
      0x20, 0x01, 0x28, 0x09, 0x52, 0x0a, 0x75, 0x64, 0x70, 0x41, 0x64, 0x64, 0x72, 0x65, 0x73, 0x73,
      0x22, 0x29, 0x0a, 0x11, 0x43, 0x74, 0x72, 0x6c, 0x4f, 0x70, 0x65, 0x6e, 0x54, 0x75, 0x6e, 0x6e,
      0x65, 0x6c, 0x41, 0x63, 0x6b, 0x12, 0x14, 0x0a, 0x05, 0x61, 0x63, 0x6b, 0x49, 0x64, 0x18, 0x01,
      0x20, 0x01, 0x28, 0x03, 0x52, 0x05, 0x61, 0x63, 0x6b, 0x49, 0x64, 0x22, 0x41, 0x0a, 0x09, 0x43,
      0x74, 0x72, 0x6c, 0x52, 0x65, 0x6c, 0x61, 0x79, 0x12, 0x20, 0x0a, 0x0b, 0x76, 0x69, 0x72, 0x74,
      0x41, 0x64, 0x64, 0x72, 0x65, 0x73, 0x73, 0x18, 0x01, 0x20, 0x01, 0x28, 0x09, 0x52, 0x0b, 0x76,
      0x69, 0x72, 0x74, 0x41, 0x64, 0x64, 0x72, 0x65, 0x73, 0x73, 0x12, 0x12, 0x0a, 0x04, 0x64, 0x61,
      0x74, 0x61, 0x18, 0x02, 0x20, 0x01, 0x28, 0x0c, 0x52, 0x04, 0x64, 0x61, 0x74, 0x61, 0x2a, 0x67,
      0x0a, 0x0a, 0x50, 0x61, 0x63, 0x6b, 0x65, 0x74, 0x54, 0x79, 0x70, 0x65, 0x12, 0x0d, 0x0a, 0x09,
      0x48, 0x65, 0x61, 0x72, 0x74, 0x62, 0x65, 0x61, 0x74, 0x10, 0x00, 0x12, 0x09, 0x0a, 0x05, 0x52,
      0x65, 0x6c, 0x61, 0x79, 0x10, 0x01, 0x12, 0x0e, 0x0a, 0x0a, 0x4f, 0x70, 0x65, 0x6e, 0x54, 0x75,
      0x6e, 0x6e, 0x65, 0x6c, 0x10, 0x02, 0x12, 0x11, 0x0a, 0x0d, 0x4f, 0x70, 0x65, 0x6e, 0x54, 0x75,
      0x6e, 0x6e, 0x65, 0x6c, 0x41, 0x63, 0x6b, 0x10, 0x03, 0x12, 0x08, 0x0a, 0x04, 0x50, 0x69, 0x6e,
      0x67, 0x10, 0x04, 0x12, 0x08, 0x0a, 0x04, 0x50, 0x6f, 0x6e, 0x67, 0x10, 0x05, 0x12, 0x08, 0x0a,
      0x04, 0x44, 0x61, 0x74, 0x61, 0x10, 0x06, 0x2a, 0x7a, 0x0a, 0x0a, 0x53, 0x74, 0x61, 0x74, 0x75,
      0x73, 0x43, 0x6f, 0x64, 0x65, 0x12, 0x0b, 0x0a, 0x07, 0x53, 0x75, 0x63, 0x63, 0x65, 0x73, 0x73,
      0x10, 0x00, 0x12, 0x12, 0x0a, 0x0e, 0x53, 0x65, 0x72, 0x76, 0x65, 0x72, 0x49, 0x6e, 0x74, 0x65,
      0x72, 0x6e, 0x61, 0x6c, 0x10, 0x01, 0x12, 0x12, 0x0a, 0x0e, 0x49, 0x6e, 0x76, 0x61, 0x6c, 0x69,
      0x64, 0x56, 0x65, 0x72, 0x73, 0x69, 0x6f, 0x6e, 0x10, 0x02, 0x12, 0x11, 0x0a, 0x0d, 0x41, 0x64,
      0x64, 0x43, 0x6f, 0x6e, 0x66, 0x6c, 0x69, 0x63, 0x74, 0x65, 0x64, 0x10, 0x03, 0x12, 0x11, 0x0a,
      0x0d, 0x56, 0x65, 0x72, 0x73, 0x69, 0x6f, 0x6e, 0x54, 0x6f, 0x6f, 0x4f, 0x6c, 0x64, 0x10, 0x04,
      0x12, 0x11, 0x0a, 0x0d, 0x4b, 0x65, 0x79, 0x4e, 0x6f, 0x74, 0x4d, 0x61, 0x74, 0x63, 0x68, 0x65,
      0x64, 0x10, 0x05, 0x42, 0x0a, 0x5a, 0x08, 0x2f, 0x6d, 0x65, 0x73, 0x73, 0x61, 0x67, 0x65, 0x62,
      0x06, 0x70, 0x72, 0x6f, 0x74, 0x6f, 0x33]"

section \<open>Parsing a file descriptor\<close>

record pb_field =
  fd_name :: string
  fd_number :: nat
  fd_label :: nat
  fd_type :: nat
  fd_json :: string

record pb_message =
  md_name :: string
  md_fields :: "pb_field list"

record pb_enum =
  ed_name :: string
  ed_values :: "(string \<times> nat) list"

record pb_file =
  pf_name :: string
  pf_messages :: "pb_message list"
  pf_enums :: "pb_enum list"
  pf_package :: string
  pf_syntax :: string

text \<open>The last string or number of a field, its zero value if there is none, and all submessages of a field.\<close>

definition text_of :: "nat \<Rightarrow> wire_record list \<Rightarrow> string" where
  "text_of k rs = foldl (\<lambda>s (j, v). case v of WBytes b \<Rightarrow> if j = k then bytes_str b else s | _ \<Rightarrow> s) [] rs"

definition number_of :: "nat \<Rightarrow> wire_record list \<Rightarrow> nat" where
  "number_of k rs = foldl (\<lambda>n (j, v). case v of WVarint i \<Rightarrow> if j = k then i else n | _ \<Rightarrow> n) 0 rs"

definition parts_of :: "nat \<Rightarrow> wire_record list \<Rightarrow> bytes list" where
  "parts_of k rs = concat (map (\<lambda>(j, v). case v of WBytes b \<Rightarrow> if j = k then [b] else [] | _ \<Rightarrow> []) rs)"

fun traverse :: "('a \<Rightarrow> 'b option) \<Rightarrow> 'a list \<Rightarrow> 'b list option" where
  "traverse f [] = Some []"
| "traverse f (x # xs) = (case f x of None \<Rightarrow> None | Some y \<Rightarrow> map_option (Cons y) (traverse f xs))"

definition parse_field :: "bytes \<Rightarrow> pb_field option" where
  "parse_field d = map_option (\<lambda>rs. \<lparr>fd_name = text_of 1 rs, fd_number = number_of 3 rs, fd_label = number_of 4 rs,
     fd_type = number_of 5 rs, fd_json = text_of 10 rs\<rparr>) (get_all get_record d)"

definition parse_message :: "bytes \<Rightarrow> pb_message option" where
  "parse_message d = Option.bind (get_all get_record d) (\<lambda>rs.
     map_option (\<lambda>fs. \<lparr>md_name = text_of 1 rs, md_fields = fs\<rparr>) (traverse parse_field (parts_of 2 rs)))"

definition parse_enum_value :: "bytes \<Rightarrow> (string \<times> nat) option" where
  "parse_enum_value d = map_option (\<lambda>rs. (text_of 1 rs, number_of 2 rs)) (get_all get_record d)"

definition parse_enum :: "bytes \<Rightarrow> pb_enum option" where
  "parse_enum d = Option.bind (get_all get_record d) (\<lambda>rs.
     map_option (\<lambda>vs. \<lparr>ed_name = text_of 1 rs, ed_values = vs\<rparr>) (traverse parse_enum_value (parts_of 2 rs)))"

definition parse_options :: "bytes \<Rightarrow> string option" where
  "parse_options d = map_option (text_of 11) (get_all get_record d)"

definition parse_file :: "bytes \<Rightarrow> pb_file option" where
  "parse_file d = Option.bind (get_all get_record d) (\<lambda>rs.
     Option.bind (traverse parse_message (parts_of 4 rs)) (\<lambda>ms.
     Option.bind (traverse parse_enum (parts_of 5 rs)) (\<lambda>es.
     map_option (\<lambda>os. \<lparr>pf_name = text_of 1 rs, pf_messages = ms, pf_enums = es, pf_package = concat os, pf_syntax = text_of 12 rs\<rparr>)
       (traverse parse_options (parts_of 8 rs)))))"

text \<open>The printer: the records of each part in the order of the descriptor's field numbers.\<close>

definition put_records :: "wire_record list \<Rightarrow> bytes" where
  "put_records rs = concat (map put_record rs)"

definition text_record :: "nat \<Rightarrow> string \<Rightarrow> wire_record" where
  "text_record k s = (k, WBytes (str_bytes s))"

definition field_records :: "pb_field \<Rightarrow> wire_record list" where
  "field_records f = [text_record 1 (fd_name f), (3, WVarint (fd_number f)), (4, WVarint (fd_label f)),
     (5, WVarint (fd_type f)), text_record 10 (fd_json f)]"

definition message_records :: "pb_message \<Rightarrow> wire_record list" where
  "message_records m = text_record 1 (md_name m) # map (\<lambda>f. (2, WBytes (put_records (field_records f)))) (md_fields m)"

definition enum_value_records :: "string \<times> nat \<Rightarrow> wire_record list" where
  "enum_value_records = (\<lambda>(s, n). [text_record 1 s, (2, WVarint n)])"

definition enum_records :: "pb_enum \<Rightarrow> wire_record list" where
  "enum_records e = text_record 1 (ed_name e) # map (\<lambda>v. (2, WBytes (put_records (enum_value_records v)))) (ed_values e)"

definition file_records :: "pb_file \<Rightarrow> wire_record list" where
  "file_records f = text_record 1 (pf_name f) # map (\<lambda>m. (4, WBytes (put_records (message_records m)))) (pf_messages f) @
     map (\<lambda>e. (5, WBytes (put_records (enum_records e)))) (pf_enums f) @
     [(8, WBytes (put_records [text_record 11 (pf_package f)])), text_record 12 (pf_syntax f)]"

lemmas records_defs = field_records_def message_records_def enum_value_records_def enum_records_def file_records_def

text \<open>A file whose numbers and lengths the wire format can express, at every level.\<close>

definition printable :: "pb_file \<Rightarrow> bool" where
  "printable f \<longleftrightarrow> list_all ok_record (file_records f) \<and>
     list_all (\<lambda>m. list_all ok_record (message_records m) \<and> list_all (\<lambda>x. list_all ok_record (field_records x)) (md_fields m)) (pf_messages f) \<and>
     list_all (\<lambda>e. list_all ok_record (enum_records e) \<and> list_all (\<lambda>v. list_all ok_record (enum_value_records v)) (ed_values e)) (pf_enums f) \<and>
     list_all ok_record [text_record 11 (pf_package f)]"

lemma get_all_records: "list_all ok_record rs \<Longrightarrow> get_all get_record (put_records rs) = Some rs"
  by (simp add: put_records_def record_code.get_all_put)

lemma traverse_map: "list_all (\<lambda>x. f (g x) = Some x) xs \<Longrightarrow> traverse f (map g xs) = Some xs"
  by (induction xs) simp_all

lemma text_of_skip:
  "list_all (\<lambda>r. fst r \<noteq> k) rs \<Longrightarrow>
    foldl (\<lambda>s (j, v). case v of WBytes b \<Rightarrow> if j = k then bytes_str b else s | _ \<Rightarrow> s) s rs = s"
  by (induction rs arbitrary: s) (auto split: wire_value.splits)

lemma text_of_simps:
  "list_all (\<lambda>r. fst r \<noteq> k) rs \<Longrightarrow> text_of k (text_record k s # rs) = s"
  "list_all (\<lambda>r. fst r \<noteq> k) rs \<Longrightarrow> text_of k (rs @ [text_record k s]) = s"
  by (simp_all add: text_of_def text_record_def text_of_skip)

lemma parts_of_simps [simp]:
  "parts_of k [] = []"
  "parts_of k (rs @ ss) = parts_of k rs @ parts_of k ss"
  "parts_of k (map (\<lambda>x. (j, WBytes (g x))) xs) = (if j = k then map g xs else [])"
  "parts_of k (text_record j s # rs) = (if j = k then str_bytes s # parts_of k rs else parts_of k rs)"
  "parts_of k ((j, WBytes b) # rs) = (if j = k then b # parts_of k rs else parts_of k rs)"
  by (simp_all add: parts_of_def text_record_def comp_def)

lemma parse_field_records: "list_all ok_record (field_records f) \<Longrightarrow> parse_field (put_records (field_records f)) = Some f"
  by (simp only: parse_field_def get_all_records)
    (simp add: field_records_def text_of_def number_of_def text_record_def)

lemma parse_enum_value_records:
  "list_all ok_record (enum_value_records v) \<Longrightarrow> parse_enum_value (put_records (enum_value_records v)) = Some v"
  by (simp only: parse_enum_value_def get_all_records)
    (simp add: enum_value_records_def text_of_def number_of_def text_record_def split: prod.split)

lemma parse_message_records:
  assumes "list_all ok_record (message_records m)" and "list_all (\<lambda>x. list_all ok_record (field_records x)) (md_fields m)"
  shows "parse_message (put_records (message_records m)) = Some m"
proof -
  have "list_all (\<lambda>x. parse_field (put_records (field_records x)) = Some x) (md_fields m)"
    using assms(2) parse_field_records by (simp add: list_all_iff)
  then show ?thesis
    by (simp only: parse_message_def get_all_records [OF assms(1)])
      (simp add: message_records_def text_of_simps traverse_map list_all_iff)
qed

lemma parse_enum_records:
  assumes "list_all ok_record (enum_records e)" and "list_all (\<lambda>v. list_all ok_record (enum_value_records v)) (ed_values e)"
  shows "parse_enum (put_records (enum_records e)) = Some e"
proof -
  have "list_all (\<lambda>v. parse_enum_value (put_records (enum_value_records v)) = Some v) (ed_values e)"
    using assms(2) parse_enum_value_records by (simp add: list_all_iff)
  then show ?thesis
    by (simp only: parse_enum_def get_all_records [OF assms(1)])
      (simp add: enum_records_def text_of_simps traverse_map list_all_iff)
qed

lemma parse_file_records:
  assumes "printable f"
  shows "parse_file (put_records (file_records f)) = Some f"
proof -
  note p = assms [unfolded printable_def]
  have ok: "list_all ok_record (file_records f)" "list_all ok_record [text_record 11 (pf_package f)]" using p by blast+
  have ms: "list_all (\<lambda>m. parse_message (put_records (message_records m)) = Some m) (pf_messages f)"
    using p [THEN conjunct2, THEN conjunct1] by (rule list.pred_mono_strong) (blast intro: parse_message_records)
  have es: "list_all (\<lambda>e. parse_enum (put_records (enum_records e)) = Some e) (pf_enums f)"
    using p [THEN conjunct2, THEN conjunct2, THEN conjunct1] by (rule list.pred_mono_strong) (blast intro: parse_enum_records)
  have "text_of 11 [text_record 11 (pf_package f)] = pf_package f" by (simp add: text_of_simps)
  then have opt: "parse_options (put_records [text_record 11 (pf_package f)]) = Some (pf_package f)"
    using get_all_records [OF ok(2)] by (simp add: parse_options_def)
  have "file_records f = butlast (file_records f) @ [text_record 12 (pf_syntax f)]"
    "list_all (\<lambda>r. fst r \<noteq> 12) (butlast (file_records f))"
    by (auto simp: file_records_def butlast_append list_all_iff text_record_def)
  then have "text_of 12 (file_records f) = pf_syntax f" using text_of_simps(2) by metis
  moreover have "text_of 1 (file_records f) = pf_name f"
    unfolding file_records_def by (rule text_of_simps(1)) (auto simp: list_all_iff text_record_def)
  moreover have "parts_of 4 (file_records f) = map (\<lambda>m. put_records (message_records m)) (pf_messages f)"
    "parts_of 5 (file_records f) = map (\<lambda>e. put_records (enum_records e)) (pf_enums f)"
    "parts_of 8 (file_records f) = [put_records [text_record 11 (pf_package f)]]"
    by (simp_all add: file_records_def)
  ultimately show ?thesis
    using opt by (simp add: parse_file_def get_all_records [OF ok(1)] traverse_map [of parse_message, OF ms]
        traverse_map [of parse_enum, OF es])
qed

text \<open>The type numbers of a field that the schema uses, as Go types.\<close>

definition kind_of_type :: "nat \<Rightarrow> go_kind option" where
  "kind_of_type t = map_of [(3, KInt64), (9, KString), (12, KBytes)] t"

definition field_tag :: "pb_field \<Rightarrow> (nat \<times> string \<times> go_kind) option" where
  "field_tag f = map_option (\<lambda>k. (fd_number f, fd_name f, k)) (kind_of_type (fd_type f))"

section \<open>The type tables\<close>

definition file_api_proto_goTypes :: "string list" where
  "file_api_proto_goTypes =
     [''PacketType'', ''StatusCode'', ''CtrlHeartbeat'', ''CtrlPing'', ''CtrlPong'', ''CtrlOpenTunnel'',
      ''CtrlOpenTunnelAck'', ''CtrlRelay'']"

definition file_api_proto_depIdxs :: "int32 list" where
  "file_api_proto_depIdxs = [0, 0, 0, 0, 0]"

fun dynamic_type :: "proto_message \<Rightarrow> string" where
  "dynamic_type (MHeartbeat _) = ''CtrlHeartbeat''"
| "dynamic_type (MPing _) = ''CtrlPing''"
| "dynamic_type (MPong _) = ''CtrlPong''"
| "dynamic_type (MOpenTunnel _) = ''CtrlOpenTunnel''"
| "dynamic_type (MOpenTunnelAck _) = ''CtrlOpenTunnelAck''"
| "dynamic_type (MRelay _) = ''CtrlRelay''"

text \<open>
  What \<open>file_api_proto_init\<close> hands to the type builder of the runtime, and the package variables
  it changes. An exporter gives the runtime the three bookkeeping fields of a struct when it may not
  use \<open>unsafe\<close>; its type assertion panics on another dynamic type.
\<close>

datatype bookkeeping = FState | FSizeCache | FUnknownFields

definition exporter :: "string \<Rightarrow> proto_message \<Rightarrow> int \<Rightarrow> bookkeeping option go" where
  "exporter typ v i =
     (if dynamic_type v \<noteq> typ then Panic ''interface conversion''
      else Ret (if i = 0 then Some FState else if i = 1 then Some FSizeCache
                else if i = 2 then Some FUnknownFields else None))"

definition message_exporters :: "(proto_message \<Rightarrow> int \<Rightarrow> bookkeeping option go) list" where
  "message_exporters = map exporter
     [''CtrlHeartbeat'', ''CtrlPing'', ''CtrlPong'', ''CtrlOpenTunnel'', ''CtrlOpenTunnelAck'', ''CtrlRelay'']"

record type_builder =
  tb_RawDescriptor :: bytes
  tb_NumEnums :: int32
  tb_NumMessages :: int32
  tb_NumExtensions :: int32
  tb_NumServices :: int32
  tb_GoTypes :: "string list"
  tb_DependencyIndexes :: "int32 list"
  tb_Exporters :: "(proto_message \<Rightarrow> int \<Rightarrow> bookkeeping option go) option list"

record 'f registry =
  rg_File :: "'f option"
  rg_rawDesc :: bytes
  rg_rawDescOnce :: bool
  rg_rawDescData :: bytes
  rg_goTypes :: "string list"
  rg_depIdxs :: "int32 list"
  rg_exporters :: "(proto_message \<Rightarrow> int \<Rightarrow> bookkeeping option go) option list"

text \<open>The package variables before \<open>init\<close> runs: \<open>rawDescData\<close> is initialised with the bytes of \<open>rawDesc\<close>.\<close>

definition registry_vars :: "'f registry" where
  "registry_vars = \<lparr>rg_File = None, rg_rawDesc = file_api_proto_rawDesc, rg_rawDescOnce = False,
     rg_rawDescData = file_api_proto_rawDesc, rg_goTypes = file_api_proto_goTypes, rg_depIdxs = file_api_proto_depIdxs,
     rg_exporters = replicate 6 None\<rparr>"

definition file_api_proto_init :: "bool \<Rightarrow> (type_builder \<Rightarrow> 'f) \<Rightarrow> 'f registry \<Rightarrow> 'f registry" where
  "file_api_proto_init unsafeEnabled build r =
     (if rg_File r \<noteq> None then r
      else let exporters = (if unsafeEnabled then rg_exporters r else map Some message_exporters);
               out = build \<lparr>tb_RawDescriptor = rg_rawDesc r, tb_NumEnums = 2, tb_NumMessages = 6, tb_NumExtensions = 0,
                 tb_NumServices = 0, tb_GoTypes = rg_goTypes r, tb_DependencyIndexes = rg_depIdxs r, tb_Exporters = exporters\<rparr>
           in r\<lparr>rg_File := Some out, rg_rawDesc := [], rg_goTypes := [], rg_depIdxs := [], rg_exporters := exporters\<rparr>)"

definition file_api_proto_rawDescGZIP :: "(bytes \<Rightarrow> bytes) \<Rightarrow> 'f registry \<Rightarrow> bytes \<times> 'f registry" where
  "file_api_proto_rawDescGZIP CompressGZIP r =
     (let r' = (if rg_rawDescOnce r then r
                else r\<lparr>rg_rawDescOnce := True, rg_rawDescData := CompressGZIP (rg_rawDescData r)\<rparr>)
      in (rg_rawDescData r', r'))"

text \<open>The deprecated descriptor methods: the compressed file and the path to the type in it.\<close>

definition descriptor_at :: "nat \<Rightarrow> (bytes \<Rightarrow> bytes) \<Rightarrow> 'f registry \<Rightarrow> (bytes \<times> nat list) \<times> 'f registry" where
  "descriptor_at i CompressGZIP r = (case file_api_proto_rawDescGZIP CompressGZIP r of (d, r') \<Rightarrow> ((d, [i]), r'))"

definition PacketType_EnumDescriptor :: "(bytes \<Rightarrow> bytes) \<Rightarrow> 'f registry \<Rightarrow> (bytes \<times> nat list) \<times> 'f registry" where
  "PacketType_EnumDescriptor = descriptor_at 0"
definition StatusCode_EnumDescriptor :: "(bytes \<Rightarrow> bytes) \<Rightarrow> 'f registry \<Rightarrow> (bytes \<times> nat list) \<times> 'f registry" where
  "StatusCode_EnumDescriptor = descriptor_at 1"
definition CtrlHeartbeat_Descriptor :: "(bytes \<Rightarrow> bytes) \<Rightarrow> 'f registry \<Rightarrow> (bytes \<times> nat list) \<times> 'f registry" where
  "CtrlHeartbeat_Descriptor = descriptor_at 0"
definition CtrlPing_Descriptor :: "(bytes \<Rightarrow> bytes) \<Rightarrow> 'f registry \<Rightarrow> (bytes \<times> nat list) \<times> 'f registry" where
  "CtrlPing_Descriptor = descriptor_at 1"
definition CtrlPong_Descriptor :: "(bytes \<Rightarrow> bytes) \<Rightarrow> 'f registry \<Rightarrow> (bytes \<times> nat list) \<times> 'f registry" where
  "CtrlPong_Descriptor = descriptor_at 2"
definition CtrlOpenTunnel_Descriptor :: "(bytes \<Rightarrow> bytes) \<Rightarrow> 'f registry \<Rightarrow> (bytes \<times> nat list) \<times> 'f registry" where
  "CtrlOpenTunnel_Descriptor = descriptor_at 3"
definition CtrlOpenTunnelAck_Descriptor :: "(bytes \<Rightarrow> bytes) \<Rightarrow> 'f registry \<Rightarrow> (bytes \<times> nat list) \<times> 'f registry" where
  "CtrlOpenTunnelAck_Descriptor = descriptor_at 4"
definition CtrlRelay_Descriptor :: "(bytes \<Rightarrow> bytes) \<Rightarrow> 'f registry \<Rightarrow> (bytes \<times> nat list) \<times> 'f registry" where
  "CtrlRelay_Descriptor = descriptor_at 5"

lemmas Descriptor_defs = CtrlHeartbeat_Descriptor_def CtrlPing_Descriptor_def CtrlPong_Descriptor_def
  CtrlOpenTunnel_Descriptor_def CtrlOpenTunnelAck_Descriptor_def CtrlRelay_Descriptor_def

text \<open>The method of a message's dynamic type, through the interface.\<close>

fun proto_Descriptor :: "proto_message \<Rightarrow> (bytes \<Rightarrow> bytes) \<Rightarrow> 'f registry \<Rightarrow> (bytes \<times> nat list) \<times> 'f registry" where
  "proto_Descriptor (MHeartbeat _) = CtrlHeartbeat_Descriptor"
| "proto_Descriptor (MPing _) = CtrlPing_Descriptor"
| "proto_Descriptor (MPong _) = CtrlPong_Descriptor"
| "proto_Descriptor (MOpenTunnel _) = CtrlOpenTunnel_Descriptor"
| "proto_Descriptor (MOpenTunnelAck _) = CtrlOpenTunnelAck_Descriptor"
| "proto_Descriptor (MRelay _) = CtrlRelay_Descriptor"

text \<open>
  \<open>ProtoReflect\<close>: a pointer that is not nil caches in its message state the entry of
  \<open>file_api_proto_msgTypes\<close> it belongs to; the entry that the returned reflection value uses is the
  result. \<open>None\<close> is the nil pointer, \<open>Some s\<close> a struct whose state holds \<open>s\<close>.
\<close>

definition reflect_at :: "nat \<Rightarrow> bool \<Rightarrow> nat option option \<Rightarrow> nat \<times> nat option option" where
  "reflect_at i unsafeEnabled x =
     (case x of None \<Rightarrow> (i, None)
      | Some s \<Rightarrow>
          if \<not> unsafeEnabled then (i, Some s)
          else (case s of None \<Rightarrow> (i, Some (Some i)) | Some k \<Rightarrow> (k, Some s)))"

definition CtrlHeartbeat_ProtoReflect :: "bool \<Rightarrow> nat option option \<Rightarrow> nat \<times> nat option option" where
  "CtrlHeartbeat_ProtoReflect = reflect_at 0"
definition CtrlPing_ProtoReflect :: "bool \<Rightarrow> nat option option \<Rightarrow> nat \<times> nat option option" where
  "CtrlPing_ProtoReflect = reflect_at 1"
definition CtrlPong_ProtoReflect :: "bool \<Rightarrow> nat option option \<Rightarrow> nat \<times> nat option option" where
  "CtrlPong_ProtoReflect = reflect_at 2"
definition CtrlOpenTunnel_ProtoReflect :: "bool \<Rightarrow> nat option option \<Rightarrow> nat \<times> nat option option" where
  "CtrlOpenTunnel_ProtoReflect = reflect_at 3"
definition CtrlOpenTunnelAck_ProtoReflect :: "bool \<Rightarrow> nat option option \<Rightarrow> nat \<times> nat option option" where
  "CtrlOpenTunnelAck_ProtoReflect = reflect_at 4"
definition CtrlRelay_ProtoReflect :: "bool \<Rightarrow> nat option option \<Rightarrow> nat \<times> nat option option" where
  "CtrlRelay_ProtoReflect = reflect_at 5"

lemmas ProtoReflect_defs = CtrlHeartbeat_ProtoReflect_def CtrlPing_ProtoReflect_def CtrlPong_ProtoReflect_def
  CtrlOpenTunnel_ProtoReflect_def CtrlOpenTunnelAck_ProtoReflect_def CtrlRelay_ProtoReflect_def

fun proto_ProtoReflect :: "proto_message \<Rightarrow> bool \<Rightarrow> nat option option \<Rightarrow> nat \<times> nat option option" where
  "proto_ProtoReflect (MHeartbeat _) = CtrlHeartbeat_ProtoReflect"
| "proto_ProtoReflect (MPing _) = CtrlPing_ProtoReflect"
| "proto_ProtoReflect (MPong _) = CtrlPong_ProtoReflect"
| "proto_ProtoReflect (MOpenTunnel _) = CtrlOpenTunnel_ProtoReflect"
| "proto_ProtoReflect (MOpenTunnelAck _) = CtrlOpenTunnelAck_ProtoReflect"
| "proto_ProtoReflect (MRelay _) = CtrlRelay_ProtoReflect"

section \<open>The parsed descriptor\<close>

abbreviation plain_field :: "string \<Rightarrow> nat \<Rightarrow> nat \<Rightarrow> pb_field" where
  "plain_field s k t \<equiv> \<lparr>fd_name = s, fd_number = k, fd_label = 1, fd_type = t, fd_json = s\<rparr>"

definition api_file :: pb_file where
  "api_file =
     \<lparr>pf_name = ''api.proto'',
      pf_messages =
        [\<lparr>md_name = ''CtrlHeartbeat'', md_fields = [plain_field ''virtAddress'' 1 9]\<rparr>,
         \<lparr>md_name = ''CtrlPing'', md_fields = [plain_field ''virtAddress'' 1 9, plain_field ''nonce'' 2 9]\<rparr>,
         \<lparr>md_name = ''CtrlPong'', md_fields = [plain_field ''virtAddress'' 1 9, plain_field ''nonce'' 2 9]\<rparr>,
         \<lparr>md_name = ''CtrlOpenTunnel'',
          md_fields = [plain_field ''ackId'' 1 3, plain_field ''virtAddress'' 2 9, plain_field ''udpAddress'' 3 9]\<rparr>,
         \<lparr>md_name = ''CtrlOpenTunnelAck'', md_fields = [plain_field ''ackId'' 1 3]\<rparr>,
         \<lparr>md_name = ''CtrlRelay'', md_fields = [plain_field ''virtAddress'' 1 9, plain_field ''data'' 2 12]\<rparr>],
      pf_enums =
        [\<lparr>ed_name = ''PacketType'',
          ed_values = [(''Heartbeat'', 0), (''Relay'', 1), (''OpenTunnel'', 2), (''OpenTunnelAck'', 3), (''Ping'', 4),
            (''Pong'', 5), (''Data'', 6)]\<rparr>,
         \<lparr>ed_name = ''StatusCode'',
          ed_values = [(''Success'', 0), (''ServerInternal'', 1), (''InvalidVersion'', 2), (''AddConflicted'', 3),
            (''VersionTooOld'', 4), (''KeyNotMatched'', 5)]\<rparr>],
      pf_package = ''/message'', pf_syntax = ''proto3''\<rparr>"

lemma rawDesc_printed: "file_api_proto_rawDesc = put_records (file_records api_file)"
  by (simp add: records_defs put_records_def text_record_def put_record_def str_bytes_def put_varint.simps
      api_file_def file_api_proto_rawDesc_def)

lemma api_file_printable: "printable api_file"
  by (simp add: printable_def api_file_def records_defs put_records_def text_record_def put_record_def ok_record_def
      put_varint.simps)

lemma parse_rawDesc: "parse_file file_api_proto_rawDesc = Some api_file"
  unfolding rawDesc_printed by (rule parse_file_records [OF api_file_printable])

section \<open>The registry\<close>

text \<open>
  The calls that change the package variables: \<open>init\<close> (Go runs it once, the function guards against a
  second call) and the descriptor methods, in any order.
\<close>

datatype registry_call = CallInit | CallDescriptor proto_message

fun registry_exec :: "bool \<Rightarrow> (type_builder \<Rightarrow> 'f) \<Rightarrow> (bytes \<Rightarrow> bytes) \<Rightarrow> 'f registry \<Rightarrow> registry_call \<Rightarrow> 'f registry" where
  "registry_exec unsafeEnabled build CompressGZIP r CallInit = file_api_proto_init unsafeEnabled build r"
| "registry_exec unsafeEnabled build CompressGZIP r (CallDescriptor m) = snd (proto_Descriptor m CompressGZIP r)"

definition api_builder :: "bool \<Rightarrow> type_builder" where
  "api_builder unsafeEnabled =
     \<lparr>tb_RawDescriptor = file_api_proto_rawDesc, tb_NumEnums = 2, tb_NumMessages = 6, tb_NumExtensions = 0, tb_NumServices = 0,
      tb_GoTypes = file_api_proto_goTypes, tb_DependencyIndexes = file_api_proto_depIdxs,
      tb_Exporters = (if unsafeEnabled then replicate 6 None else map Some message_exporters)\<rparr>"

definition registry_inv :: "bool \<Rightarrow> (type_builder \<Rightarrow> 'f) \<Rightarrow> (bytes \<Rightarrow> bytes) \<Rightarrow> 'f registry \<Rightarrow> bool" where
  "registry_inv unsafeEnabled build CompressGZIP r \<longleftrightarrow>
     rg_rawDescData r = (if rg_rawDescOnce r then CompressGZIP file_api_proto_rawDesc else file_api_proto_rawDesc) \<and>
     (case rg_File r of
        None \<Rightarrow> rg_rawDesc r = file_api_proto_rawDesc \<and> rg_goTypes r = file_api_proto_goTypes \<and>
          rg_depIdxs r = file_api_proto_depIdxs \<and> rg_exporters r = replicate 6 None
      | Some f \<Rightarrow> f = build (api_builder unsafeEnabled))"

text \<open>The position of a message type in the tables.\<close>

fun message_index :: "proto_message \<Rightarrow> nat" where
  "message_index (MHeartbeat _) = 0"
| "message_index (MPing _) = 1"
| "message_index (MPong _) = 2"
| "message_index (MOpenTunnel _) = 3"
| "message_index (MOpenTunnelAck _) = 4"
| "message_index (MRelay _) = 5"

lemma proto_Descriptor_index: "proto_Descriptor m = descriptor_at (message_index m)"
  by (cases m) (simp_all add: Descriptor_defs)

lemma proto_ProtoReflect_index: "proto_ProtoReflect m = reflect_at (message_index m)"
  by (cases m) (simp_all add: ProtoReflect_defs)

lemma registry_inv_vars: "registry_inv u build gz registry_vars"
  by (simp add: registry_inv_def registry_vars_def)

lemma registry_inv_exec: "registry_inv u build gz r \<Longrightarrow> registry_inv u build gz (registry_exec u build gz r c)"
  by (cases c)
    (auto simp: registry_inv_def file_api_proto_init_def api_builder_def proto_Descriptor_index descriptor_at_def
      file_api_proto_rawDescGZIP_def Let_def split: option.splits)

lemma registry_inv_run: "registry_inv u build gz r \<Longrightarrow> registry_inv u build gz (foldl (registry_exec u build gz) r cs)"
  by (induction cs arbitrary: r) (simp_all add: registry_inv_exec)

lemma descriptor_at_inv:
  "registry_inv u build gz r \<Longrightarrow> fst (descriptor_at i gz r) = (gz file_api_proto_rawDesc, [i])"
  by (simp add: registry_inv_def descriptor_at_def file_api_proto_rawDescGZIP_def Let_def)

lemma registry_File_kept: "rg_File r \<noteq> None \<Longrightarrow> rg_File (foldl (registry_exec u build gz) r cs) = rg_File r"
proof (induction cs arbitrary: r)
  case (Cons c cs)
  have "rg_File (registry_exec u build gz r c) = rg_File r" using Cons.prems
    by (cases c) (auto simp: file_api_proto_init_def proto_Descriptor_index descriptor_at_def file_api_proto_rawDescGZIP_def Let_def)
  then show ?case using Cons by simp
qed simp

lemma map_of_enum:
  "map_of (ed_values (pf_enums api_file ! 0)) s = map_option unat (PacketType_value s)"
  "map_of (ed_values (pf_enums api_file ! 1)) s = map_option unat (StatusCode_value s)"
  by (simp_all add: api_file_def PacketType_value_def StatusCode_value_def)

lemma api_message:
  "message_index m < 6" "md_name (pf_messages api_file ! message_index m) = dynamic_type m"
  "map field_tag (md_fields (pf_messages api_file ! message_index m)) = map Some (struct_tags m)"
  "file_api_proto_goTypes ! (message_index m + 2) = dynamic_type m"
  by (cases m; simp add: api_file_def field_tag_def kind_of_type_def file_api_proto_goTypes_def numeral_eq_Suc)+

section \<open>Properties\<close>

text \<open>
  C37: the generated code describes one schema in four ways that agree. The raw descriptor parses as a proto3 file whose
  enums and messages are those of the type table, in its order; the values of its two enums are the
  tables \<open>PacketType_value\<close> and \<open>StatusCode_value\<close>; and for every control message the path that its \<open>Descriptor\<close>
  method returns, which is also the entry its \<open>ProtoReflect\<close> uses, leads to the message of that name with
  exactly the field numbers, names and types of the struct tags. Whatever descriptor methods and \<open>init\<close> calls came before, the
  methods return the compressed descriptor, and the types were built once, from these bytes and tables.
\<close>

theorem descriptor_matches_types:
  "\<exists>f. parse_file file_api_proto_rawDesc = Some f \<and> pf_syntax f = ''proto3'' \<and>
     map ed_name (pf_enums f) @ map md_name (pf_messages f) = file_api_proto_goTypes \<and>
     (\<forall>s. map_of (ed_values (pf_enums f ! 0)) s = map_option unat (PacketType_value s) \<and>
          map_of (ed_values (pf_enums f ! 1)) s = map_option unat (StatusCode_value s)) \<and>
     (\<exists>i < length (pf_messages f).
        fst (proto_Descriptor m gz (foldl (registry_exec u build gz) registry_vars calls)) = (gz file_api_proto_rawDesc, [i]) \<and>
        fst (proto_ProtoReflect m u None) = i \<and> fst (proto_ProtoReflect m u (Some None)) = i \<and>
        md_name (pf_messages f ! i) = dynamic_type m \<and> map field_tag (md_fields (pf_messages f ! i)) = map Some (struct_tags m)) \<and>
     rg_File (foldl (registry_exec u build gz) registry_vars (CallInit # calls)) = Some (build (api_builder u)) \<and>
     unat (tb_NumEnums (api_builder u)) = length (pf_enums f) \<and> unat (tb_NumMessages (api_builder u)) = length (pf_messages f)"
proof -
  have inv: "registry_inv u build gz (foldl (registry_exec u build gz) registry_vars cs)" for cs
    by (rule registry_inv_run [OF registry_inv_vars])
  have "rg_File (file_api_proto_init u build registry_vars) = Some (build (api_builder u))"
    by (simp add: file_api_proto_init_def registry_vars_def api_builder_def Let_def)
  then have "rg_File (foldl (registry_exec u build gz) registry_vars (CallInit # calls)) = Some (build (api_builder u))"
    using registry_File_kept [of "file_api_proto_init u build registry_vars" u build gz calls] by simp
  moreover have "map ed_name (pf_enums api_file) @ map md_name (pf_messages api_file) = file_api_proto_goTypes"
    "pf_syntax api_file = ''proto3''" "length (pf_messages api_file) = 6" "length (pf_enums api_file) = 2"
    by (simp_all add: api_file_def file_api_proto_goTypes_def)
  moreover have "unat (tb_NumEnums (api_builder u)) = 2" "unat (tb_NumMessages (api_builder u)) = 6" by (simp_all add: api_builder_def)
  moreover have "fst (proto_ProtoReflect m u None) = message_index m" "fst (proto_ProtoReflect m u (Some None)) = message_index m"
    by (simp_all add: proto_ProtoReflect_index reflect_at_def)
  ultimately show ?thesis
    using parse_rawDesc map_of_enum api_message [of m] descriptor_at_inv [OF inv [of calls], of "message_index m"]
    by (intro exI [of _ api_file]) (simp add: proto_Descriptor_index)
qed

end
