(* ===== verification/Shared_Protos.thy ===== *)
theory Shared_Protos
  imports Node_Properties
begin

text \<open>
  The message objects of \<open>node/handler.go\<close>. The slice \<open>protos\<close> is a package variable: \<open>handlePacket\<close>, which the UDP loop of
  \<open>schedule\<close> and the \<open>read\<close> goroutine of every connection call concurrently, resets, fills and reads the same object for
  every datagram of a type. Here the handler is cut into its accesses to that object, and the goroutines interleave between them.
  The theory shows when the handler is still atomic, as \<open>Node_System\<close> takes it (no two calls for one type overlap), and what
  happens otherwise.
\<close>

section \<open>The handler in pieces\<close>

text \<open>Up to \<open>protos[int(packetType)]\<close>: either the call ends (\<open>Inl\<close>), or a message object is about to be used.\<close>

definition handler_entry :: "node \<Rightarrow> bytes \<Rightarrow> (node + unit) go" where
  "handler_entry n data =
     (if length data < 1 then Ret (Inl n)
      else let packetType = packetType_of data; payload = tl data
      in if packetType = PacketType_Data
         then go_bind (chan_send (nd_pipeline n) payload) (\<lambda>ch. Ret (Inl (n\<lparr>nd_pipeline := ch\<rparr>)))
         else if int (length node_protos) \<le> sint packetType then Ret (Inl n)
         else if sint packetType < 0 then Panic ''index out of range''
         else (case node_protos ! nat (sint packetType) of None \<Rightarrow> Ret (Inl n) | Some msg \<Rightarrow> Ret (Inr ())))"

definition slot :: "bytes \<Rightarrow> nat" where
  "slot data = nat (sint (packetType_of data))"

text \<open>Where a goroutine is inside \<open>handlePacket\<close>, with the datagram it works on.\<close>

datatype handler_pc = Out | AtReset bytes | AtUnmarshal bytes | AtSwitch bytes

fun datagram_of :: "handler_pc \<Rightarrow> bytes option" where
  "datagram_of Out = None"
| "datagram_of (AtReset d) = Some d"
| "datagram_of (AtUnmarshal d) = Some d"
| "datagram_of (AtSwitch d) = Some d"

record shared =
  sh_node :: node
  sh_protos :: "proto_message option list"
  sh_pc :: "nat \<Rightarrow> handler_pc"

definition shared_init :: "node \<Rightarrow> shared" where
  "shared_init n = \<lparr>sh_node = n, sh_protos = node_protos, sh_pc = (\<lambda>_. Out)\<rparr>"

text \<open>
  The steps of goroutine \<open>g\<close>, and the other steps of the node. A failed \<open>Unmarshal\<close> leaves the object in an unspecified state.
\<close>

inductive shared_step ::
  "proto_lib \<Rightarrow> (string \<Rightarrow> string option) \<Rightarrow> (bytes \<Rightarrow> (byte \<times> byte \<times> byte \<times> byte) option) \<Rightarrow> shared \<Rightarrow> shared \<Rightarrow> bool"
  for P dial decode where
  call_ends: "sh_pc s g = Out \<Longrightarrow> handler_entry (sh_node s) (take MaxBufferSize d) = Ret (Inl n) \<Longrightarrow>
     shared_step P dial decode s (s\<lparr>sh_node := n\<rparr>)"
| call_starts: "sh_pc s g = Out \<Longrightarrow> handler_entry (sh_node s) (take MaxBufferSize d) = Ret (Inr ()) \<Longrightarrow>
     shared_step P dial decode s (s\<lparr>sh_pc := (sh_pc s)(g := AtReset (take MaxBufferSize d))\<rparr>)"
| reset: "sh_pc s g = AtReset d \<Longrightarrow> sh_protos s ! slot d = Some m \<Longrightarrow>
     shared_step P dial decode s
       (s\<lparr>sh_protos := (sh_protos s)[slot d := Some (proto_Reset m)], sh_pc := (sh_pc s)(g := AtUnmarshal d)\<rparr>)"
| unmarshal: "sh_pc s g = AtUnmarshal d \<Longrightarrow> sh_protos s ! slot d = Some m \<Longrightarrow> proto_Unmarshal P m (tl d) = Inr m' \<Longrightarrow>
     shared_step P dial decode s (s\<lparr>sh_protos := (sh_protos s)[slot d := Some m'], sh_pc := (sh_pc s)(g := AtSwitch d)\<rparr>)"
| unmarshal_fails: "sh_pc s g = AtUnmarshal d \<Longrightarrow> sh_protos s ! slot d = Some m \<Longrightarrow> proto_Unmarshal P m (tl d) = Inl err \<Longrightarrow>
     same_type m m' \<Longrightarrow>
     shared_step P dial decode s (s\<lparr>sh_protos := (sh_protos s)[slot d := Some m'], sh_pc := (sh_pc s)(g := Out)\<rparr>)"
| switch: "sh_pc s g = AtSwitch d \<Longrightarrow> sh_protos s ! slot d = Some m \<Longrightarrow>
     packet_switch P dial rnd (sh_node s) (packetType_of d) m now = Ret n \<Longrightarrow>
     shared_step P dial decode s (s\<lparr>sh_node := n, sh_pc := (sh_pc s)(g := Out)\<rparr>)"
| elsewhere: "node_step P dial decode (sh_node s) l n \<Longrightarrow> (\<And>d now. l \<noteq> NPacket d now) \<Longrightarrow>
     shared_step P dial decode s (s\<lparr>sh_node := n\<rparr>)"

text \<open>No two calls for the same type are under way.\<close>

definition exclusive :: "shared \<Rightarrow> bool" where
  "exclusive s \<longleftrightarrow> (\<forall>g h d e. g \<noteq> h \<longrightarrow> datagram_of (sh_pc s g) = Some d \<longrightarrow> datagram_of (sh_pc s h) = Some e \<longrightarrow> slot d \<noteq> slot e)"

text \<open>Runs all of whose states, the first excepted, satisfy \<open>ok\<close>.\<close>

inductive shared_run ::
  "(shared \<Rightarrow> bool) \<Rightarrow> proto_lib \<Rightarrow> (string \<Rightarrow> string option) \<Rightarrow> (bytes \<Rightarrow> (byte \<times> byte \<times> byte \<times> byte) option) \<Rightarrow> shared \<Rightarrow> shared \<Rightarrow> bool"
  for ok P dial decode s where
  run_refl: "shared_run ok P dial decode s s"
| run_step: "shared_run ok P dial decode s s' \<Longrightarrow> shared_step P dial decode s' s'' \<Longrightarrow> ok s'' \<Longrightarrow> shared_run ok P dial decode s s''"

section \<open>The calls that do not overlap are atomic\<close>

text \<open>A datagram that passed the entry: its type has a message object.\<close>

definition carried :: "bytes \<Rightarrow> bool" where
  "carried d \<longleftrightarrow> d \<noteq> [] \<and> packetType_of d \<noteq> PacketType_Data \<and> 0 \<le> sint (packetType_of d) \<and> slot d < length node_protos \<and>
     node_protos ! slot d \<noteq> None \<and> length d \<le> MaxBufferSize"

definition template :: "bytes \<Rightarrow> proto_message" where
  "template d = proto_Reset (the (node_protos ! slot d))"

lemma entry_carried: "handler_entry n (take MaxBufferSize d) = Ret (Inr ()) \<Longrightarrow> carried (take MaxBufferSize d)"
  by (auto simp: handler_entry_def carried_def slot_def Let_def go_bind_Ret_iff split: if_splits option.splits)

lemma handlePacket_carried:
  "carried d \<Longrightarrow> handlePacket P dial rnd n d now =
     (case proto_Unmarshal P (template d) (tl d) of Inl err \<Rightarrow> Ret n | Inr m \<Rightarrow> packet_switch P dial rnd n (packetType_of d) m now)"
  by (auto simp: handlePacket_def carried_def template_def slot_def Let_def)

lemma handlePacket_entry: "handler_entry n d = Ret (Inl n') \<Longrightarrow> handlePacket P dial rnd n d now = Ret n'"
  by (auto simp: handler_entry_def handlePacket_def Let_def go_simps split: if_splits option.splits)

text \<open>What the object holds while its user is between two accesses.\<close>

definition holds :: "proto_lib \<Rightarrow> shared \<Rightarrow> handler_pc \<Rightarrow> bool" where
  "holds P s pc \<longleftrightarrow> (case pc of Out \<Rightarrow> True | AtReset d \<Rightarrow> carried d
     | AtUnmarshal d \<Rightarrow> carried d \<and> sh_protos s ! slot d = Some (template d)
     | AtSwitch d \<Rightarrow> carried d \<and> (\<exists>m. sh_protos s ! slot d = Some m \<and> proto_Unmarshal P (template d) (tl d) = Inr m))"

definition shared_inv :: "proto_lib \<Rightarrow> shared \<Rightarrow> bool" where
  "shared_inv P s \<longleftrightarrow> exclusive s \<and> list_all2 (rel_option same_type) node_protos (sh_protos s) \<and> (\<forall>g. holds P s (sh_pc s g))"

lemma shared_init_inv: "shared_inv P (shared_init n)"
proof -
  have "same_type m m" for m by (cases m) simp_all
  then have "rel_option same_type x x" for x by (cases x) simp_all
  then show ?thesis by (simp add: shared_inv_def shared_init_def exclusive_def holds_def list.rel_refl)
qed

lemma slot_object:
  assumes "shared_inv P s" and "carried d" and "sh_protos s ! slot d = Some m"
  shows "slot d < length (sh_protos s)" "proto_Reset m = template d"
proof -
  from assms(1,2) have len: "slot d < length (sh_protos s)" and "rel_option same_type (node_protos ! slot d) (sh_protos s ! slot d)"
    by (auto simp: shared_inv_def carried_def list_all2_conv_all_nth)
  then show "slot d < length (sh_protos s)" "proto_Reset m = template d"
    using assms(2,3) Reset_same_type by (auto simp: carried_def template_def option_rel_Some2)
qed

text \<open>A goroutine that writes to its object does not touch those of the others.\<close>

lemma shared_inv_write:
  assumes inv: "shared_inv P s" and d: "datagram_of (sh_pc s g) = Some d" "carried d" "sh_protos s ! slot d = Some m" "same_type m m'"
    and s': "s' = s\<lparr>sh_protos := (sh_protos s)[slot d := Some m'], sh_pc := (sh_pc s)(g := pc)\<rparr>"
    and ex: "exclusive s'" and pc: "holds P s' pc"
  shows "shared_inv P s'"
proof -
  have tr: "same_type a b \<Longrightarrow> same_type b c \<Longrightarrow> same_type a c" for a b c by (cases a) auto
  note len = slot_object(1) [OF inv d(2,3)]
  have "list_all2 (rel_option same_type) node_protos (sh_protos s')"
    using inv d(3,4) len unfolding s' shared_inv_def list_all2_conv_all_nth
    by (auto simp: nth_list_update option_rel_Some2 dest: tr) (metis option_rel_Some2 tr)
  moreover have "holds P s' (sh_pc s' h)" for h
  proof (cases "h = g")
    case True
    then show ?thesis using pc by (simp add: s')
  next
    case False
    then have "slot e \<noteq> slot d" if "datagram_of (sh_pc s h) = Some e" for e
      using inv d(1) that unfolding shared_inv_def exclusive_def by blast
    moreover have "holds P s (sh_pc s h)" using inv by (simp add: shared_inv_def)
    ultimately show ?thesis using False by (cases "sh_pc s h") (auto simp: s' holds_def)
  qed
  ultimately show ?thesis using ex by (simp add: shared_inv_def)
qed

lemma holds_node [simp]: "holds P (s\<lparr>sh_node := n\<rparr>) pc = holds P s pc" "holds P (s\<lparr>sh_pc := f\<rparr>) pc = holds P s pc"
  by (simp_all add: holds_def split: handler_pc.splits)

lemma shared_inv_node: "shared_inv P s \<Longrightarrow> shared_inv P (s\<lparr>sh_node := n\<rparr>)"
  by (simp add: shared_inv_def exclusive_def)

lemma shared_inv_pc:
  "shared_inv P s \<Longrightarrow> exclusive (s\<lparr>sh_pc := (sh_pc s)(g := pc)\<rparr>) \<Longrightarrow> holds P s pc \<Longrightarrow> shared_inv P (s\<lparr>sh_pc := (sh_pc s)(g := pc)\<rparr>)"
  by (simp add: shared_inv_def)

text \<open>The simulation: a step without overlap leaves the node alone or is one of its atomic steps.\<close>

lemma shared_step_simulated:
  assumes inv: "shared_inv P s" and step: "shared_step P dial decode s s'" and ex: "exclusive s'" and typed: "proto_typed P"
  shows "shared_inv P s' \<and> (sh_node s' = sh_node s \<or> (\<exists>l. node_step P dial decode (sh_node s) l (sh_node s')))"
  using step
proof cases
  case (call_ends g d n)
  then have "node_step P dial decode (sh_node s) (NPacket d now) n" for now
    by (auto intro!: node_step.packet [where rnd = "\<lambda>_. 0"] handlePacket_entry)
  then show ?thesis using call_ends(1) shared_inv_node [OF inv] by auto
next
  case (call_starts g d)
  then show ?thesis using shared_inv_pc [OF inv] ex entry_carried by (simp add: holds_def)
next
  case (reset g d m)
  then have d: "carried d" using inv unfolding shared_inv_def by (auto dest!: spec [of _ g] simp: holds_def)
  have "shared_inv P s'"
    using slot_object [OF inv d reset(3)] d reset(2) by (intro shared_inv_write [OF inv _ d reset(3) same_type_Reset reset(1) ex]) (simp_all add: holds_def reset(1))
  then show ?thesis using reset(1) by simp
next
  case (unmarshal g d m m')
  then have d: "carried d" "m = template d" using inv unfolding shared_inv_def by (auto dest!: spec [of _ g] simp: holds_def)
  have "shared_inv P s'"
    using slot_object [OF inv d(1) unmarshal(3)] unmarshal(2,4) d(2) proto_typedD [OF typed unmarshal(4)]
    by (intro shared_inv_write [OF inv _ d(1) unmarshal(3) _ unmarshal(1) ex]) (simp_all add: holds_def unmarshal(1) d(1))
  then show ?thesis using unmarshal(1) by simp
next
  case (unmarshal_fails g d m err m')
  then have d: "carried d" using inv unfolding shared_inv_def by (auto dest!: spec [of _ g] simp: holds_def)
  have "shared_inv P s'"
    using unmarshal_fails by (intro shared_inv_write [OF inv _ d unmarshal_fails(3,5,1) ex]) (simp_all add: holds_def)
  then show ?thesis using unmarshal_fails(1) by simp
next
  case (switch g d m rnd now n)
  then have d: "carried d" "proto_Unmarshal P (template d) (tl d) = Inr m"
    using inv unfolding shared_inv_def by (auto dest!: spec [of _ g] simp: holds_def)
  then have "take MaxBufferSize d = d" by (simp add: carried_def)
  then have "node_step P dial decode (sh_node s) (NPacket d now) n"
    using d switch(4) by (auto intro!: node_step.packet [where rnd = rnd] simp: handlePacket_carried)
  moreover have "shared_inv P (s\<lparr>sh_pc := (sh_pc s)(g := Out)\<rparr>)"
    using ex unfolding switch(1) by (intro shared_inv_pc [OF inv]) (simp_all add: holds_def exclusive_def)
  then have "shared_inv P (s\<lparr>sh_pc := (sh_pc s)(g := Out), sh_node := n\<rparr>)" by (rule shared_inv_node)
  moreover have "s' = s\<lparr>sh_pc := (sh_pc s)(g := Out), sh_node := n\<rparr>" using switch(1) by simp
  moreover have "sh_node s' = n" using switch(1) by simp
  ultimately show ?thesis by metis
next
  case (elsewhere l n)
  then show ?thesis using shared_inv_node [OF inv] by auto
qed

lemma shared_run_simulated:
  assumes "shared_run exclusive P dial decode s s'" and "shared_inv P s" and "proto_typed P"
  shows "shared_inv P s' \<and> (\<exists>ls. node_run P dial decode (sh_node s) ls (sh_node s'))"
  using assms
proof (induction rule: shared_run.induct)
  case run_refl
  then show ?case using node_run.run_nil by blast
next
  case (run_step s' s'')
  then obtain ls where inv: "shared_inv P s'" and ls: "node_run P dial decode (sh_node s) ls (sh_node s')" by blast
  have one: "\<exists>l. node_run P dial decode (sh_node s') l (sh_node s'')"
    using shared_step_simulated [OF inv run_step(2,3) run_step.prems(2)] node_run_one node_run.run_nil by metis
  show ?case using shared_step_simulated [OF inv run_step(2,3) run_step.prems(2)] node_run_append [OF ls] one by blast
qed

section \<open>Two pongs at once\<close>

text \<open>A datagram with an encoded pong, handled up to the switch.\<close>

lemma pong_datagram:
  assumes "proto_roundtrip P" and "Encode P PacketType_Pong (MPong x) = Ret d" and "length d \<le> MaxBufferSize"
  shows "take MaxBufferSize d = d" "slot d = 5" "packetType_of d = PacketType_Pong" "handler_entry n d = Ret (Inr ())"
    "proto_Unmarshal P (MPong \<lparr>pong_VirtAddress = '''', pong_Nonce = ''''\<rparr>) (tl d) = Inr (MPong x)"
proof -
  obtain b where b: "proto_Marshal P (MPong x) = Inr b" "d = 5 # b" using assms(2) by (auto simp: Encode_Ret_iff PacketType_defs)
  show "proto_Unmarshal P (MPong \<lparr>pong_VirtAddress = '''', pong_Nonce = ''''\<rparr>) (tl d) = Inr (MPong x)"
    using proto_roundtripD [OF assms(1) b(1)] b(2) by (simp add: Reset_defs)
  show "take MaxBufferSize d = d" using assms(3) by simp
  show "slot d = 5" "packetType_of d = PacketType_Pong" "handler_entry n d = Ret (Inr ())"
    using b(2) by (simp_all add: slot_def handler_entry_def packetType_of_def PacketType_defs node_protos_def)
qed

lemma pong_received_idem: "pong_received (pong_received c now) now = pong_received c now"
  by (simp add: pong_received_def Let_def)

lemma shared_run_one: "shared_step P dial decode s s' \<Longrightarrow> ok s' \<Longrightarrow> shared_run ok P dial decode s s'"
  by (auto intro: shared_run.intros)

abbreviation pong_slot :: "node \<Rightarrow> proto_message \<Rightarrow> (nat \<Rightarrow> handler_pc) \<Rightarrow> shared" where
  "pong_slot n m pcs \<equiv> \<lparr>sh_node = n, sh_protos = node_protos[5 := Some m], sh_pc = pcs\<rparr>"

lemma node_protos_5: "5 < length node_protos"
  by (simp add: node_protos_def)

lemma pong_alone:
  assumes "proto_roundtrip P" and "Encode P PacketType_Pong (MPong x) = Ret d" and "length d \<le> MaxBufferSize"
    and ok: "\<And>m pc. ok (pong_slot n m ((\<lambda>_. Out)(0 := pc)))"
  shows "shared_run ok P dial decode (shared_init n) (pong_slot n (MPong x) ((\<lambda>_. Out)(0 := AtSwitch d)))"
proof -
  note d = pong_datagram [OF assms(1-3)] and len = node_protos_5
  let ?zero = "MPong \<lparr>pong_VirtAddress = '''', pong_Nonce = ''''\<rparr>"
  have init: "shared_init n = pong_slot n ?zero (\<lambda>_. Out)" by (simp add: shared_init_def node_protos_def)
  note step = shared_step.intros [where P = P and dial = dial and decode = decode]
  note run = shared_run.run_step [where ok = ok, OF _ _ ok]
  have "shared_run ok P dial decode (shared_init n) (pong_slot n ?zero ((\<lambda>_. Out)(0 := AtReset d)))"
    unfolding init using step(2) [of "pong_slot n ?zero (\<lambda>_. Out)" 0 d] d ok by (auto intro!: shared_run_one)
  then have "shared_run ok P dial decode (shared_init n) (pong_slot n ?zero ((\<lambda>_. Out)(0 := AtUnmarshal d)))"
    by (rule run) (use step(3) [of "pong_slot n ?zero ((\<lambda>_. Out)(0 := AtReset d))" 0 d ?zero] d len in \<open>simp add: Reset_defs\<close>)
  then show ?thesis
    by (rule run) (use step(4) [of "pong_slot n ?zero ((\<lambda>_. Out)(0 := AtUnmarshal d))" 0 d ?zero "MPong x"] d len in simp)
qed

lemma node_run_two:
  "node_run P dial decode n [a, b] n'' \<Longrightarrow> \<exists>n'. node_step P dial decode n a n' \<and> node_step P dial decode n' b n''"
  by (auto elim!: node_run.cases)

section \<open>A sample\<close>

text \<open>The sample node with a second connection, and the pongs of both peers.\<close>

definition two_peers_node :: node where
  "two_peers_node = new_conn_node (sample_node ''2.2.2.2:20'')
     \<lparr>tunnel_AckId = 8, tunnel_VirtAddress = ''10.0.0.3'', tunnel_UdpAddress = ''3.3.3.3:30''\<rparr> ''3.3.3.3:30'' 2"

definition other_pong :: CtrlPong where
  "other_pong = \<lparr>pong_VirtAddress = ''10.0.0.3'', pong_Nonce = ''n''\<rparr>"

lemma sample_pongs:
  "Encode sample_lib PacketType_Pong (MPong sample_pong) = Ret sample_pong_datagram" "length sample_pong_datagram \<le> MaxBufferSize"
  "Encode sample_lib PacketType_Pong (MPong other_pong) = Ret (5 # sample_put (MPong other_pong))"
  "length (5 # sample_put (MPong other_pong)) \<le> MaxBufferSize"
  by (simp_all add: Encode_def sample_lib_def PacketType_defs sample_pong_datagram_def sample_pong_def other_pong_def MaxBufferSize_def)

lemma two_peers:
  "nd_connections two_peers_node (pong_VirtAddress sample_pong) = Some 0" "nd_heap two_peers_node 0 = Some sample_connection"
  "nd_connections two_peers_node (pong_VirtAddress other_pong) = Some 1"
  "nd_heap two_peers_node 1 = Some (new_connection ''10.0.0.1'' ''10.0.0.3'' ''3.3.3.3:30'' 2)" "(0 :: nat) \<noteq> 1"
  by (simp_all add: two_peers_node_def new_conn_node_def sample_pong_def other_pong_def sample_connection_def sample_opt_def)

section \<open>Properties\<close>

text \<open>
  C4: the handler is atomic when calls for one type do not overlap. The goroutines that call \<open>handlePacket\<close> use the message objects
  of the package variable \<open>protos\<close> in separate steps (reset, unmarshal, read), in any interleaving with each other and with the
  rest of the node. If no two calls for the same packet type are under way at the same time, every state that the node reaches is
  reached by a run of \<open>node_step\<close>, where a datagram is handled in one step; so everything proved of those runs holds.
\<close>

theorem shared_handler_refines_atomic:
  assumes "shared_run exclusive P dial decode (shared_init n) s" and "proto_typed P"
  shows "\<exists>ls. node_run P dial decode n ls (sh_node s)"
  using shared_run_simulated [OF assms(1) shared_init_inv assms(2)] by (simp add: shared_init_def)

theorem shared_handler_refines_atomic_witness:
  "\<exists>s ls. shared_run exclusive sample_lib Some (\<lambda>_. None) (shared_init two_peers_node) s \<and>
     nd_heap (sh_node s) 0 = Some (pong_received sample_connection 7) \<and> node_run sample_lib Some (\<lambda>_. None) two_peers_node ls (sh_node s)"
proof -
  let ?s = "pong_slot two_peers_node (MPong sample_pong) ((\<lambda>_. Out)(0 := AtSwitch sample_pong_datagram))"
  let ?n = "two_peers_node\<lparr>nd_heap := (nd_heap two_peers_node)(0 \<mapsto> pong_received sample_connection 7)\<rparr>"
  have "shared_run exclusive sample_lib Some (\<lambda>_. None) (shared_init two_peers_node) ?s"
    by (rule pong_alone [OF sample_lib_roundtrip sample_pongs(1,2)]) (simp add: exclusive_def)
  moreover have "shared_step sample_lib Some (\<lambda>_. None) ?s (?s\<lparr>sh_node := ?n, sh_pc := (sh_pc ?s)(0 := Out)\<rparr>)"
    using pong_datagram [OF sample_lib_roundtrip sample_pongs(1,2)] two_peers(1,2) node_protos_5
    by (intro shared_step.switch [where d = sample_pong_datagram and m = "MPong sample_pong" and rnd = "\<lambda>_. 0" and now = 7])
      (simp_all add: packet_switch_def PacketType_defs onPong_def)
  ultimately have run: "shared_run exclusive sample_lib Some (\<lambda>_. None) (shared_init two_peers_node)
      (?s\<lparr>sh_node := ?n, sh_pc := (sh_pc ?s)(0 := Out)\<rparr>)"
    by (rule shared_run.run_step) (simp add: exclusive_def)
  obtain ls where "node_run sample_lib Some (\<lambda>_. None) two_peers_node ls ?n"
    using shared_handler_refines_atomic [OF run sample_lib_typed] by auto
  with run show ?thesis by (intro exI conjI) auto
qed

text \<open>
  C5: overlapping calls mix up the peers. Two pongs, from different peers with a connection each, arrive at the same time. There is
  an interleaving of the two calls in which both finish, one peer is credited twice, and the connection of the other is as it
  was, not established and not kept alive, although its pong was handled. Handled one after the other, the two pongs
  would establish both.
\<close>

theorem concurrent_pongs_mix_peers:
  assumes rt: "proto_roundtrip P" and x: "Encode P PacketType_Pong (MPong x) = Ret dx" "length dx \<le> MaxBufferSize"
    and y: "Encode P PacketType_Pong (MPong y) = Ret dy" "length dy \<le> MaxBufferSize"
    and p: "nd_connections n (pong_VirtAddress x) = Some p" "nd_heap n p = Some c"
    and q: "nd_connections n (pong_VirtAddress y) = Some q" "nd_heap n q = Some e" "p \<noteq> q"
  shows "(\<exists>s. shared_run (\<lambda>_. True) P dial decode (shared_init n) s \<and> (\<forall>g. sh_pc s g = Out) \<and>
      nd_heap (sh_node s) p = Some c \<and> nd_heap (sh_node s) q = Some (pong_received e now)) \<and>
    (\<forall>n'. node_run P dial decode n [NPacket dx now, NPacket dy now] n' \<longrightarrow>
      nd_heap n' p = Some (pong_received c now) \<and> nd_heap n' q = Some (pong_received e now))"
proof
  note dx = pong_datagram [OF rt x] and dy = pong_datagram [OF rt y]
  note len = node_protos_5
  let ?zero = "MPong \<lparr>pong_VirtAddress = '''', pong_Nonce = ''''\<rparr>"
  let ?n1 = "n\<lparr>nd_heap := (nd_heap n)(q \<mapsto> pong_received e now)\<rparr>"
  note step = shared_step.intros [where P = P and dial = dial and decode = decode]
  note run = shared_run.run_step [where ok = "\<lambda>_. True", OF _ _ TrueI]
  have "shared_run (\<lambda>_. True) P dial decode (shared_init n) (pong_slot n (MPong x) ((\<lambda>_. Out)(0 := AtSwitch dx)))"
    by (rule pong_alone [OF rt x TrueI])
  then have "shared_run (\<lambda>_. True) P dial decode (shared_init n) (pong_slot n (MPong x) ((\<lambda>_. Out)(0 := AtSwitch dx, 1 := AtReset dy)))"
    by (rule run) (use step(2) [of "pong_slot n (MPong x) ((\<lambda>_. Out)(0 := AtSwitch dx))" 1 dy] dy in simp)
  then have "shared_run (\<lambda>_. True) P dial decode (shared_init n) (pong_slot n ?zero ((\<lambda>_. Out)(0 := AtSwitch dx, 1 := AtUnmarshal dy)))"
    by (rule run) (use step(3) [of "pong_slot n (MPong x) ((\<lambda>_. Out)(0 := AtSwitch dx, 1 := AtReset dy))" 1 dy "MPong x"] dy len in \<open>simp add: Reset_defs\<close>)
  then have "shared_run (\<lambda>_. True) P dial decode (shared_init n) (pong_slot n (MPong y) ((\<lambda>_. Out)(0 := AtSwitch dx, 1 := AtSwitch dy)))"
    by (rule run) (use step(4) [of "pong_slot n ?zero ((\<lambda>_. Out)(0 := AtSwitch dx, 1 := AtUnmarshal dy))" 1 dy ?zero "MPong y"] dy len in simp)
  then have "shared_run (\<lambda>_. True) P dial decode (shared_init n) ((pong_slot n (MPong y) ((\<lambda>_. Out)(0 := AtSwitch dx, 1 := AtSwitch dy, 0 := Out)))\<lparr>sh_node := ?n1\<rparr>)"
    by (rule run) (use step(6) [of "pong_slot n (MPong y) ((\<lambda>_. Out)(0 := AtSwitch dx, 1 := AtSwitch dy))" 0 dx "MPong y" "\<lambda>_. 0" now ?n1] dx len q
        in \<open>simp add: packet_switch_def PacketType_defs onPong_def\<close>)
  then have "shared_run (\<lambda>_. True) P dial decode (shared_init n) ((pong_slot n (MPong y) ((\<lambda>_. Out)(0 := AtSwitch dx, 1 := AtSwitch dy, 0 := Out, 1 := Out)))\<lparr>sh_node := ?n1\<rparr>)"
    by (rule run) (use step(6) [of "(pong_slot n (MPong y) ((\<lambda>_. Out)(0 := AtSwitch dx, 1 := AtSwitch dy, 0 := Out)))\<lparr>sh_node := ?n1\<rparr>" 1 dy "MPong y" "\<lambda>_. 0" now ?n1] dy len q
        in \<open>simp add: packet_switch_def PacketType_defs onPong_def pong_received_idem fun_upd_idem\<close>)
  then show "\<exists>s. shared_run (\<lambda>_. True) P dial decode (shared_init n) s \<and> (\<forall>g. sh_pc s g = Out) \<and>
      nd_heap (sh_node s) p = Some c \<and> nd_heap (sh_node s) q = Some (pong_received e now)"
    using p q by (intro exI conjI) auto
  show "\<forall>n'. node_run P dial decode n [NPacket dx now, NPacket dy now] n' \<longrightarrow>
      nd_heap n' p = Some (pong_received c now) \<and> nd_heap n' q = Some (pong_received e now)"
  proof (intro allI impI)
    fix n'
    assume "node_run P dial decode n [NPacket dx now, NPacket dy now] n'"
    then obtain n1 where s1: "node_step P dial decode n (NPacket dx now) n1" and s2: "node_step P dial decode n1 (NPacket dy now) n'"
      using node_run_two by blast
    from s1 have n1: "n1 = n\<lparr>nd_heap := (nd_heap n)(p \<mapsto> pong_received c now)\<rparr>"
      using handlePacket_Encode(3) [OF rt x(1)] p dx(1) by cases (auto simp: onPong_def)
    from s2 show "nd_heap n' p = Some (pong_received c now) \<and> nd_heap n' q = Some (pong_received e now)"
      using handlePacket_Encode(3) [OF rt y(1)] q dy(1) by cases (auto simp: onPong_def n1)
  qed
qed

theorem concurrent_pongs_mix_peers_witness:
  "\<exists>s. shared_run (\<lambda>_. True) sample_lib Some (\<lambda>_. None) (shared_init two_peers_node) s \<and> (\<forall>g. sh_pc s g = Out) \<and>
     nd_heap (sh_node s) 0 = Some sample_connection \<and> c_state sample_connection = StateConnecting"
  using concurrent_pongs_mix_peers [OF sample_lib_roundtrip sample_pongs two_peers, of Some "\<lambda>_. None" 7]
  by (auto simp: sample_connection_def new_connection_def)

end
