(* ===== verification/Tun.thy ===== *)
theory Tun
  imports Mesh_Prelude
begin

text \<open>
  The virtual network device (\<open>node/tun/tun.go\<close>) and the contract its platforms implement: what one device
  hands to the operating system for a packet, the device at the other end turns back into that packet. The
  locale \<open>packet_device\<close> states it for one packet and derives it for a sequence of packets; the theories of
  the platforms interpret it on their own operations.
\<close>

section \<open>Device\<close>

definition DefaultMTU :: int where "DefaultMTU = 1420"

record 'f generalDevice =
  dev_name :: string
  dev_file :: 'f

definition generalDevice_Name :: "'f generalDevice \<Rightarrow> string" where
  "generalDevice_Name d = dev_name d"

datatype io_error = EIO | ErrClosed | EOF | IoError string

text \<open>A Go slice of a buffer, \<open>buffer[:c]\<close>: it panics when \<open>c\<close> is not between 0 and the buffer's length.\<close>

definition go_slice :: "bytes \<Rightarrow> int \<Rightarrow> bytes go" where
  "go_slice buffer c =
     (if 0 \<le> c \<and> c \<le> int (length buffer) then Ret (take (nat c) buffer)
      else Panic ''slice bounds out of range'')"

text \<open>\<open>copy(dst, src)\<close>: as many bytes as both have.\<close>

definition go_copy :: "bytes \<Rightarrow> bytes \<Rightarrow> bytes" where
  "go_copy dst src = take (length dst) src @ drop (length src) dst"

lemma length_go_copy [simp]: "length (go_copy dst src) = length dst"
  by (simp add: go_copy_def)

lemma go_copy_Nil [simp]: "go_copy dst src = [] \<longleftrightarrow> dst = []"
  by (metis length_go_copy length_0_conv)

lemma take_go_copy: "length src \<le> length dst \<Longrightarrow> take (length src) (go_copy dst src) = src"
  by (simp add: go_copy_def)

section \<open>The contract\<close>

primrec write_all :: "('d \<Rightarrow> bytes \<Rightarrow> (bytes \<times> 'd) option) \<Rightarrow> 'd \<Rightarrow> bytes list \<Rightarrow> (bytes list \<times> 'd) option" where
  "write_all w d [] = Some ([], d)"
| "write_all w d (p # ps) =
     (case w d p of
        None \<Rightarrow> None
      | Some (f, d') \<Rightarrow> (case write_all w d' ps of None \<Rightarrow> None | Some (fs, d'') \<Rightarrow> Some (f # fs, d'')))"

primrec read_all :: "('e \<Rightarrow> bytes \<Rightarrow> bytes \<Rightarrow> bytes option \<times> 'e) \<Rightarrow> 'e \<Rightarrow> bytes \<Rightarrow> bytes list \<Rightarrow> bytes option list \<times> 'e" where
  "read_all r e buffer [] = ([], e)"
| "read_all r e buffer (f # fs) =
     (let (p, e') = r e buffer f; (ps, e'') = read_all r e' buffer fs in (p # ps, e''))"

text \<open>
  \<open>dwrite d p\<close> is the frame that \<open>Write\<close> hands to the system for the packet \<open>p\<close>, or \<open>None\<close> when it
  refuses the packet; \<open>dread e buffer f\<close> is \<open>buffer[:c]\<close> after a \<open>Read\<close> into \<open>buffer\<close> that got the frame \<open>f\<close>,
  or \<open>None\<close> when the read fails.
\<close>

locale packet_device =
  fixes dwrite :: "'d \<Rightarrow> bytes \<Rightarrow> (bytes \<times> 'd) option"
    and dread :: "'e \<Rightarrow> bytes \<Rightarrow> bytes \<Rightarrow> bytes option \<times> 'e"
    and write_ok :: "'d \<Rightarrow> bool" and carries :: "bytes \<Rightarrow> bool"
  assumes write_frame: "write_ok d \<Longrightarrow> carries p \<Longrightarrow> \<exists>f d'. dwrite d p = Some (f, d') \<and> write_ok d'"
    and read_frame: "write_ok d \<Longrightarrow> carries p \<Longrightarrow> dwrite d p = Some (f, d') \<Longrightarrow> length p \<le> length buffer \<Longrightarrow>
      fst (dread e buffer f) = Some p"
begin

lemma stream_round_trip:
  "write_ok d \<Longrightarrow> \<forall>p \<in> set ps. carries p \<and> length p \<le> length buffer \<Longrightarrow>
     \<exists>fs d'. write_all dwrite d ps = Some (fs, d') \<and> write_ok d' \<and> fst (read_all dread e buffer fs) = map Some ps"
proof (induction ps arbitrary: d e)
  case Nil
  then show ?case by simp
next
  case (Cons p ps)
  obtain f d' where w: "dwrite d p = Some (f, d')" "write_ok d'" using write_frame Cons.prems by fastforce
  have r: "fst (dread e buffer f) = Some p" using read_frame w Cons.prems by simp
  obtain e' where e': "dread e buffer f = (Some p, e')" using r by (cases "dread e buffer f") auto
  obtain fs d'' where "write_all dwrite d' ps = Some (fs, d'')" "write_ok d''" "fst (read_all dread e' buffer fs) = map Some ps"
    using Cons.IH [OF w(2)] Cons.prems by (metis list.set_intros(2))
  then show ?case using w e' by (auto simp: split_beta)
qed

end

end
