(* ===== verification/Tun_Linux.thy ===== *)
theory Tun_Linux
  imports Tun
begin

text \<open>
  The device on Linux (\<open>node/tun/tun_linux.go\<close>): \<open>NewTUN\<close> opens \<open>/dev/net/tun\<close>, names the interface with an
  \<open>ioctl\<close>, sets the MTU through a datagram socket and runs \<open>ip\<close> twice. The kernel and the commands are the
  parameter \<open>linux_env\<close>; the system calls that were made are recorded in order, so that the descriptors
  still open at the end can be read off. Reading and writing go straight to the file.
\<close>

section \<open>System calls of the set-up\<close>

datatype sysop =
    OpenFd nat
  | CloseFd nat
  | Ioctl nat string bytes
  | Exec "string list"

datatype tun_error = SysError string | Errno nat | MtuFailed | ErrorOutput string string

text \<open>The descriptors that are open after a sequence of system calls.\<close>

fun open_fds :: "sysop list \<Rightarrow> nat list \<Rightarrow> nat list" where
  "open_fds [] fds = fds"
| "open_fds (OpenFd fd # ops) fds = open_fds ops (fd # fds)"
| "open_fds (CloseFd fd # ops) fds = open_fds ops (remove1 fd fds)"
| "open_fds (_ # ops) fds = open_fds ops fds"

lemma open_fds_append [simp]: "open_fds (xs @ ys) fds = open_fds ys (open_fds xs fds)"
  by (induction xs fds rule: open_fds.induct) auto

definition commands :: "sysop list \<Rightarrow> string list list" where
  "commands ops = List.map_filter (\<lambda>x. case x of Exec args \<Rightarrow> Some args | _ \<Rightarrow> None) ops"

definition text_of :: "bytes \<Rightarrow> string" where
  "text_of bs = map (\<lambda>b. char_of (unat b)) bs"

text \<open>\<open>strings.Trim(s, "\\x00")\<close>\<close>

definition trim_nul :: "bytes \<Rightarrow> bytes" where
  "trim_nul bs = rev (dropWhile (\<lambda>b. b = 0) (rev (dropWhile (\<lambda>b. b = 0) bs)))"

section \<open>NewTUN\<close>

text \<open>
  \<open>le_flags\<close> is the value of \<open>unix.IFF_TUN | unix.IFF_NO_PI\<close>; \<open>le_tunsetiff\<close> and \<open>le_setmtu\<close> are the results
  of the two \<open>ioctl\<close> calls, the first also the request structure as the kernel leaves it; \<open>le_exec\<close> is the
  combined output of a command and its error.
\<close>

record linux_env =
  le_open :: "string + nat"
  le_flags :: "16 word"
  le_tunsetiff :: "bytes \<Rightarrow> nat \<times> bytes"
  le_socket :: "string + nat"
  le_setmtu :: "bytes \<Rightarrow> nat"
  le_exec :: "string list \<Rightarrow> string \<times> string option"

definition IFNAMSIZ :: nat where "IFNAMSIZ = 16"

definition request_size :: nat where "request_size = IFNAMSIZ + 64"

text \<open>Stores through \<open>*(*uint16)\<close> and \<open>*(*uint32)\<close> at the offset \<open>IFNAMSIZ\<close>, little-endian.\<close>

definition put_bytes :: "bytes \<Rightarrow> nat \<Rightarrow> bytes \<Rightarrow> bytes" where
  "put_bytes xs off bs = take off xs @ bs @ drop (off + length bs) xs"

definition linux_setiff :: "16 word \<Rightarrow> bytes" where
  "linux_setiff flags = put_bytes (replicate request_size 0) IFNAMSIZ [ucast flags, ucast (drop_bit 8 flags)]"

definition linux_mtu_request :: "bytes \<Rightarrow> bytes" where
  "linux_mtu_request name =
     (let mtu = of_int DefaultMTU :: 32 word
      in put_bytes (go_copy (replicate request_size 0) name) IFNAMSIZ
           [ucast mtu, ucast (drop_bit 8 mtu), ucast (drop_bit 16 mtu), ucast (drop_bit 24 mtu)])"

definition linux_setmtu :: "linux_env \<Rightarrow> bytes \<Rightarrow> tun_error option \<times> sysop list" where
  "linux_setmtu env name =
     (case le_socket env of
        Inl e \<Rightarrow> (Some (SysError e), [])
      | Inr fd \<Rightarrow>
          let req = linux_mtu_request name
          in (if le_setmtu env req \<noteq> 0 then Some MtuFailed else None,
              [OpenFd fd, Ioctl fd ''SIOCSIFMTU'' req, CloseFd fd]))"

definition linux_addr_command :: "string \<Rightarrow> string \<Rightarrow> string list" where
  "linux_addr_command addr name = [''ip'', ''addr'', ''add'', addr @ ''/16'', ''dev'', name]"

definition linux_up_command :: "string \<Rightarrow> string list" where
  "linux_up_command name = [''ip'', ''link'', ''set'', ''dev'', name, ''up'']"

definition linux_configure :: "linux_env \<Rightarrow> string \<Rightarrow> nat \<Rightarrow> string \<Rightarrow> (tun_error + nat generalDevice) \<times> sysop list" where
  "linux_configure env addr fd name =
     (let ifconfig = linux_addr_command addr name; upifce = linux_up_command name
      in case le_exec env ifconfig of
           (out, Some e) \<Rightarrow> (Inl (ErrorOutput e out), [Exec ifconfig])
         | (_, None) \<Rightarrow>
             (case le_exec env upifce of
                (out, Some e) \<Rightarrow> (Inl (ErrorOutput e out), [Exec ifconfig, Exec upifce])
              | (_, None) \<Rightarrow> (Inr \<lparr>dev_name = name, dev_file = fd\<rparr>, [Exec ifconfig, Exec upifce])))"

definition NewTUN_linux :: "linux_env \<Rightarrow> string \<Rightarrow> (tun_error + nat generalDevice) \<times> sysop list" where
  "NewTUN_linux env addr =
     (case le_open env of
        Inl e \<Rightarrow> (Inl (SysError e), [])
      | Inr fd \<Rightarrow>
          let req = linux_setiff (le_flags env); (errno, ifr) = le_tunsetiff env req;
              ops = [OpenFd fd, Ioctl fd ''TUNSETIFF'' req]
          in if errno \<noteq> 0 then (Inl (Errno errno), ops)
             else
               let name = trim_nul (take IFNAMSIZ ifr)
               in case linux_setmtu env name of
                    (Some e, mtu_ops) \<Rightarrow> (Inl e, ops @ mtu_ops)
                  | (None, mtu_ops) \<Rightarrow>
                      let (r, cmds) = linux_configure env addr fd (text_of name)
                      in (r, ops @ mtu_ops @ cmds))"

lemmas linux_defs = NewTUN_linux_def linux_setmtu_def linux_configure_def Let_def

lemma linux_fds: "open_fds (snd (NewTUN_linux env addr)) [] = (case le_open env of Inl e \<Rightarrow> [] | Inr fd \<Rightarrow> [fd])"
  by (auto simp: linux_defs split: sum.splits prod.splits option.splits)

text \<open>What \<open>strings.Trim\<close> leaves is the middle of its argument, between the zero bytes of both ends.\<close>

lemma dropWhile_split:
  "\<exists>k. xs = replicate k z @ dropWhile (\<lambda>b. b = z) xs \<and> (dropWhile (\<lambda>b. b = z) xs = [] \<or> hd (dropWhile (\<lambda>b. b = z) xs) \<noteq> z)"
proof (induction xs)
  case (Cons x xs)
  then obtain k where k: "xs = replicate k z @ dropWhile (\<lambda>b. b = z) xs"
    "dropWhile (\<lambda>b. b = z) xs = [] \<or> hd (dropWhile (\<lambda>b. b = z) xs) \<noteq> z" by blast
  show ?case
  proof (cases "x = z")
    case True
    then have "x # xs = replicate (Suc k) z @ dropWhile (\<lambda>b. b = z) (x # xs)" using k(1) by simp
    then show ?thesis using k(2) True by (intro exI [of _ "Suc k"]) simp
  next
    case False
    then show ?thesis by (intro exI [of _ 0]) simp
  qed
qed simp

lemma trim_nul_split:
  "\<exists>k l. bs = replicate k 0 @ trim_nul bs @ replicate l 0 \<and> (trim_nul bs = [] \<or> hd (trim_nul bs) \<noteq> 0 \<and> last (trim_nul bs) \<noteq> 0)"
proof -
  let ?front = "dropWhile (\<lambda>b. b = 0) bs"
  obtain k where k: "bs = replicate k 0 @ ?front" "?front = [] \<or> hd ?front \<noteq> 0" using dropWhile_split [of bs 0] by blast
  let ?behind = "dropWhile (\<lambda>b. b = 0) (rev ?front)"
  obtain l where b: "rev ?front = replicate l 0 @ ?behind" "?behind = [] \<or> hd ?behind \<noteq> 0" using dropWhile_split [of "rev ?front" 0] by blast
  have t: "trim_nul bs = rev ?behind" by (simp add: trim_nul_def)
  then have l: "rev ?front = replicate l 0 @ rev (trim_nul bs)" "trim_nul bs = [] \<or> last (trim_nul bs) \<noteq> 0"
    using b last_rev [of ?behind] by (simp_all del: dropWhile_eq_Nil_conv)
  have front: "?front = trim_nul bs @ replicate l 0" using arg_cong [OF l(1), of rev] by simp
  have "trim_nul bs = [] \<or> hd (trim_nul bs) \<noteq> 0" using k(2) unfolding front by auto
  then show ?thesis using k(1) l(2) unfolding front by blast
qed

lemma length_trim_nul: "length (trim_nul bs) \<le> length bs"
proof -
  obtain k l where "bs = replicate k 0 @ trim_nul bs @ replicate l 0" using trim_nul_split [of bs] by blast
  from arg_cong [OF this, of length] show ?thesis by simp
qed

text \<open>The two requests, written out.\<close>

lemma linux_setiff_bytes:
  "linux_setiff flags = replicate 16 0 @ [ucast flags, ucast (drop_bit 8 flags)] @ replicate 62 0"
  by (simp add: linux_setiff_def put_bytes_def request_size_def IFNAMSIZ_def flip: replicate_add)

lemma linux_mtu_request_bytes:
  assumes "length name \<le> 16"
  shows "linux_mtu_request name = name @ replicate (16 - length name) 0 @ [0x8c, 5, 0, 0] @ replicate 60 0"
proof -
  have "take 16 (go_copy (replicate 80 0) name) = name @ replicate (16 - length name) 0"
    using assms by (simp add: go_copy_def min_def)
  moreover have "drop 20 (go_copy (replicate 80 0) name) = replicate 60 0" using assms by (simp add: go_copy_def)
  ultimately show ?thesis
    by (simp add: linux_mtu_request_def put_bytes_def request_size_def IFNAMSIZ_def DefaultMTU_def Let_def)
qed

text \<open>
  C32: set-up of the device on Linux. \<open>NewTUN\<close> returns a device exactly when the device file opens, the kernel accepts the request with the
  wanted flags, the datagram socket opens, the MTU of 1420 is accepted for the name the kernel put into the first
  16 bytes of the request, without the zero bytes around it, and the two commands \<open>ip addr add ADDR/16 dev NAME\<close> and
  \<open>ip link set dev NAME up\<close> succeed. Then the device has this name and the descriptor of the device file, and the system calls
  were exactly these, in this order. The datagram socket is closed on every path; the descriptor of \<open>/dev/net/tun\<close> is open at the
  end on every path, so that it is lost when an error is returned after it was opened.
\<close>

theorem linux_setup:
  "\<exists>name k l. take 16 (snd (le_tunsetiff env (replicate 16 0 @ [ucast (le_flags env), ucast (drop_bit 8 (le_flags env))] @ replicate 62 0))) =
        replicate k 0 @ name @ replicate l 0 \<and> (name = [] \<or> hd name \<noteq> 0 \<and> last name \<noteq> 0) \<and>
    (let setiff = replicate 16 0 @ [ucast (le_flags env), ucast (drop_bit 8 (le_flags env))] @ replicate 62 0;
         setmtu = name @ replicate (16 - length name) 0 @ [0x8c, 5, 0, 0] @ replicate 60 0;
         address = [''ip'', ''addr'', ''add'', addr @ ''/16'', ''dev'', text_of name];
         up = [''ip'', ''link'', ''set'', ''dev'', text_of name, ''up''] in
     (\<forall>dev ops. NewTUN_linux env addr = (Inr dev, ops) \<longleftrightarrow>
        (\<exists>fd sock. le_open env = Inr fd \<and> fst (le_tunsetiff env setiff) = 0 \<and> le_socket env = Inr sock \<and> le_setmtu env setmtu = 0 \<and>
           snd (le_exec env address) = None \<and> snd (le_exec env up) = None \<and> dev = \<lparr>dev_name = text_of name, dev_file = fd\<rparr> \<and>
           ops = [OpenFd fd, Ioctl fd ''TUNSETIFF'' setiff, OpenFd sock, Ioctl sock ''SIOCSIFMTU'' setmtu, CloseFd sock, Exec address, Exec up]))) \<and>
    open_fds (snd (NewTUN_linux env addr)) [] = (case le_open env of Inl e \<Rightarrow> [] | Inr fd \<Rightarrow> [fd])"
proof -
  let ?ifr = "snd (le_tunsetiff env (linux_setiff (le_flags env)))"
  define name where "name = trim_nul (take 16 ?ifr)"
  obtain k l where split: "take 16 ?ifr = replicate k 0 @ name @ replicate l 0" "name = [] \<or> hd name \<noteq> 0 \<and> last name \<noteq> 0"
    using trim_nul_split [of "take 16 ?ifr"] by (auto simp: name_def)
  have "length name \<le> 16" using length_trim_nul [of "take 16 ?ifr"] by (simp add: name_def)
  note mtu = linux_mtu_request_bytes [OF this]
  have "NewTUN_linux env addr = (Inr dev, ops) \<longleftrightarrow>
      (\<exists>fd sock. le_open env = Inr fd \<and> fst (le_tunsetiff env (linux_setiff (le_flags env))) = 0 \<and> le_socket env = Inr sock \<and>
         le_setmtu env (linux_mtu_request name) = 0 \<and> snd (le_exec env (linux_addr_command addr (text_of name))) = None \<and>
         snd (le_exec env (linux_up_command (text_of name))) = None \<and> dev = \<lparr>dev_name = text_of name, dev_file = fd\<rparr> \<and>
         ops = [OpenFd fd, Ioctl fd ''TUNSETIFF'' (linux_setiff (le_flags env)), OpenFd sock, Ioctl sock ''SIOCSIFMTU'' (linux_mtu_request name),
           CloseFd sock, Exec (linux_addr_command addr (text_of name)), Exec (linux_up_command (text_of name))])" for dev ops
    by (auto simp: linux_defs IFNAMSIZ_def name_def split: sum.splits prod.splits option.splits)
  note this [unfolded mtu linux_setiff_bytes linux_addr_command_def linux_up_command_def]
  then show ?thesis using split linux_fds [of env addr] unfolding linux_setiff_bytes Let_def by blast
qed

section \<open>Reading and writing\<close>

text \<open>
  \<open>os.File\<close> on a device without packet information: a write hands over the packet, a read gets one packet, cut to the buffer; a
  read of no bytes is reported as \<open>io.EOF\<close>.
\<close>

definition linux_Write :: "nat generalDevice \<Rightarrow> bytes \<Rightarrow> (bytes \<times> nat generalDevice) option" where
  "linux_Write d p = Some (p, d)"

definition linux_Read :: "nat generalDevice \<Rightarrow> bytes \<Rightarrow> bytes \<Rightarrow> bytes option \<times> nat generalDevice" where
  "linux_Read d buffer f =
     (if f = [] then None
      else case go_slice (go_copy buffer f) (int (min (length f) (length buffer))) of Ret p \<Rightarrow> Some p | _ \<Rightarrow> None, d)"

interpretation linux_dev: packet_device linux_Write linux_Read "\<lambda>_. True" "\<lambda>p. p \<noteq> []"
  by unfold_locales (auto simp: linux_Write_def linux_Read_def go_slice_def take_go_copy min_def)

end
