(* ===== verification/Tun_Darwin.thy ===== *)
theory Tun_Darwin
  imports Tun_Linux Go_Text
begin

unbundle bit_operations_syntax

text \<open>
  The device on macOS (\<open>node/tun/tun_darwin.go\<close>): \<open>NewTUN\<close> on a kernel control socket, and \<open>tunReadCloser\<close>,
  which hides the four bytes of packet information that the system puts in front of every packet. The two
  buffers of \<open>tunReadCloser\<close> are reused from call to call, so their contents are part of the state.
  The system and the file below are parameters. Lemmas: the first three bytes of the write buffer are
  always zero, and a packet written by one device and read by another is unchanged.
\<close>

section \<open>tunReadCloser\<close>

text \<open>The backing arrays of the two slices; the slices themselves are cut anew in every call.\<close>

record tunReadCloser =
  rBuf :: bytes
  wBuf :: bytes

definition grow :: "bytes \<Rightarrow> nat \<Rightarrow> bytes" where
  "grow buf need = (if length buf < need then replicate need 0 else buf)"

text \<open>\<open>f\<close> is the read of the file: the number of bytes, the contents of the buffer afterwards and the error.\<close>

definition darwin_Read :: "(bytes \<Rightarrow> int \<times> bytes \<times> io_error option) \<Rightarrow> bytes \<Rightarrow> tunReadCloser \<Rightarrow>
    int \<times> io_error option \<times> bytes \<times> tunReadCloser" where
  "darwin_Read f to t =
     (let need = length to + 4; arr = grow (rBuf t) need;
          (n, buf, err) = f (take need arr)
      in (n - 4, err, go_copy to (drop 4 buf), t\<lparr>rBuf := buf @ drop need arr\<rparr>))"

definition AF_INET :: byte where "AF_INET = 2"
definition AF_INET6 :: byte where "AF_INET6 = 30"

definition darwin_family :: "bytes \<Rightarrow> byte option" where
  "darwin_family from =
     (let ipVer = drop_bit 4 (from ! 0)
      in if ipVer = 4 then Some AF_INET else if ipVer = 6 then Some AF_INET6 else None)"

text \<open>The result holds the bytes given to the file's \<open>Write\<close>, if it was called; \<open>f\<close> is its result.\<close>

definition darwin_Write :: "(bytes \<Rightarrow> int \<times> io_error option) \<Rightarrow> bytes \<Rightarrow> tunReadCloser \<Rightarrow>
    int \<times> io_error option \<times> bytes option \<times> tunReadCloser" where
  "darwin_Write f from t =
     (if from = [] then (0, Some EIO, None, t)
      else
        let need = length from + 4; arr = grow (wBuf t) need
        in case darwin_family from of
             None \<Rightarrow> (0, Some (IoError ''Unable to determine IP version from packet''), None, t\<lparr>wBuf := arr\<rparr>)
           | Some af \<Rightarrow>
               let buf = take 4 (arr[3 := af]) @ from; (n, err) = f buf
               in (n - 4, err, Some buf, t\<lparr>wBuf := buf @ drop need arr\<rparr>))"

definition darwin_Close :: "string option \<Rightarrow> string option" where
  "darwin_Close f_Close = f_Close"

definition darwin_ok :: "tunReadCloser \<Rightarrow> bool" where
  "darwin_ok t \<longleftrightarrow> (wBuf t = [] \<or> 4 \<le> length (wBuf t) \<and> take 3 (wBuf t) = [0, 0, 0])"

lemma take4: "4 \<le> length xs \<Longrightarrow> take 4 xs = [xs ! 0, xs ! 1, xs ! 2, xs ! 3]"
  by (intro nth_equalityI) (auto simp: nth_Cons numeral_eq_Suc less_Suc_eq split: nat.splits)

lemma take3: "4 \<le> length xs \<Longrightarrow> take 3 xs = [xs ! 0, xs ! 1, xs ! 2]"
  by (intro nth_equalityI) (auto simp: nth_Cons numeral_eq_Suc less_Suc_eq split: nat.splits)

lemma darwin_header:
  assumes "darwin_ok t" and "need \<ge> 4"
  shows "take 4 ((grow (wBuf t) need)[3 := af]) = [0, 0, 0, af]" and "take 3 (grow (wBuf t) need) = [0, 0, 0]"
    and "need \<le> length (grow (wBuf t) need)"
proof -
  have "4 \<le> length (grow (wBuf t) need) \<and> take 3 (grow (wBuf t) need) = [0, 0, 0]"
    using assms by (auto simp: darwin_ok_def grow_def take3)
  then show "take 4 ((grow (wBuf t) need)[3 := af]) = [0, 0, 0, af]" "take 3 (grow (wBuf t) need) = [0, 0, 0]"
    by (auto simp: take4 take3)
  show "need \<le> length (grow (wBuf t) need)" by (simp add: grow_def)
qed

text \<open>What \<open>Write\<close> gives to the file, and that it keeps the write buffer's header bytes zero.\<close>

lemma darwin_Write_frame:
  assumes "darwin_ok t" and "from \<noteq> []" and "darwin_family from = Some af"
  shows "\<exists>t'. darwin_Write f from t = (fst (f ([0, 0, 0, af] @ from)) - 4, snd (f ([0, 0, 0, af] @ from)), Some ([0, 0, 0, af] @ from), t') \<and>
     darwin_ok t'"
  using assms darwin_header(1) [OF assms(1), of "length from + 4" af]
  by (auto simp: darwin_Write_def Let_def split_beta darwin_ok_def)

lemma darwin_Write_refused:
  assumes "darwin_ok t" and "from = [] \<or> darwin_family from = None"
  shows "\<exists>e t'. darwin_Write f from t = (0, Some e, None, t') \<and> darwin_ok t'"
  using assms darwin_header(2,3) [OF assms(1), of "length from + 4"]
  by (auto simp: darwin_Write_def Let_def darwin_ok_def)

lemma darwin_Read_frame:
  assumes "length h = 4" and "length p \<le> length to" and "f (take (length to + 4) (grow (rBuf t) (length to + 4))) = (int (length p) + 4, (h @ p) @ rest, None)"
  shows "\<exists>to' t'. darwin_Read f to t = (int (length p), None, to', t') \<and> take (length p) to' = p \<and> length to' = length to"
  using assms by (auto simp: darwin_Read_def Let_def go_copy_def)

section \<open>The kernel control socket\<close>

text \<open>
  The requests that \<open>NewTUN\<close> hands to the kernel as numbers and as memory. The bytes of a 32-bit field are in little-endian
  order, as on every machine with macOS.
\<close>

definition appleUTUNCtl :: string where
  "appleUTUNCtl = ''com.apple.net.utun_control''"

definition appleCTLIOCGINFO :: "32 word" where
  "appleCTLIOCGINFO = (0x40000000 OR 0x80000000) OR push_bit 16 (100 AND 0x1fff) OR push_bit 8 (of_nat (of_char CHR ''N'')) OR 3"

definition appleTUNSIFMODE :: "32 word" where
  "appleTUNSIFMODE = 0x80000000 OR push_bit 16 (4 AND 0x1fff) OR push_bit 8 (of_nat (of_char CHR ''t'')) OR 94"

definition le16 :: "16 word \<Rightarrow> bytes" where
  "le16 w = [ucast w, ucast (drop_bit 8 w)]"

definition le32 :: "32 word \<Rightarrow> bytes" where
  "le32 w = [ucast w, ucast (drop_bit 8 w), ucast (drop_bit 16 w), ucast (drop_bit 24 w)]"

text \<open>The anonymous structure \<open>ctlInfo\<close> before the request: \<open>copy\<close> puts the name into a zeroed array of 96 bytes.\<close>

definition ctl_info :: bytes where
  "ctl_info = le32 0 @ go_copy (replicate 96 0) (map (\<lambda>c. of_nat (of_char c)) appleUTUNCtl)"

record sockaddrCtl =
  scLen :: byte
  scFamily :: byte
  ssSysaddr :: "16 word"
  scID :: "32 word"
  scUnit :: "32 word"
  scReserved :: "32 word list"

definition sockaddrCtlSize :: nat where
  "sockaddrCtlSize = 32"

definition AF_SYSTEM :: byte where
  "AF_SYSTEM = 32"

definition connect_addr :: "32 word \<Rightarrow> sockaddrCtl" where
  "connect_addr ctlID =
     \<lparr>scLen = of_nat sockaddrCtlSize, scFamily = AF_SYSTEM, ssSysaddr = 2, scID = ctlID, scUnit = 0, scReserved = replicate 5 0\<rparr>"

definition sockaddr_bytes :: "sockaddrCtl \<Rightarrow> bytes" where
  "sockaddr_bytes a = [scLen a, scFamily a] @ le16 (ssSysaddr a) @ le32 (scID a) @ le32 (scUnit a) @ concat (map le32 (scReserved a))"

text \<open>
  The length that the request number carries is that of the memory the kernel fills, and the address is as long as
  \<open>connect\<close> and its own first byte say.
\<close>

lemma ctl_request_fits: "unat (drop_bit 16 appleCTLIOCGINFO AND 0x1fff) = length ctl_info"
proof -
  have "drop_bit 16 appleCTLIOCGINFO AND 0x1fff = 100" unfolding appleCTLIOCGINFO_def by code_simp
  then show ?thesis by (simp add: ctl_info_def le32_def go_copy_def appleUTUNCtl_def)
qed

lemma sockaddr_fits:
  "length (sockaddr_bytes (connect_addr ctlID)) = sockaddrCtlSize"
  "unat (sockaddr_bytes (connect_addr ctlID) ! 0) = sockaddrCtlSize"
proof -
  show "length (sockaddr_bytes (connect_addr ctlID)) = sockaddrCtlSize"
    by (simp add: sockaddr_bytes_def connect_addr_def le16_def le32_def sockaddrCtlSize_def eval_nat_numeral)
  show "unat (sockaddr_bytes (connect_addr ctlID) ! 0) = sockaddrCtlSize"
    by (simp add: sockaddr_bytes_def connect_addr_def sockaddrCtlSize_def)
qed

section \<open>NewTUN\<close>

text \<open>
  The system: \<open>de_ctlinfo\<close> answers a request with its number and memory by an error number and the control's id, \<open>de_connect\<close> a
  \<open>connect\<close> with the bytes of the address; \<open>de_getname\<close> is the result of \<open>getsockopt(UTUN_OPT_IFNAME)\<close>: an error number, or
  the 16 bytes of the name with the length the kernel reports; \<open>de_SetNonblock\<close> is \<open>syscall.SetNonblock\<close>, and
  \<open>de_go1_11\<close> says whether the build is by Go 1.11 or later; \<open>de_setmtu\<close> is the result of the MTU request with its memory.
\<close>

record darwin_env =
  de_socket :: "string + nat"
  de_ctlinfo :: "32 word \<Rightarrow> bytes \<Rightarrow> nat \<times> 32 word"
  de_connect :: "bytes \<Rightarrow> nat"
  de_getname :: "nat + bytes \<times> nat"
  de_go1_11 :: bool
  de_SetNonblock :: "string option"
  de_mtu_socket :: "string + nat"
  de_setmtu :: "bytes \<Rightarrow> string option"
  de_exec :: "string list \<Rightarrow> string \<times> string option"

text \<open>The two files for \<open>setNonBlock\<close>, chosen by build constraints.\<close>

definition setNonBlock :: "darwin_env \<Rightarrow> string option" where
  "setNonBlock env = de_SetNonblock env"

definition setNonBlock_legacy :: "darwin_env \<Rightarrow> string option" where
  "setNonBlock_legacy env = None"

text \<open>The structure \<open>unix.IfreqMTU\<close>: a name of 16 bytes and the MTU.\<close>

definition darwin_mtu_request :: "bytes \<Rightarrow> bytes" where
  "darwin_mtu_request name = go_copy (replicate 16 0) name @ le32 (of_int DefaultMTU)"

definition darwin_setmtu :: "darwin_env \<Rightarrow> bytes \<Rightarrow> tun_error option \<times> sysop list" where
  "darwin_setmtu env name =
     (case de_mtu_socket env of
        Inl e \<Rightarrow> (Some (SysError e), [])
      | Inr fd \<Rightarrow>
          let ifr = darwin_mtu_request name
          in (case de_setmtu env ifr of
                None \<Rightarrow> None
              | Some e \<Rightarrow> Some (ErrorOutput (''failed to set MTU on '' @ text_of name) e),
              [OpenFd fd, Ioctl fd ''SIOCSIFMTU'' ifr, CloseFd fd]))"

definition darwin_addr_command :: "string \<Rightarrow> string \<Rightarrow> string list" where
  "darwin_addr_command addr name = [''ifconfig'', name, ''inet'', addr, addr, ''up'', ''netmask'', ''255.255.0.0'']"

text \<open>The masked address is an IPv4 address or \<open>nil\<close>, so that its text is always defined.\<close>

definition darwin_route_command :: "string \<Rightarrow> string list" where
  "darwin_route_command addr =
     [''route'', ''-n'', ''add'', ''-net'', the (IP_String (IP_Mask (ParseIP addr) [255, 255, 0, 0])) @ ''/16'', addr]"

definition darwin_configure :: "darwin_env \<Rightarrow> string \<Rightarrow> bytes \<Rightarrow> (tun_error + tunReadCloser generalDevice) \<times> sysop list" where
  "darwin_configure env addr name =
     (let ifconfig = darwin_addr_command addr (text_of name); route = darwin_route_command addr
      in case darwin_setmtu env name of
           (Some e, ops) \<Rightarrow> (Inl e, ops)
         | (None, ops) \<Rightarrow>
             (case de_exec env ifconfig of
                (out, Some e) \<Rightarrow> (Inl (ErrorOutput e out), ops @ [Exec ifconfig])
              | (_, None) \<Rightarrow>
                  (case de_exec env route of
                     (out, Some e) \<Rightarrow> (Inl (ErrorOutput e out), ops @ [Exec ifconfig, Exec route])
                   | (_, None) \<Rightarrow>
                       (Inr \<lparr>dev_name = text_of name, dev_file = \<lparr>rBuf = [], wBuf = []\<rparr>\<rparr>,
                        ops @ [Exec ifconfig, Exec route]))))"

text \<open>A reported length of 0, or of more than 17, makes the slice of the name panic.\<close>

definition NewTUN_darwin :: "darwin_env \<Rightarrow> string \<Rightarrow> ((tun_error + tunReadCloser generalDevice) \<times> sysop list) go" where
  "NewTUN_darwin env addr =
     (case de_socket env of
        Inl e \<Rightarrow> Ret (Inl (SysError e), [])
      | Inr fd \<Rightarrow>
          (case de_ctlinfo env appleCTLIOCGINFO ctl_info of (errno, ctlID) \<Rightarrow>
             let errno' = de_connect env (sockaddr_bytes (connect_addr ctlID))
             in if errno \<noteq> 0 then Ret (Inl (Errno errno), [OpenFd fd])
             else if errno' \<noteq> 0 then Ret (Inl (Errno errno'), [OpenFd fd])
             else (case de_getname env of
                     Inl errno \<Rightarrow> Ret (Inl (Errno errno), [OpenFd fd])
                   | Inr (ifName, ifNameSize) \<Rightarrow>
                       if (if de_go1_11 env then setNonBlock env else setNonBlock_legacy env) \<noteq> None then Ret (Inl (SysError ''setting non-blocking error''), [OpenFd fd])
                       else go_bind (if ifNameSize = 0 then Panic ''slice bounds out of range''
                                     else go_slice ifName (int ifNameSize - 1)) (\<lambda>name.
                              let (r, ops) = darwin_configure env addr name in Ret (r, OpenFd fd # ops)))))"


section \<open>What the set-up does\<close>

text \<open>The memory that is handed to the kernel, written out.\<close>

lemma appleCTLIOCGINFO_number: "appleCTLIOCGINFO = 0xc0644e03"
  unfolding appleCTLIOCGINFO_def by code_simp

lemma ctl_info_bytes: "ctl_info = [0, 0, 0, 0] @ map of_char ''com.apple.net.utun_control'' @ replicate 70 0"
  by (simp add: ctl_info_def le32_def go_copy_def appleUTUNCtl_def)

lemma connect_addr_bytes:
  "sockaddr_bytes (connect_addr i) =
     [32, 32, 2, 0, ucast i, ucast (drop_bit 8 i), ucast (drop_bit 16 i), ucast (drop_bit 24 i)] @ replicate 24 0"
proof -
  have zeros: "replicate 5 (0 :: 32 word) = [0, 0, 0, 0, 0]"
    "replicate 24 (0 :: byte) = [0, 0, 0, 0, 0, 0, 0, 0, 0, 0, 0, 0, 0, 0, 0, 0, 0, 0, 0, 0, 0, 0, 0, 0]" by code_simp+
  show ?thesis by (simp add: sockaddr_bytes_def connect_addr_def le16_def le32_def sockaddrCtlSize_def AF_SYSTEM_def zeros)
qed

lemma darwin_mtu_request_bytes: "darwin_mtu_request name = take 16 (name @ replicate 16 0) @ [0x8c, 5, 0, 0]"
  by (simp add: darwin_mtu_request_def go_copy_def le32_def DefaultMTU_def min_def)

lemma darwin_route_command_dotted:
  "darwin_route_command (dotted [a, b, c, d]) =
     [''route'', ''-n'', ''add'', ''-net'', dotted [a, b, 0, 0] @ ''/16'', dotted [a, b, c, d]]"
  by (simp add: darwin_route_command_def ParseIP_dotted IP_Mask_mapped IP_Mask_16 IP_String_def)

lemma darwin_configure_ops: "open_fds (snd (darwin_configure env addr name)) fds = fds"
  by (auto simp: darwin_configure_def darwin_setmtu_def Let_def split: sum.splits prod.splits option.splits)

lemma darwin_configure_Inr_iff:
  "darwin_configure env addr name = (Inr dev, ops) \<longleftrightarrow>
     (\<exists>sock. de_mtu_socket env = Inr sock \<and> de_setmtu env (darwin_mtu_request name) = None \<and>
        snd (de_exec env (darwin_addr_command addr (text_of name))) = None \<and> snd (de_exec env (darwin_route_command addr)) = None \<and>
        dev = \<lparr>dev_name = text_of name, dev_file = \<lparr>rBuf = [], wBuf = []\<rparr>\<rparr> \<and>
        ops = [OpenFd sock, Ioctl sock ''SIOCSIFMTU'' (darwin_mtu_request name), CloseFd sock,
          Exec (darwin_addr_command addr (text_of name)), Exec (darwin_route_command addr)])"
  by (auto simp: darwin_configure_def darwin_setmtu_def Let_def split: sum.splits prod.splits option.splits)

definition non_blocking :: "darwin_env \<Rightarrow> bool" where
  "non_blocking env \<longleftrightarrow> (if de_go1_11 env then de_SetNonblock env = None else True)"

lemma NewTUN_darwin_Ret_iff:
  "NewTUN_darwin env addr = Ret (Inr dev, ops) \<longleftrightarrow>
     (\<exists>fd i ifName size ops'. de_socket env = Inr fd \<and> de_ctlinfo env appleCTLIOCGINFO ctl_info = (0, i) \<and>
        de_connect env (sockaddr_bytes (connect_addr i)) = 0 \<and> de_getname env = Inr (ifName, size) \<and> non_blocking env \<and>
        0 < size \<and> size \<le> Suc (length ifName) \<and> darwin_configure env addr (take (size - 1) ifName) = (Inr dev, ops') \<and> ops = OpenFd fd # ops')"
proof -
  have "nat (int size - 1) = size - 1" for size by simp
  then show ?thesis
    by (auto simp: NewTUN_darwin_def Let_def go_bind_Ret_iff go_slice_def non_blocking_def setNonBlock_def setNonBlock_legacy_def
        split: sum.splits prod.splits if_splits)
qed

lemma darwin_fds:
  "NewTUN_darwin env addr = Ret (r, ops) \<Longrightarrow> open_fds ops [] = (case de_socket env of Inl e \<Rightarrow> [] | Inr fd \<Rightarrow> [fd])"
  by (auto simp: NewTUN_darwin_def Let_def go_bind_Ret_iff darwin_configure_ops split_beta split: sum.splits if_splits)

text \<open>
  C31: set-up of the device on macOS for an IPv4 address \<open>A.B.C.D\<close>. \<open>NewTUN\<close> returns a device exactly when the control socket opens, the kernel
  knows the control \<open>com.apple.net.utun_control\<close>, the socket connects to the control with the id the kernel gave, the
  kernel reports a name of the interface and its length with the final zero byte, the socket can be made non-blocking, the MTU of 1420 is
  accepted for this name, and the two commands \<open>ifconfig NAME inet A.B.C.D A.B.C.D up netmask 255.255.0.0\<close> and
  \<open>route -n add -net A.B.0.0/16 A.B.C.D\<close> succeed. Then the device has the reported name without its final byte, and exactly these
  descriptors were opened and closed and these commands run, in this order. The descriptor of the control socket is the only one open
  at the end on every path that returns, so that it is lost when an error is returned after it was opened.
\<close>

theorem darwin_setup:
  "(NewTUN_darwin env (dotted [a, b, c, d]) = Ret (Inr dev, ops) \<longleftrightarrow>
     (\<exists>fd i ifName size name sock. de_socket env = Inr fd \<and>
        de_ctlinfo env 0xc0644e03 ([0, 0, 0, 0] @ map of_char ''com.apple.net.utun_control'' @ replicate 70 0) = (0, i) \<and>
        de_connect env ([32, 32, 2, 0, ucast i, ucast (drop_bit 8 i), ucast (drop_bit 16 i), ucast (drop_bit 24 i)] @ replicate 24 0) = 0 \<and>
        de_getname env = Inr (ifName, size) \<and> 0 < size \<and> size \<le> Suc (length ifName) \<and> name = take (size - 1) ifName \<and>
        (if de_go1_11 env then de_SetNonblock env = None else True) \<and>
        de_mtu_socket env = Inr sock \<and> de_setmtu env (take 16 (name @ replicate 16 0) @ [0x8c, 5, 0, 0]) = None \<and>
        snd (de_exec env [''ifconfig'', text_of name, ''inet'', dotted [a, b, c, d], dotted [a, b, c, d], ''up'', ''netmask'', ''255.255.0.0'']) = None \<and>
        snd (de_exec env [''route'', ''-n'', ''add'', ''-net'', dotted [a, b, 0, 0] @ ''/16'', dotted [a, b, c, d]]) = None \<and>
        dev = \<lparr>dev_name = text_of name, dev_file = \<lparr>rBuf = [], wBuf = []\<rparr>\<rparr> \<and>
        ops = [OpenFd fd, OpenFd sock, Ioctl sock ''SIOCSIFMTU'' (take 16 (name @ replicate 16 0) @ [0x8c, 5, 0, 0]), CloseFd sock,
          Exec [''ifconfig'', text_of name, ''inet'', dotted [a, b, c, d], dotted [a, b, c, d], ''up'', ''netmask'', ''255.255.0.0''],
          Exec [''route'', ''-n'', ''add'', ''-net'', dotted [a, b, 0, 0] @ ''/16'', dotted [a, b, c, d]]])) \<and>
   (case NewTUN_darwin env addr of
      Ret (r, ops') \<Rightarrow> open_fds ops' [] = (case de_socket env of Inl e \<Rightarrow> [] | Inr fd \<Rightarrow> [fd])
    | _ \<Rightarrow> True)"
proof -
  note lits = appleCTLIOCGINFO_number ctl_info_bytes connect_addr_bytes darwin_mtu_request_bytes darwin_route_command_dotted
    darwin_addr_command_def non_blocking_def
  have "case NewTUN_darwin env addr of
      Ret (r, ops') \<Rightarrow> open_fds ops' [] = (case de_socket env of Inl e \<Rightarrow> [] | Inr fd \<Rightarrow> [fd])
    | _ \<Rightarrow> True"
    by (auto simp: darwin_fds split: go.splits prod.splits)
  then show ?thesis unfolding NewTUN_darwin_Ret_iff darwin_configure_Inr_iff lits by blast
qed

section \<open>Packets through two devices\<close>

text \<open>
  The operations of \<open>tunReadCloser\<close> on a file that takes every frame and delivers one frame per read, cut to
  the buffer it is given; \<open>os.File\<close> reports a read of no bytes as \<open>io.EOF\<close>.
\<close>

definition frame_read :: "bytes \<Rightarrow> bytes \<Rightarrow> int \<times> bytes \<times> io_error option" where
  "frame_read frame buf =
     (int (min (length frame) (length buf)), go_copy buf frame, if frame = [] \<and> buf \<noteq> [] then Some EOF else None)"

definition darwin_send :: "tunReadCloser \<Rightarrow> bytes \<Rightarrow> (bytes \<times> tunReadCloser) option" where
  "darwin_send t p =
     (case darwin_Write (\<lambda>b. (int (length b), None)) p t of
        (_, _, None, _) \<Rightarrow> None
      | (_, _, Some frame, t') \<Rightarrow> Some (frame, t'))"

definition darwin_receive :: "tunReadCloser \<Rightarrow> bytes \<Rightarrow> bytes \<Rightarrow> bytes option \<times> tunReadCloser" where
  "darwin_receive t buffer frame =
     (case darwin_Read (frame_read frame) buffer t of
        (c, err, buffer', t') \<Rightarrow>
          (if err \<noteq> None then None else case go_slice buffer' c of Ret p \<Rightarrow> Some p | _ \<Rightarrow> None, t'))"

definition is_ip :: "bytes \<Rightarrow> bool" where
  "is_ip p \<longleftrightarrow> p \<noteq> [] \<and> darwin_family p \<noteq> None"

lemma darwin_receive_frame:
  assumes "length h = 4" and "length p \<le> length buffer"
  shows "fst (darwin_receive t buffer (h @ p)) = Some p"
proof -
  let ?b = "take (length buffer + 4) (grow (rBuf t) (length buffer + 4))"
  have len: "length ?b = length buffer + 4" by (simp add: grow_def)
  then have "frame_read (h @ p) ?b = (int (length p) + 4, (h @ p) @ drop (length (h @ p)) ?b, None)"
    using assms by (auto simp: frame_read_def go_copy_def)
  from darwin_Read_frame [where f = "frame_read (h @ p)" and t = t, OF assms this] obtain to' t' where
    "darwin_Read (frame_read (h @ p)) buffer t = (int (length p), None, to', t')" "take (length p) to' = p" "length to' = length buffer"
    by blast
  then show ?thesis using assms(2) by (simp add: darwin_receive_def go_slice_def)
qed

interpretation darwin_dev: packet_device darwin_send darwin_receive darwin_ok is_ip
proof
  fix t p assume t: "darwin_ok t" and p: "is_ip p"
  then obtain af where af: "p \<noteq> []" "darwin_family p = Some af" by (auto simp: is_ip_def)
  note frame = darwin_Write_frame [OF t af, of "\<lambda>b. (int (length b), None)"]
  show "\<exists>f d'. darwin_send t p = Some (f, d') \<and> darwin_ok d'" using frame by (auto simp: darwin_send_def)
  fix f d' and buffer :: bytes and e
  assume w: "darwin_send t p = Some (f, d')" and len: "length p \<le> length buffer"
  have "f = [0, 0, 0, af] @ p" using frame w by (auto simp: darwin_send_def)
  then show "fst (darwin_receive e buffer f) = Some p" using darwin_receive_frame [of "[0, 0, 0, af]" p buffer e] len by simp
qed

text \<open>
  C30: the packet-information shim on macOS is transparent. Any sequence of IPv4 and IPv6 packets that is written
  to one device, whatever its reused buffers hold, and whose frames are then read by another device into a
  buffer large enough, arrives unchanged and in order; the write buffer keeps its zero header bytes.
\<close>

theorem darwin_stream_round_trip:
  assumes "darwin_ok t" and "\<forall>p \<in> set ps. is_ip p \<and> length p \<le> length buffer"
  shows "\<exists>fs t'. write_all darwin_send t ps = Some (fs, t') \<and> darwin_ok t' \<and>
     fst (read_all darwin_receive e buffer fs) = map Some ps"
  using assms by (rule darwin_dev.stream_round_trip)

theorem darwin_stream_round_trip_witness:
  "\<exists>fs t'. write_all darwin_send \<lparr>rBuf = [], wBuf = [0, 0, 0, 30, 7]\<rparr> [[0x45, 1], [0x60, 2, 3]] = Some (fs, t') \<and> darwin_ok t' \<and>
     fst (read_all darwin_receive \<lparr>rBuf = [9], wBuf = []\<rparr> [0, 0, 0, 0] fs) = [Some [0x45, 1], Some [0x60, 2, 3]]"
  using darwin_stream_round_trip [of "\<lparr>rBuf = [], wBuf = [0, 0, 0, 30, 7]\<rparr>" "[[0x45, 1], [0x60, 2, 3]]" "[0, 0, 0, 0]" "\<lparr>rBuf = [9], wBuf = []\<rparr>"]
  by (simp add: darwin_ok_def is_ip_def darwin_family_def)


end
