(* ===== verification/Wintun.thy ===== *)
theory Wintun
  imports Tun
begin

text \<open>
  The Go side of the Wintun driver: the session (\<open>node/tun/wintun/session_windows.go\<close>), pools and adapters
  (\<open>wintun_windows.go\<close>). The driver's DLL is outside the repository: what it answers is part of the state
  \<open>world\<close>, a list of answers to the calls to come, and every call is recorded. An empty list means that
  the driver has not answered yet, and the caller blocks. A function of the DLL that cannot be found makes the
  call panic, as \<open>lazyProc.Addr\<close> does. Clock readings, the \<open>close\<close> flag and the error channel of a device,
  which other goroutines and the system set, are functions of the number of observations made before.
\<close>

section \<open>Calls into the DLL\<close>

datatype winerr = ERROR_NO_MORE_ITEMS | ERROR_HANDLE_EOF | ERROR_INVALID_DATA | ERROR_BUFFER_OVERFLOW | OtherErrno nat

text \<open>
  An answer: the return value, the error number, the 32- or 64-bit value written through a pointer argument and
  the bytes that a returned or passed pointer leads to.
\<close>

record wt_answer =
  wt_r0 :: "64 word"
  wt_e1 :: winerr
  wt_out :: "32 word"
  wt_out64 :: "64 word"
  wt_data :: bytes

record world =
  wk_answers :: "wt_answer list"
  wk_missing :: "string \<Rightarrow> string option"  \<comment> \<open>the error of \<open>Find\<close> for a function of the DLL\<close>
  wk_clock :: "nat \<Rightarrow> 64 word"
  wk_closed :: "nat \<Rightarrow> bool"
  wk_errors :: "nat \<Rightarrow> io_error option"
  wk_tick :: nat
  wk_trace :: "(string \<times> 64 word list) list"
  wk_sent :: "bytes list"  \<comment> \<open>packets handed over by \<open>WintunSendPacket\<close>\<close>

definition dll_call :: "string \<Rightarrow> 64 word list \<Rightarrow> world \<Rightarrow> wt_answer go \<times> world" where
  "dll_call name args w =
     (case wk_missing w name of
        Some e \<Rightarrow> (Panic e, w)
      | None \<Rightarrow>
          (case wk_answers w of
             [] \<Rightarrow> (Block, w)
           | a # as \<Rightarrow> (Ret a, w\<lparr>wk_answers := as, wk_tick := Suc (wk_tick w), wk_trace := wk_trace w @ [(name, args)]\<rparr>)))"

text \<open>Continue with the answer; a panic or a wait ends the computation.\<close>

definition call_then :: "string \<Rightarrow> 64 word list \<Rightarrow> world \<Rightarrow> (wt_answer \<Rightarrow> world \<Rightarrow> 'a go \<times> world) \<Rightarrow> 'a go \<times> world" where
  "call_then name args w k =
     (case dll_call name args w of (Ret a, w') \<Rightarrow> k a w' | (Panic e, w') \<Rightarrow> (Panic e, w') | (Block, w') \<Rightarrow> (Block, w'))"

definition nanotime :: "world \<Rightarrow> 64 word \<times> world" where
  "nanotime w = (wk_clock w (wk_tick w), w\<lparr>wk_tick := Suc (wk_tick w)\<rparr>)"

section \<open>Sessions\<close>

record Session =
  ss_handle :: "64 word"

record Adapter =
  ad_handle :: "64 word"

definition StartSession :: "Adapter \<Rightarrow> 32 word \<Rightarrow> world \<Rightarrow> (winerr + Session) go \<times> world" where
  "StartSession wt capacity w =
     call_then ''WintunStartSession'' [ad_handle wt, ucast capacity] w (\<lambda>a w.
       (Ret (if wt_r0 a = 0 then Inl (wt_e1 a) else Inr \<lparr>ss_handle = wt_r0 a\<rparr>), w))"

text \<open>\<open>End\<close> has a value receiver: its assignment to \<open>handle\<close> changes a copy, so the session keeps its handle.\<close>

definition End :: "Session \<Rightarrow> world \<Rightarrow> unit go \<times> world" where
  "End session w = call_then ''WintunEndSession'' [ss_handle session] w (\<lambda>a w. (Ret (), w))"

definition ReadWaitEvent :: "Session \<Rightarrow> world \<Rightarrow> (64 word) go \<times> world" where
  "ReadWaitEvent session w = call_then ''WintunGetReadWaitEvent'' [ss_handle session] w (\<lambda>a w. (Ret (wt_r0 a), w))"

text \<open>A received packet: its address and the bytes of the slice that \<open>unsafeSlice\<close> makes.\<close>

definition ReceivePacket :: "Session \<Rightarrow> world \<Rightarrow> (winerr + 64 word \<times> bytes) go \<times> world" where
  "ReceivePacket session w =
     call_then ''WintunReceivePacket'' [ss_handle session] w (\<lambda>a w.
       (Ret (if wt_r0 a = 0 then Inl (wt_e1 a) else Inr (wt_r0 a, take (unat (wt_out a)) (wt_data a))), w))"

text \<open>\<open>&packet[0]\<close> panics on an empty slice.\<close>

definition ReleaseReceivePacket :: "Session \<Rightarrow> 64 word \<times> bytes \<Rightarrow> world \<Rightarrow> unit go \<times> world" where
  "ReleaseReceivePacket session packet w =
     (if snd packet = [] then (Panic ''index out of range'', w)
      else call_then ''WintunReleaseReceivePacket'' [ss_handle session, fst packet] w (\<lambda>a w. (Ret (), w)))"

definition AllocateSendPacket :: "Session \<Rightarrow> nat \<Rightarrow> world \<Rightarrow> (winerr + 64 word \<times> bytes) go \<times> world" where
  "AllocateSendPacket session packetSize w =
     call_then ''WintunAllocateSendPacket'' [ss_handle session, of_nat packetSize] w (\<lambda>a w.
       (Ret (if wt_r0 a = 0 then Inl (wt_e1 a) else Inr (wt_r0 a, take packetSize (wt_data a))), w))"

definition SendPacket :: "Session \<Rightarrow> 64 word \<times> bytes \<Rightarrow> world \<Rightarrow> unit go \<times> world" where
  "SendPacket session packet w =
     (if snd packet = [] then (Panic ''index out of range'', w)
      else call_then ''WintunSendPacket'' [ss_handle session, fst packet] w (\<lambda>a w.
             (Ret (), w\<lparr>wk_sent := wk_sent w @ [snd packet]\<rparr>)))"

section \<open>Pools and adapters\<close>

text \<open>\<open>windows.UTF16FromString\<close> is a parameter: the NUL-terminated code units, or an error for a text with a NUL.\<close>

definition PoolNameMax :: nat where "PoolNameMax = 256"
definition AdapterNameMax :: nat where "AdapterNameMax = 128"

type_synonym utf16 = "16 word list"

definition MakePool :: "(string \<Rightarrow> winerr + utf16) \<Rightarrow> string \<Rightarrow> (winerr + string) + utf16" where
  "MakePool UTF16FromString poolName =
     (case UTF16FromString poolName of
        Inl e \<Rightarrow> Inl (Inl e)
      | Inr poolName16 \<Rightarrow>
          if PoolNameMax < length poolName16 then Inl (Inr ''Pool name too long'')
          else Inr (poolName16 @ replicate (PoolNameMax - length poolName16) 0))"

definition freeAdapter :: "Adapter \<Rightarrow> world \<Rightarrow> unit go \<times> world" where
  "freeAdapter wt w = call_then ''WintunFreeAdapter'' [ad_handle wt] w (\<lambda>a w. (Ret (), w))"

definition OpenAdapter :: "(string \<Rightarrow> winerr + 64 word) \<Rightarrow> 64 word \<Rightarrow> string \<Rightarrow> world \<Rightarrow> (winerr + Adapter) go \<times> world" where
  "OpenAdapter UTF16PtrFromString pool ifname w =
     (case UTF16PtrFromString ifname of
        Inl e \<Rightarrow> (Ret (Inl e), w)
      | Inr ifname16 \<Rightarrow>
          call_then ''WintunOpenAdapter'' [pool, ifname16] w (\<lambda>a w.
            (Ret (if wt_r0 a = 0 then Inl (wt_e1 a) else Inr \<lparr>ad_handle = wt_r0 a\<rparr>), w)))"

definition CreateAdapter :: "(string \<Rightarrow> winerr + 64 word) \<Rightarrow> 64 word \<Rightarrow> string \<Rightarrow> 64 word \<Rightarrow> world \<Rightarrow>
    ((winerr + Adapter) \<times> bool) go \<times> world" where
  "CreateAdapter UTF16PtrFromString pool ifname requestedGUID w =
     (case UTF16PtrFromString ifname of
        Inl e \<Rightarrow> (Ret (Inl e, False), w)
      | Inr ifname16 \<Rightarrow>
          call_then ''WintunCreateAdapter'' [pool, ifname16, requestedGUID] w (\<lambda>a w.
            (Ret (if wt_r0 a = 0 then Inl (wt_e1 a) else Inr \<lparr>ad_handle = wt_r0 a\<rparr>, wt_out a \<noteq> 0), w)))"

definition Adapter_Delete :: "Adapter \<Rightarrow> bool \<Rightarrow> world \<Rightarrow> (bool \<times> winerr option) go \<times> world" where
  "Adapter_Delete wt forceCloseSessions w =
     call_then ''WintunDeleteAdapter'' [ad_handle wt, if forceCloseSessions then 1 else 0] w (\<lambda>a w.
       (Ret (wt_out a \<noteq> 0, if wt_r0 a = 0 then Some (wt_e1 a) else None), w))"

text \<open>
  \<open>DeleteMatchingAdapters\<close>: the driver calls back for every adapter of the pool; \<open>handles\<close> are the adapters it
  enumerates. The callback always answers 1, so that the enumeration goes on.
\<close>

primrec delete_matching :: "(Adapter \<Rightarrow> bool) \<Rightarrow> bool \<Rightarrow> 64 word list \<Rightarrow> bool \<times> winerr list \<Rightarrow> world \<Rightarrow>
    (bool \<times> winerr list) go \<times> world" where
  "delete_matching matches force [] acc w = (Ret acc, w)"
| "delete_matching matches force (h # hs) acc w =
     (if \<not> matches \<lparr>ad_handle = h\<rparr> then delete_matching matches force hs acc w
      else
        (case Adapter_Delete \<lparr>ad_handle = h\<rparr> force w of
           (Ret (reboot, Some e), w') \<Rightarrow> delete_matching matches force hs (fst acc, snd acc @ [e]) w'
         | (Ret (reboot, None), w') \<Rightarrow> delete_matching matches force hs (fst acc \<or> reboot, snd acc) w'
         | (Panic e, w') \<Rightarrow> (Panic e, w')
         | (Block, w') \<Rightarrow> (Block, w')))"

definition DeleteMatchingAdapters :: "64 word \<Rightarrow> (Adapter \<Rightarrow> bool) \<Rightarrow> bool \<Rightarrow> 64 word list \<Rightarrow> world \<Rightarrow>
    (bool \<times> winerr list) go \<times> world" where
  "DeleteMatchingAdapters pool matches force handles w =
     call_then ''WintunEnumAdapters'' [pool] w (\<lambda>a w.
       (case delete_matching matches force handles (False, []) w of
          (Ret (reboot, errs), w') \<Rightarrow> (Ret (reboot, if wt_r0 a = 0 then errs @ [wt_e1 a] else errs), w')
        | r \<Rightarrow> r))"

definition Adapter_Name :: "(bytes \<Rightarrow> string) \<Rightarrow> Adapter \<Rightarrow> world \<Rightarrow> (winerr + string) go \<times> world" where
  "Adapter_Name UTF16ToString wt w =
     call_then ''WintunGetAdapterName'' [ad_handle wt] w (\<lambda>a w.
       (Ret (if wt_r0 a = 0 then Inl (wt_e1 a) else Inr (UTF16ToString (take (2 * AdapterNameMax) (wt_data a)))), w))"

definition DeleteDriver :: "64 word \<Rightarrow> world \<Rightarrow> (bool \<times> winerr option) go \<times> world" where
  "DeleteDriver pool w =
     call_then ''WintunDeletePoolDriver'' [pool] w (\<lambda>a w.
       (Ret (wt_out a \<noteq> 0, if wt_r0 a = 0 then Some (wt_e1 a) else None), w))"

definition SetName :: "(string \<Rightarrow> winerr + 64 word) \<Rightarrow> Adapter \<Rightarrow> string \<Rightarrow> world \<Rightarrow> winerr option go \<times> world" where
  "SetName UTF16FromString wt ifname w =
     (case UTF16FromString ifname of
        Inl e \<Rightarrow> (Ret (Some e), w)
      | Inr ifname16 \<Rightarrow>
          call_then ''WintunSetAdapterName'' [ad_handle wt, ifname16] w (\<lambda>a w.
            (Ret (if wt_r0 a = 0 then Some (wt_e1 a) else None), w)))"

definition RunningVersion :: "world \<Rightarrow> (32 word \<times> winerr option) go \<times> world" where
  "RunningVersion w =
     call_then ''WintunGetRunningDriverVersion'' [] w (\<lambda>a w.
       (let version = (ucast (wt_r0 a) :: 32 word) in (Ret (version, if version = 0 then Some (wt_e1 a) else None), w)))"

definition LUID :: "Adapter \<Rightarrow> world \<Rightarrow> (64 word) go \<times> world" where
  "LUID wt w = call_then ''WintunGetAdapterLUID'' [ad_handle wt] w (\<lambda>a w. (Ret (wt_out64 a), w))"

section \<open>Lemmas\<close>

named_theorems wintun_simps

lemmas [wintun_simps] = call_then_def dll_call_def nanotime_def StartSession_def End_def ReadWaitEvent_def
  ReceivePacket_def ReleaseReceivePacket_def AllocateSendPacket_def SendPacket_def

lemma call_then_answers:
  "call_then name args w k = (r, w') \<Longrightarrow>
     (\<exists>e. r = Panic e \<and> w' = w) \<or> (r = Block \<and> w' = w) \<or>
     (\<exists>a as. wk_answers w = a # as \<and> k a (w\<lparr>wk_answers := as, wk_tick := Suc (wk_tick w), wk_trace := wk_trace w @ [(name, args)]\<rparr>) = (r, w'))"
  by (auto simp: call_then_def dll_call_def split: option.splits list.splits)

end
