(* ===== verification/Tun_Windows.thy ===== *)
theory Tun_Windows
  imports Wintun Tun_Linux
begin

text \<open>
  The device on Windows (\<open>node/tun/tun_windows.go\<close>): \<open>rateJuggler.update\<close>, \<open>Read\<close> with its two nested loops,
  \<open>Write\<close>, \<open>Close\<close> and \<open>NewTUN\<close>, over the driver of theory \<open>Wintun\<close>. Both loops of \<open>Read\<close> consume one answer of
  the driver per turn, so they terminate: they return, panic, or wait for an answer that is not there yet.
\<close>

section \<open>Rate measurement\<close>

definition rateMeasurementGranularity :: "64 word" where "rateMeasurementGranularity = 500000000"
definition spinloopRateThreshold :: "64 word" where "spinloopRateThreshold = 800000000 div 8"
definition spinloopDuration :: "64 word" where "spinloopDuration = 12500"
definition zetameshIfaceName :: string where "zetameshIfaceName = ''zetamesh''"

record rateJuggler =
  rj_current :: "64 word"
  rj_nextByteCount :: "64 word"
  rj_nextStartTime :: "64 word"
  rj_changing :: "32 word"

text \<open>\<open>update\<close> by one goroutine; the products and differences wrap as \<open>uint64\<close> does.\<close>

definition update_rate :: "64 word \<Rightarrow> 64 word \<Rightarrow> rateJuggler \<Rightarrow> rateJuggler" where
  "update_rate now packetLen rate =
     (let total = rj_nextByteCount rate + packetLen; period = now - rj_nextStartTime rate
      in if period \<ge> rateMeasurementGranularity then
           if rj_changing rate \<noteq> 0 then rate\<lparr>rj_nextByteCount := total\<rparr>
           else rate\<lparr>rj_nextStartTime := now, rj_current := total * 1000000000 div period, rj_nextByteCount := 0, rj_changing := 0\<rparr>
         else rate\<lparr>rj_nextByteCount := total\<rparr>)"

section \<open>The device\<close>

record windowsDevice =
  wd_name :: string
  wd_wt :: Adapter
  wd_forcedMTU :: int
  wd_rate :: rateJuggler
  wd_session :: Session
  wd_readWait :: "64 word"

definition should_spin :: "64 word \<Rightarrow> windowsDevice \<Rightarrow> bool" where
  "should_spin start d \<longleftrightarrow>
     spinloopRateThreshold \<le> rj_current (wd_rate d) \<and>
     start - rj_nextStartTime (wd_rate d) \<le> rateMeasurementGranularity * 2"

type_synonym read_result = "(int \<times> io_error option \<times> bytes \<times> windowsDevice) go \<times> world"

text \<open>A packet was received: copy it, release it and measure the rate.\<close>

definition read_packet :: "bytes \<Rightarrow> 64 word \<times> bytes \<Rightarrow> windowsDevice \<Rightarrow> world \<Rightarrow> read_result" where
  "read_packet buff packet d w =
     (case ReleaseReceivePacket (wd_session d) packet w of
        (Ret _, w') \<Rightarrow>
          let (now, w'') = nanotime w'; packetSize = length (snd packet)
          in (Ret (int packetSize, None, go_copy buff (snd packet), d\<lparr>wd_rate := update_rate now (of_nat packetSize) (wd_rate d)\<rparr>), w'')
      | (Panic e, w') \<Rightarrow> (Panic e, w')
      | (Block, w') \<Rightarrow> (Block, w'))"

text \<open>
  The loop, entered at \<open>retry\<close> (\<open>None\<close>) or inside the inner loop with the start time and \<open>shouldSpin\<close>. When nothing
  is there the loop spins for a while, if the traffic is high, and otherwise waits for the driver's event and
  starts over.
\<close>

definition at_retry :: "(64 word \<times> bool) option \<Rightarrow> windowsDevice \<Rightarrow> world \<Rightarrow> (io_error + 64 word \<times> bool) \<times> world" where
  "at_retry pos d w =
     (case pos of
        Some p \<Rightarrow> (Inr p, w)
      | None \<Rightarrow>
          (case wk_errors w (wk_tick w) of
             Some e \<Rightarrow> (Inl e, w)
           | None \<Rightarrow> let (start, w') = nanotime w in (Inr (start, should_spin start d), w')))"

lemma at_retry_answers [simp]: "wk_answers (snd (at_retry pos d w)) = wk_answers w"
  by (auto simp: at_retry_def nanotime_def split: option.splits)

lemma ReceivePacket_consumes:
  "ReceivePacket ss w = (Ret r, w') \<Longrightarrow> length (wk_answers w') < length (wk_answers w)"
  by (auto simp: ReceivePacket_def call_then_def dll_call_def split: option.splits list.splits)

lemma turn_consumes:
  assumes "(x, w1) = at_retry pos d w" and "(Ret r, w2) = ReceivePacket ss w1"
  shows "length (wk_answers w2) < length (wk_answers w)"
  using ReceivePacket_consumes [OF assms(2) [symmetric]] at_retry_answers [of pos d w] assms(1) by (metis snd_conv)

function windows_read_loop :: "bytes \<Rightarrow> windowsDevice \<Rightarrow> (64 word \<times> bool) option \<Rightarrow> world \<Rightarrow> read_result" where
  "windows_read_loop buff d pos w =
     (case at_retry pos d w of
        (Inl e, w1) \<Rightarrow> (Ret (0, Some e, buff, d), w1)
      | (Inr (start, shouldSpin), w1) \<Rightarrow>
          if wk_closed w1 (wk_tick w1) then (Ret (0, Some ErrClosed, buff, d), w1)
          else
            (case ReceivePacket (wd_session d) w1 of
               (Panic e, w2) \<Rightarrow> (Panic e, w2)
             | (Block, w2) \<Rightarrow> (Block, w2)
             | (Ret (Inr packet), w2) \<Rightarrow> read_packet buff packet d w2
             | (Ret (Inl err), w2) \<Rightarrow>
                 if err = ERROR_NO_MORE_ITEMS then
                   (let (now, w3) = (if shouldSpin then nanotime w2 else (0, w2))
                    in if \<not> shouldSpin \<or> spinloopDuration \<le> now - start
                       then windows_read_loop buff d None w3
                       else windows_read_loop buff d (Some (start, shouldSpin)) w3)
                 else if err = ERROR_HANDLE_EOF then (Ret (0, Some ErrClosed, buff, d), w2)
                 else if err = ERROR_INVALID_DATA then (Ret (0, Some (IoError ''Send ring corrupt''), buff, d), w2)
                 else (Ret (0, Some (IoError ''Read failed''), buff, d), w2)))"
  by pat_completeness auto

termination
  by (relation "measure (\<lambda>(_, _, _, w). length (wk_answers w))")
    (auto simp: nanotime_def turn_consumes split: if_splits)

definition windows_Read :: "bytes \<Rightarrow> windowsDevice \<Rightarrow> world \<Rightarrow> read_result" where
  "windows_Read buff d w = windows_read_loop buff d None w"

definition windows_Write :: "bytes \<Rightarrow> windowsDevice \<Rightarrow> world \<Rightarrow> (int \<times> io_error option \<times> windowsDevice) go \<times> world" where
  "windows_Write buff d w =
     (if wk_closed w (wk_tick w) then (Ret (0, Some ErrClosed, d), w)
      else
        let packetSize = length buff; (now, w1) = nanotime w;
            d = d\<lparr>wd_rate := update_rate now (of_nat packetSize) (wd_rate d)\<rparr>
        in case AllocateSendPacket (wd_session d) packetSize w1 of
             (Panic e, w2) \<Rightarrow> (Panic e, w2)
           | (Block, w2) \<Rightarrow> (Block, w2)
           | (Ret (Inr packet), w2) \<Rightarrow>
               (case SendPacket (wd_session d) (fst packet, go_copy (snd packet) buff) w2 of
                  (Ret _, w3) \<Rightarrow> (Ret (int packetSize, None, d), w3)
                | (Panic e, w3) \<Rightarrow> (Panic e, w3)
                | (Block, w3) \<Rightarrow> (Block, w3))
           | (Ret (Inl err), w2) \<Rightarrow>
               if err = ERROR_HANDLE_EOF then (Ret (0, Some ErrClosed, d), w2)
               else if err = ERROR_BUFFER_OVERFLOW then (Ret (0, None, d), w2)
               else (Ret (0, Some (IoError ''Write failed''), d), w2))"

text \<open>\<open>Close\<close> sets the flag, which is read through \<open>wk_closed\<close>, ends the session and deletes the adapter.\<close>

definition windows_Close :: "windowsDevice \<Rightarrow> world \<Rightarrow> winerr option go \<times> world" where
  "windows_Close d w =
     (let w0 = w\<lparr>wk_closed := (\<lambda>_. True)\<rparr>
      in case End (wd_session d) w0 of
           (Ret _, w1) \<Rightarrow>
             (case Adapter_Delete (wd_wt d) False w1 of
                (Ret (_, err), w2) \<Rightarrow> (Ret err, w2)
              | (Panic e, w2) \<Rightarrow> (Panic e, w2)
              | (Block, w2) \<Rightarrow> (Block, w2))
         | (Panic e, w1) \<Rightarrow> (Panic e, w1)
         | (Block, w1) \<Rightarrow> (Block, w1))"


section \<open>Reading\<close>

text \<open>A driver whose functions are all there, and a device that nobody closes and that reports no error.\<close>

definition open_world :: "world \<Rightarrow> bool" where
  "open_world w \<longleftrightarrow> wk_missing w = (\<lambda>_. None) \<and> wk_closed w = (\<lambda>_. False) \<and> wk_errors w = (\<lambda>_. None)"

definition nothing_there :: "wt_answer \<Rightarrow> bool" where
  "nothing_there a \<longleftrightarrow> wt_r0 a = 0 \<and> wt_e1 a = ERROR_NO_MORE_ITEMS"

definition delivers :: "wt_answer \<Rightarrow> bytes \<Rightarrow> bool" where
  "delivers a p \<longleftrightarrow> wt_r0 a \<noteq> 0 \<and> unat (wt_out a) = length p \<and> take (length p) (wt_data a) = p"

lemma open_world_simps [simp]:
  "open_world (w\<lparr>wk_answers := as\<rparr>) = open_world w" "open_world (w\<lparr>wk_tick := t\<rparr>) = open_world w"
  "open_world (w\<lparr>wk_trace := tr\<rparr>) = open_world w" "open_world (w\<lparr>wk_sent := ps\<rparr>) = open_world w"
  by (simp_all add: open_world_def)

lemma at_retry_open: "open_world w \<Longrightarrow> \<exists>start spin w1. at_retry pos d w = (Inr (start, spin), w1) \<and> open_world w1 \<and> wk_answers w1 = wk_answers w"
  by (auto simp: at_retry_def open_world_def nanotime_def split: option.splits)

lemma ReceivePacket_answer:
  assumes "open_world w" and "wk_answers w = a # as"
  shows "\<exists>w'. ReceivePacket ss w = (Ret (if wt_r0 a = 0 then Inl (wt_e1 a) else Inr (wt_r0 a, take (unat (wt_out a)) (wt_data a))), w') \<and>
     open_world w' \<and> wk_answers w' = as"
  using assms by (auto simp: ReceivePacket_def call_then_def dll_call_def open_world_def)

declare windows_read_loop.simps [simp del]

lemma read_loop_packet:
  assumes "open_world w" and "wk_answers w = a # rel # rest" and "delivers a p" and "p \<noteq> []"
  shows "\<exists>d' w'. windows_read_loop buff d pos w = (Ret (int (length p), None, go_copy buff p, d'), w') \<and> wk_answers w' = rest"
proof -
  obtain start spin w1 where w1: "at_retry pos d w = (Inr (start, spin), w1)" "open_world w1" "wk_answers w1 = a # rel # rest"
    using at_retry_open [OF assms(1), of pos d] assms(2) by auto
  obtain w2 where w2: "ReceivePacket (wd_session d) w1 = (Ret (Inr (wt_r0 a, p)), w2)" "open_world w2" "wk_answers w2 = rel # rest"
    using ReceivePacket_answer [OF w1(2,3), of "wd_session d"] assms(3) by (auto simp: delivers_def)
  have "\<not> wk_closed w1 (wk_tick w1)" using w1(2) by (simp add: open_world_def)
  then show ?thesis
    using w1(1) w2 assms(4) by (subst windows_read_loop.simps)
      (auto simp: read_packet_def ReleaseReceivePacket_def call_then_def dll_call_def open_world_def nanotime_def Let_def)
qed

lemma read_loop_delivers:
  assumes "open_world w" and "wk_answers w = es @ a # rel # rest" and "\<forall>e \<in> set es. nothing_there e" and "delivers a p" and "p \<noteq> []"
  shows "\<exists>d' w'. windows_read_loop buff d pos w = (Ret (int (length p), None, go_copy buff p, d'), w') \<and> wk_answers w' = rest"
  using assms(1,2,3)
proof (induction es arbitrary: pos w)
  case Nil
  then show ?case using read_loop_packet assms(4,5) by simp
next
  case (Cons e es)
  obtain start spin w1 where w1: "at_retry pos d w = (Inr (start, spin), w1)" "open_world w1" "wk_answers w1 = e # es @ a # rel # rest"
    using at_retry_open [OF Cons.prems(1), of pos d] Cons.prems(2) by auto
  obtain w2 where w2: "ReceivePacket (wd_session d) w1 = (Ret (Inl ERROR_NO_MORE_ITEMS), w2)" "open_world w2" "wk_answers w2 = es @ a # rel # rest"
    using ReceivePacket_answer [OF w1(2,3), of "wd_session d"] Cons.prems(3) by (auto simp: nothing_there_def)
  have again: "\<exists>d' w''. windows_read_loop buff d q w' = (Ret (int (length p), None, go_copy buff p, d'), w'') \<and> wk_answers w'' = rest"
    if "w' = w2 \<or> w' = snd (nanotime w2)" for q w'
    using that w2 Cons.prems(3) by (intro Cons.IH) (auto simp: nanotime_def)
  have "\<not> wk_closed w1 (wk_tick w1)" using w1(2) by (simp add: open_world_def)
  then show ?case
    using w1(1) w2(1) again by (subst windows_read_loop.simps) (auto simp: Let_def split_beta)
qed

lemma slice_copied: "go_slice (go_copy buff p) (int (length p)) = (if length p \<le> length buff then Ret p else Panic ''slice bounds out of range'')"
  by (simp add: go_slice_def take_go_copy)

text \<open>
  Reading a packet on Windows terminates and delivers. However often the driver reports that nothing is there
  before it delivers a packet, and whatever the clock and the measured rate say about spinning or waiting,
  \<open>Read\<close> returns the length of that packet with the packet copied into the buffer, and hands it back to the
  driver. The slice \<open>buffer[:c]\<close> that the node then takes is the packet when it fits the buffer; when the packet
  is longer than the buffer, the returned length exceeds it and the slice panics.
\<close>

lemma windows_read_delivers:
  assumes "open_world w" and "wk_answers w = es @ a # rel # rest" and "\<forall>e \<in> set es. nothing_there e" and "delivers a p" and "p \<noteq> []"
  shows "\<exists>c buff' d' w'. windows_Read buff d w = (Ret (c, None, buff', d'), w') \<and> c = int (length p) \<and> wk_answers w' = rest \<and>
     go_slice buff' c = (if length p \<le> length buff then Ret p else Panic ''slice bounds out of range'')"
  using read_loop_delivers [OF assms, of buff d None] slice_copied [of buff p] unfolding windows_Read_def by blast

definition waiting_world :: "wt_answer list \<Rightarrow> world" where
  "waiting_world as = \<lparr>wk_answers = as, wk_missing = (\<lambda>_. None), wk_clock = (\<lambda>n. of_nat n * 1000), wk_closed = (\<lambda>_. False),
     wk_errors = (\<lambda>_. None), wk_tick = 0, wk_trace = [], wk_sent = []\<rparr>"

definition sample_device :: windowsDevice where
  "sample_device = \<lparr>wd_name = ''zetamesh'', wd_wt = \<lparr>ad_handle = 1\<rparr>, wd_forcedMTU = DefaultMTU,
     wd_rate = \<lparr>rj_current = 0, rj_nextByteCount = 0, rj_nextStartTime = 0, rj_changing = 0\<rparr>, wd_session = \<lparr>ss_handle = 2\<rparr>, wd_readWait = 3\<rparr>"

definition empty_answer :: wt_answer where
  "empty_answer = \<lparr>wt_r0 = 0, wt_e1 = ERROR_NO_MORE_ITEMS, wt_out = 0, wt_out64 = 0, wt_data = []\<rparr>"

definition packet_answer :: "bytes \<Rightarrow> wt_answer" where
  "packet_answer p = \<lparr>wt_r0 = 0x1000, wt_e1 = OtherErrno 0, wt_out = of_nat (length p), wt_out64 = 0, wt_data = p\<rparr>"

lemma open_waiting_world [simp]:
  "open_world (waiting_world as)" "wk_answers (waiting_world as) = as" "wk_sent (waiting_world as) = []"
  by (simp_all add: open_world_def waiting_world_def)

section \<open>Writing\<close>

text \<open>What \<open>Write\<close> does with each answer of the driver.\<close>

lemma windows_Write_answer:
  assumes "open_world w" and "wk_answers w = a # rest"
  shows "\<exists>d' w'. windows_Write buff d w = (
      if wt_r0 a = 0 then
        Ret (0, if wt_e1 a = ERROR_HANDLE_EOF then Some ErrClosed else if wt_e1 a = ERROR_BUFFER_OVERFLOW then None
               else Some (IoError ''Write failed''), d')
      else if take (length buff) (wt_data a) = [] then Panic ''index out of range''
      else if rest = [] then Block
      else Ret (int (length buff), None, d'), w') \<and>
    wk_sent w' = wk_sent w @ (if wt_r0 a = 0 \<or> take (length buff) (wt_data a) = [] \<or> rest = [] then []
       else [go_copy (take (length buff) (wt_data a)) buff])"
  using assms
  by (auto simp: windows_Write_def AllocateSendPacket_def SendPacket_def call_then_def dll_call_def open_world_def nanotime_def Let_def
      split: list.splits)

text \<open>
  The device on a driver that has room for every packet and delivers one packet per read.
\<close>

definition windows_send :: "windowsDevice \<Rightarrow> bytes \<Rightarrow> (bytes \<times> windowsDevice) option" where
  "windows_send d p =
     (case windows_Write p d (waiting_world [packet_answer (replicate (length p) 0), empty_answer]) of
        (Ret (_, None, d'), w) \<Rightarrow> (case wk_sent w of [frame] \<Rightarrow> Some (frame, d') | _ \<Rightarrow> None)
      | _ \<Rightarrow> None)"

definition windows_receive :: "windowsDevice \<Rightarrow> bytes \<Rightarrow> bytes \<Rightarrow> bytes option \<times> windowsDevice" where
  "windows_receive d buffer frame =
     (case windows_Read buffer d (waiting_world [packet_answer frame, empty_answer]) of
        (Ret (c, None, buffer', d'), _) \<Rightarrow> (case go_slice buffer' c of Ret p \<Rightarrow> Some p | _ \<Rightarrow> None, d')
      | _ \<Rightarrow> (None, d))"

definition is_packet :: "bytes \<Rightarrow> bool" where
  "is_packet p \<longleftrightarrow> p \<noteq> [] \<and> length p < 2 ^ 32"

interpretation windows_dev: packet_device windows_send windows_receive "\<lambda>_. True" is_packet
proof
  fix d p assume p: "is_packet p"
  have sent: "\<exists>d'. windows_send d p = Some (p, d')"
    using windows_Write_answer [of "waiting_world [packet_answer (replicate (length p) 0), empty_answer]"
        "packet_answer (replicate (length p) 0)" "[empty_answer]" p d] p
    by (auto simp: windows_send_def is_packet_def go_copy_def packet_answer_def)
  then show "\<exists>f d'. windows_send d p = Some (f, d') \<and> True" by blast
  fix f d' and buffer :: bytes and e
  assume "windows_send d p = Some (f, d')" and len: "length p \<le> length buffer"
  then have f: "f = p" using sent by auto
  have "delivers (packet_answer p) p" using p by (simp add: delivers_def packet_answer_def is_packet_def unat_of_nat)
  then show "fst (windows_receive e buffer f) = Some p"
    using windows_read_delivers [of "waiting_world [packet_answer p, empty_answer]" "[]" "packet_answer p" empty_answer "[]" p buffer e] p len
    by (auto simp: f windows_receive_def is_packet_def)
qed



section \<open>NewTUN\<close>

definition wbind :: "'a go \<times> world \<Rightarrow> ('a \<Rightarrow> world \<Rightarrow> 'b go \<times> world) \<Rightarrow> 'b go \<times> world" where
  "wbind r k = (case r of (Ret x, w) \<Rightarrow> k x w | (Panic e, w) \<Rightarrow> (Panic e, w) | (Block, w) \<Rightarrow> (Block, w))"

text \<open>
  The conversions from and to UTF-16 and the run of a command are parameters. Only a session that does not start
  makes \<open>NewTUN\<close> delete the adapter it has created.
\<close>

record windows_env =
  we_utf16 :: "string \<Rightarrow> winerr + 64 word"
  we_text :: "bytes \<Rightarrow> string"
  we_exec :: "string list \<Rightarrow> string \<times> string option"
  we_pool :: "64 word"

datatype windows_error = WinErr string winerr | CommandFailed string string

definition netsh_command :: "string \<Rightarrow> string \<Rightarrow> string list" where
  "netsh_command name addr =
     [''netsh'', ''interface'', ''ip'', ''set'', ''address'', ''name='' @ CHR 0x22 # name @ [CHR 0x22],
      ''addr='' @ addr, ''mask=255.255.0.0'', ''gateway=none'']"

definition remove_existing :: "windows_env \<Rightarrow> world \<Rightarrow> (windows_error option) go \<times> world" where
  "remove_existing env w =
     wbind (OpenAdapter (we_utf16 env) (we_pool env) zetameshIfaceName w) (\<lambda>r w.
       case r of
         Inl _ \<Rightarrow> (Ret None, w)
       | Inr wt \<Rightarrow>
           wbind (Adapter_Delete wt True w) (\<lambda>(_, err) w.
             (Ret (map_option (WinErr ''deleting already existing interface'') err), w)))"

definition start_device :: "windows_env \<Rightarrow> string \<Rightarrow> Adapter \<Rightarrow> string \<Rightarrow> world \<Rightarrow> (windows_error + windowsDevice) go \<times> world" where
  "start_device env addr wt name w =
     wbind (StartSession wt 0x800000 w) (\<lambda>s w.
       case s of
         Inl e \<Rightarrow> wbind (Adapter_Delete wt False w) (\<lambda>_ w. (Ret (Inl (WinErr ''Error starting session'' e)), w))
       | Inr session \<Rightarrow>
           wbind (ReadWaitEvent session w) (\<lambda>ev w.
             (case we_exec env (netsh_command name addr) of
                (out, Some e) \<Rightarrow> (Ret (Inl (CommandFailed e out)), w)
              | (_, None) \<Rightarrow>
                  (Ret (Inr \<lparr>wd_name = name, wd_wt = wt, wd_forcedMTU = DefaultMTU,
                     wd_rate = \<lparr>rj_current = 0, rj_nextByteCount = 0, rj_nextStartTime = 0, rj_changing = 0\<rparr>,
                     wd_session = session, wd_readWait = ev\<rparr>), w))))"

definition NewTUN_windows :: "windows_env \<Rightarrow> string \<Rightarrow> world \<Rightarrow> (windows_error + windowsDevice) go \<times> world" where
  "NewTUN_windows env addr w =
     wbind (remove_existing env w) (\<lambda>r w.
       case r of
         Some e \<Rightarrow> (Ret (Inl e), w)
       | None \<Rightarrow>
           wbind (CreateAdapter (we_utf16 env) (we_pool env) zetameshIfaceName 0 w) (\<lambda>(r, rebootRequired) w.
             case r of
               Inl e \<Rightarrow> (Ret (Inl (WinErr ''creating interface'' e)), w)
             | Inr wt \<Rightarrow>
                 wbind (Adapter_Name (we_text env) wt w) (\<lambda>r w.
                   case r of
                     Inl e \<Rightarrow> (Ret (Inl (WinErr [] e)), w)
                   | Inr name \<Rightarrow> start_device env addr wt name w)))"

text \<open>The adapter is deleted exactly when the session does not start; a failing \<open>netsh\<close> leaves adapter and session behind.\<close>

lemma start_device_cleanup:
  assumes "open_world w" and "wk_answers w = s # e # rest"
  shows "\<exists>r w'. start_device env addr wt name w = (Ret r, w') \<and>
    ((''WintunDeleteAdapter'', [ad_handle wt, 0]) \<in> set (drop (length (wk_trace w)) (wk_trace w'))) = (wt_r0 s = 0) \<and>
    (wt_r0 s = 0 \<longrightarrow> (\<exists>e. r = Inl e)) \<and> (snd (we_exec env (netsh_command name addr)) \<noteq> None \<longrightarrow> (\<exists>e. r = Inl e))"
  using assms
  by (auto simp: start_device_def wbind_def StartSession_def ReadWaitEvent_def Adapter_Delete_def call_then_def dll_call_def open_world_def
      split: prod.splits option.splits)


end
