(* ===== verification/Node_Device.thy ===== *)
theory Node_Device
  imports Node_Properties Tun_Darwin Tun_Windows Constant
begin

text \<open>
  The reading goroutine of \<open>serveDev\<close> (\<open>node/node.go\<close>) on top of a device: the result of \<open>dev.Read(buffer)\<close>, the
  slice \<open>buffer[:c]\<close> and the routing of the packet. Together with the devices of the platforms it shows what a
  packet from the system does to the node.
\<close>

text \<open>One turn: \<open>r\<close> is the result of \<open>Read\<close> with the buffer as it is afterwards.\<close>

definition serve_dev_read :: "proto_lib \<Rightarrow> (bytes \<Rightarrow> (byte \<times> byte \<times> byte \<times> byte) option) \<Rightarrow> node \<Rightarrow>
    int \<times> io_error option \<times> bytes \<Rightarrow> time \<Rightarrow> node go" where
  "serve_dev_read P decode n r now =
     (case r of
        (c, Some err, buffer) \<Rightarrow> Ret n
      | (c, None, buffer) \<Rightarrow> go_bind (go_slice buffer c) (\<lambda>packet. dev_read_turn P decode n packet now))"

definition windows_dev_turn :: "proto_lib \<Rightarrow> (bytes \<Rightarrow> (byte \<times> byte \<times> byte \<times> byte) option) \<Rightarrow> node \<Rightarrow>
    bytes \<Rightarrow> windowsDevice \<Rightarrow> world \<Rightarrow> time \<Rightarrow> node go" where
  "windows_dev_turn P decode n buffer d w now =
     (case windows_Read buffer d w of
        (Ret (c, err, buffer', _), _) \<Rightarrow> serve_dev_read P decode n (c, err, buffer') now
      | (Panic e, _) \<Rightarrow> Panic e
      | (Block, _) \<Rightarrow> Block)"

definition darwin_dev_turn :: "proto_lib \<Rightarrow> (bytes \<Rightarrow> (byte \<times> byte \<times> byte \<times> byte) option) \<Rightarrow> node \<Rightarrow>
    bytes \<Rightarrow> tunReadCloser \<Rightarrow> (bytes \<Rightarrow> int \<times> bytes \<times> io_error option) \<Rightarrow> time \<Rightarrow> node go" where
  "darwin_dev_turn P decode n buffer t f now =
     (case darwin_Read f buffer t of (c, err, buffer', _) \<Rightarrow> serve_dev_read P decode n (c, err, buffer') now)"

text \<open>
  C28: a device packet reaches the node's routing exactly as it was sent, if it fits the buffer of 4096 bytes. On
  Windows \<open>Read\<close> reports the full length of a longer packet, and the node panics; the same happens on macOS for a
  frame of one, two or three bytes, whose length comes out negative. A read of no bytes is an error that the node skips.
\<close>

theorem device_packet_reaches_node:
  assumes "open_world w" and "wk_answers w = es @ a # rel # rest" and "\<forall>e \<in> set es. nothing_there e"
    and "delivers a p" and "p \<noteq> []" and "length buffer = MaxBufferSize"
  shows "windows_dev_turn P decode n buffer d w now =
      (if length p \<le> MaxBufferSize then dev_read_turn P decode n p now else Panic ''slice bounds out of range'') \<and>
    (length h = 4 \<and> length p \<le> MaxBufferSize \<longrightarrow>
      darwin_dev_turn P decode n buffer t (frame_read (h @ p)) now = dev_read_turn P decode n p now) \<and>
    (0 < length f \<and> length f < 4 \<longrightarrow> darwin_dev_turn P decode n buffer t (frame_read f) now = Panic ''slice bounds out of range'') \<and>
    darwin_dev_turn P decode n buffer t (frame_read []) now = Ret n"
proof -
  have "windows_dev_turn P decode n buffer d w now =
      (if length p \<le> MaxBufferSize then dev_read_turn P decode n p now else Panic ''slice bounds out of range'')"
    using windows_read_delivers [OF assms(1-5), of buffer d] assms(6)
    by (auto simp: windows_dev_turn_def serve_dev_read_def split: if_splits)
  moreover have "darwin_dev_turn P decode n buffer t (frame_read (h @ p)) now = dev_read_turn P decode n p now"
    if "length h = 4" "length p \<le> MaxBufferSize"
    using darwin_receive_frame [of h p buffer t] that assms(6)
    by (auto simp: darwin_receive_def darwin_dev_turn_def serve_dev_read_def split: prod.splits if_splits go.splits)
  moreover have "darwin_dev_turn P decode n buffer t (frame_read f) now = Panic ''slice bounds out of range''" if "0 < length f" "length f < 4"
    using that by (simp add: darwin_dev_turn_def serve_dev_read_def darwin_Read_def frame_read_def go_slice_def Let_def min_def grow_def)
  moreover have "darwin_dev_turn P decode n buffer t (frame_read []) now = Ret n"
    by (auto simp: darwin_dev_turn_def serve_dev_read_def darwin_Read_def frame_read_def Let_def grow_def)
  ultimately show ?thesis by blast
qed

theorem device_packet_reaches_node_witness:
  "windows_dev_turn sample_lib (\<lambda>_. None) (New sample_opt) (replicate MaxBufferSize 0) sample_device
     (waiting_world [packet_answer (replicate 5000 1), empty_answer]) 0 = Panic ''slice bounds out of range''"
  using device_packet_reaches_node [of "waiting_world [packet_answer (replicate 5000 1), empty_answer]" "[]"
      "packet_answer (replicate 5000 1)" empty_answer "[]" "replicate 5000 1" "replicate MaxBufferSize 0"
      sample_lib "\<lambda>_. None" "New sample_opt" sample_device 0]
  by (simp add: delivers_def packet_answer_def MaxBufferSize_def)

end
