(* ===== verification/Lazy_Load.thy ===== *)
theory Lazy_Load
  imports Mesh_Prelude
begin

text \<open>
  Loading the driver's DLL on first use (\<open>node/tun/wintun/dll_windows.go\<close>, \<open>dll_fromfile_windows.go\<close>).
  \<open>lazyDLL.Load\<close> may be called by any number of goroutines at the same time: it looks at the module without the
  lock, takes the lock, looks again, loads, publishes the module and then runs \<open>onLoad\<close> while it still holds the
  lock. One call is a sequence of the steps of \<open>load_step\<close>; a run interleaves the steps of all goroutines.
  \<open>onLoad\<close> is \<open>setupLogger\<close>, which calls \<open>Load\<close> of the same DLL again through \<open>lazyProc.Addr\<close>: that inner call can
  only get past the check without the lock, because the goroutine itself holds the lock.
  \<open>LoadLibraryEx\<close> is outside the repository: both outcomes of it are steps.
\<close>

section \<open>Load as a state machine\<close>

datatype load_result = LoadOk | LoadErr string | LoadPanic string

datatype load_pc =
    Enter  \<comment> \<open>before the check without the lock\<close>
  | WantLock
  | HaveLock  \<comment> \<open>before the second check\<close>
  | Loading
  | Loaded "64 word"  \<comment> \<open>before the module is published\<close>
  | Notify  \<comment> \<open>in \<open>onLoad\<close>\<close>
  | Leave load_result  \<comment> \<open>before the deferred unlock\<close>
  | Left load_result

record lazyDLL =
  ld_module :: "64 word"
  ld_owner :: "nat option"
  ld_pc :: "nat \<Rightarrow> load_pc"
  ld_loads :: "64 word list"  \<comment> \<open>the modules that \<open>LoadLibraryEx\<close> has returned\<close>

definition goto :: "nat \<Rightarrow> load_pc \<Rightarrow> lazyDLL \<Rightarrow> lazyDLL" where
  "goto i pc d = d\<lparr>ld_pc := (ld_pc d)(i := pc)\<rparr>"

inductive load_step :: "nat \<Rightarrow> lazyDLL \<Rightarrow> lazyDLL \<Rightarrow> bool" where
  fast: "ld_pc d i = Enter \<Longrightarrow> ld_module d \<noteq> 0 \<Longrightarrow> load_step i d (goto i (Left LoadOk) d)"
| slow: "ld_pc d i = Enter \<Longrightarrow> ld_module d = 0 \<Longrightarrow> load_step i d (goto i WantLock d)"
| lock: "ld_pc d i = WantLock \<Longrightarrow> ld_owner d = None \<Longrightarrow> load_step i d (goto i HaveLock (d\<lparr>ld_owner := Some i\<rparr>))"
| recheck_ok: "ld_pc d i = HaveLock \<Longrightarrow> ld_module d \<noteq> 0 \<Longrightarrow> load_step i d (goto i (Leave LoadOk) d)"
| recheck_load: "ld_pc d i = HaveLock \<Longrightarrow> ld_module d = 0 \<Longrightarrow> load_step i d (goto i Loading d)"
| load_ok: "ld_pc d i = Loading \<Longrightarrow> m \<noteq> 0 \<Longrightarrow> load_step i d (goto i (Loaded m) (d\<lparr>ld_loads := m # ld_loads d\<rparr>))"
| load_err: "ld_pc d i = Loading \<Longrightarrow> load_step i d (goto i (Leave (LoadErr e)) d)"
| publish: "ld_pc d i = Loaded m \<Longrightarrow> load_step i d (goto i Notify (d\<lparr>ld_module := m\<rparr>))"
| notify: "ld_pc d i = Notify \<Longrightarrow> ld_module d \<noteq> 0 \<Longrightarrow> load_step i d (goto i (Leave LoadOk) d)"
| notify_panic: "ld_pc d i = Notify \<Longrightarrow> ld_module d \<noteq> 0 \<Longrightarrow> load_step i d (goto i (Leave (LoadPanic e)) d)"
| unlock: "ld_pc d i = Leave r \<Longrightarrow> load_step i d (goto i (Left r) (d\<lparr>ld_owner := None\<rparr>))"

definition newLazyDLL :: lazyDLL where
  "newLazyDLL = \<lparr>ld_module = 0, ld_owner = None, ld_pc = (\<lambda>_. Enter), ld_loads = []\<rparr>"

inductive load_reach :: "lazyDLL \<Rightarrow> bool" where
  init: "load_reach newLazyDLL"
| step: "load_reach d \<Longrightarrow> load_step i d d' \<Longrightarrow> load_reach d'"

section \<open>Invariant\<close>

definition holds_lock :: "load_pc \<Rightarrow> bool" where
  "holds_lock pc \<longleftrightarrow> (case pc of HaveLock \<Rightarrow> True | Loading \<Rightarrow> True | Loaded _ \<Rightarrow> True | Notify \<Rightarrow> True | Leave _ \<Rightarrow> True | _ \<Rightarrow> False)"

text \<open>What a goroutine at a program point knows about the module and the loads so far.\<close>

definition pc_knows :: "lazyDLL \<Rightarrow> load_pc \<Rightarrow> bool" where
  "pc_knows d pc \<longleftrightarrow> (case pc of
       Loading \<Rightarrow> ld_module d = 0 \<and> ld_loads d = []
     | Loaded m \<Rightarrow> m \<noteq> 0 \<and> ld_module d = 0 \<and> ld_loads d = [m]
     | Notify \<Rightarrow> ld_module d \<noteq> 0
     | Leave LoadOk \<Rightarrow> ld_module d \<noteq> 0
     | Left LoadOk \<Rightarrow> ld_module d \<noteq> 0
     | _ \<Rightarrow> True)"

lemma holds_lock_simps [simp]:
  "\<not> holds_lock Enter" "\<not> holds_lock WantLock" "holds_lock HaveLock" "holds_lock Loading" "holds_lock (Loaded m)"
  "holds_lock Notify" "holds_lock (Leave r)" "\<not> holds_lock (Left r)"
  by (simp_all add: holds_lock_def)

lemma pc_knows_simps [simp]:
  "pc_knows d Enter" "pc_knows d WantLock" "pc_knows d HaveLock"
  "pc_knows d Loading \<longleftrightarrow> ld_module d = 0 \<and> ld_loads d = []"
  "pc_knows d (Loaded m) \<longleftrightarrow> m \<noteq> 0 \<and> ld_module d = 0 \<and> ld_loads d = [m]"
  "pc_knows d Notify \<longleftrightarrow> ld_module d \<noteq> 0"
  "pc_knows d (Leave r) \<longleftrightarrow> (r = LoadOk \<longrightarrow> ld_module d \<noteq> 0)" "pc_knows d (Left r) \<longleftrightarrow> (r = LoadOk \<longrightarrow> ld_module d \<noteq> 0)"
  by (auto simp: pc_knows_def split: load_result.splits)

definition load_inv :: "lazyDLL \<Rightarrow> bool" where
  "load_inv d \<longleftrightarrow>
     (\<forall>i. holds_lock (ld_pc d i) \<longleftrightarrow> ld_owner d = Some i) \<and>
     (\<forall>i. pc_knows d (ld_pc d i)) \<and>
     (if ld_module d = 0 then ld_loads d = [] \<or> (\<exists>i m. ld_pc d i = Loaded m) else ld_loads d = [ld_module d])"

lemma goto_simps [simp]:
  "ld_module (goto i pc d) = ld_module d" "ld_owner (goto i pc d) = ld_owner d" "ld_loads (goto i pc d) = ld_loads d"
  "ld_pc (goto i pc d) = (ld_pc d)(i := pc)"
  by (simp_all add: goto_def)

lemma load_inv_init: "load_inv newLazyDLL"
  by (simp add: load_inv_def newLazyDLL_def holds_lock_def pc_knows_def)

text \<open>A goroutine without the lock knows at most that the module is there, which no step revokes.\<close>

lemma knows_without_lock:
  "\<not> holds_lock pc \<Longrightarrow> pc_knows d pc \<Longrightarrow> ld_module d \<noteq> 0 \<longrightarrow> ld_module d' \<noteq> 0 \<Longrightarrow> pc_knows d' pc"
  by (auto simp: holds_lock_def pc_knows_def split: load_pc.splits load_result.splits)

lemma same_module_knows:
  "ld_module d' = ld_module d \<Longrightarrow> ld_loads d' = ld_loads d \<Longrightarrow> pc_knows d' pc = pc_knows d pc"
  by (simp add: pc_knows_def split: load_pc.splits load_result.splits)

text \<open>A step that changes neither the module nor the loads, and one that the owner of the lock makes.\<close>

lemma load_inv_goto:
  assumes inv: "load_inv d" and d': "ld_module d' = ld_module d" "ld_loads d' = ld_loads d" "ld_pc d' = (ld_pc d)(i := pc)"
    and pc: "pc_knows d pc" "\<not> (\<exists>m. ld_pc d i = Loaded m)"
    and lock: "\<And>j. holds_lock (((ld_pc d)(i := pc)) j) \<longleftrightarrow> ld_owner d' = Some j"
  shows "load_inv d'"
proof -
  have "\<forall>j. pc_knows d' (ld_pc d' j)" using inv pc(1) d' by (auto simp: load_inv_def same_module_knows [OF d'(1,2)])
  moreover have "(\<exists>j m. ld_pc d j = Loaded m) \<longrightarrow> (\<exists>j m. ld_pc d' j = Loaded m)"
    using pc(2) d'(3) by (metis fun_upd_apply)
  ultimately show ?thesis using inv lock d' by (auto simp: load_inv_def split: if_splits)
qed

lemma load_inv_owner:
  assumes inv: "load_inv d" and own: "ld_owner d = Some i" "ld_owner d' = Some i" and pcs: "ld_pc d' = (ld_pc d)(i := pc)"
    and pc: "holds_lock pc" "pc_knows d' pc" and mono: "ld_module d \<noteq> 0 \<longrightarrow> ld_module d' \<noteq> 0"
    and loads: "if ld_module d' = 0 then ld_loads d' = [] \<or> (\<exists>m. pc = Loaded m) else ld_loads d' = [ld_module d']"
  shows "load_inv d'"
proof -
  have locks: "holds_lock (ld_pc d j) \<longleftrightarrow> j = i" for j using inv own(1) by (auto simp: load_inv_def)
  have "pc_knows d' (ld_pc d' j)" for j
    using knows_without_lock [of "ld_pc d j" d d'] locks [of j] inv pc(2) mono pcs by (auto simp: load_inv_def)
  moreover have "holds_lock (ld_pc d' j) \<longleftrightarrow> ld_owner d' = Some j" for j using locks [of j] own(2) pc(1) pcs by auto
  moreover have "ld_loads d' = [] \<or> (\<exists>j m. ld_pc d' j = Loaded m)" if "ld_module d' = 0"
    using loads that pcs by (metis fun_upd_same)
  ultimately show ?thesis using loads by (auto simp: load_inv_def)
qed

lemma load_inv_owns: "load_inv d \<Longrightarrow> holds_lock (ld_pc d i) \<Longrightarrow> ld_owner d = Some i"
  by (simp add: load_inv_def)

lemma load_inv_step:
  assumes "load_step i d d'" and inv: "load_inv d"
  shows "load_inv d'"
proof -
  have lk: "holds_lock (ld_pc d j) \<longleftrightarrow> ld_owner d = Some j" for j using inv by (simp add: load_inv_def)
  have knows: "pc_knows d (ld_pc d i)" using inv by (simp add: load_inv_def)
  have own: "ld_owner d = Some i" if "holds_lock (ld_pc d i)" using inv that by (rule load_inv_owns)
  have none: "ld_loads d = []" if "ld_module d = 0" "ld_owner d = Some i" "\<forall>m. ld_pc d i \<noteq> Loaded m"
  proof -
    have "j = i" if "ld_pc d j = Loaded m" for j m using lk [of j] that \<open>ld_owner d = Some i\<close> by (simp add: holds_lock_def)
    then have "\<not> (\<exists>j m. ld_pc d j = Loaded m)" using that(3) by blast
    then show ?thesis using inv that(1) by (auto simp: load_inv_def)
  qed
  have same: "holds_lock (((ld_pc d)(i := pc)) j) \<longleftrightarrow> ld_owner d = Some j" if "holds_lock pc \<longleftrightarrow> holds_lock (ld_pc d i)" for pc j
    using lk that by (cases "j = i") auto
  have loads: "if ld_module d = 0 then ld_loads d = [] \<or> (\<exists>m. ld_pc d i = Loaded m) else ld_loads d = [ld_module d]"
    if "ld_owner d = Some i" using none that inv by (auto simp: load_inv_def)
  from assms(1) show ?thesis
  proof (cases rule: load_step.cases)
    case lock
    have "holds_lock (((ld_pc d)(i := HaveLock)) j) \<longleftrightarrow> Some i = Some j" for j
      using lk [of j] lock by (cases "j = i") auto
    then show ?thesis using lock by (intro load_inv_goto [OF inv, of _ i HaveLock]) auto
  next
    case (unlock r)
    then have "ld_owner d = Some i" using own by simp
    then have "holds_lock (((ld_pc d)(i := Left r)) j) \<longleftrightarrow> None = Some j" for j using lk [of j] by (cases "j = i") auto
    then show ?thesis using unlock knows by (intro load_inv_goto [OF inv, of _ i "Left r"]) auto
  qed (use own knows loads same in
    \<open>auto intro: load_inv_goto [OF inv, of _ i] load_inv_owner [OF inv, of i]\<close>)
qed

lemma load_inv_reach: "load_reach d \<Longrightarrow> load_inv d"
  by (induction rule: load_reach.induct) (auto intro: load_inv_init load_inv_step)

lemma load_inv_once:
  assumes "load_inv d"
  shows "length (ld_loads d) \<le> 1"
proof (cases "ld_module d = 0 \<and> (\<exists>i m. ld_pc d i = Loaded m)")
  case True
  then obtain i m where "ld_pc d i = Loaded m" by blast
  moreover have "pc_knows d (ld_pc d i)" using assms by (simp add: load_inv_def)
  ultimately show ?thesis by simp
next
  case False
  then show ?thesis using assms by (auto simp: load_inv_def split: if_splits)
qed

section \<open>Progress\<close>

lemma holder_steps: "load_inv d \<Longrightarrow> holds_lock (ld_pc d i) \<Longrightarrow> \<exists>d'. load_step i d d'"
proof (cases "ld_pc d i")
  case HaveLock
  then show ?thesis by (cases "ld_module d = 0") (auto intro: load_step.intros)
next
  case Notify
  assume "load_inv d"
  with Notify have "ld_module d \<noteq> 0" by (auto simp: load_inv_def pc_knows_def dest: spec [of _ i])
  with Notify show ?thesis by (blast intro: load_step.notify)
qed (auto simp: holds_lock_def intro: load_step.intros)

lemma load_progress:
  assumes "load_inv d" and "\<forall>r. ld_pc d i \<noteq> Left r"
  shows "\<exists>j d'. load_step j d d' \<and> (j = i \<or> ld_owner d = Some j)"
proof (cases "ld_pc d i")
  case Enter
  then show ?thesis using load_step.fast load_step.slow by blast
next
  case WantLock
  show ?thesis
  proof (cases "ld_owner d")
    case None
    then show ?thesis using WantLock load_step.lock by blast
  next
    case (Some j)
    then have "holds_lock (ld_pc d j)" using assms(1) by (simp add: load_inv_def)
    then show ?thesis using holder_steps [OF assms(1)] Some by blast
  qed
qed (use assms holder_steps [of d i] in \<open>auto simp: holds_lock_def\<close>)

text \<open>
  The DLL is loaded once, for any number of goroutines and every interleaving of their calls. Of all calls at
  most one \<open>LoadLibraryEx\<close> succeeds; a call that returned without error finds the module published; at most
  one goroutine is inside the locked part; and as long as some call has not returned, it or the owner of the lock can take a
  step, so that the nested call from \<open>onLoad\<close> cannot wait for the lock its own goroutine holds.
\<close>

theorem lazy_load_once:
  assumes "load_reach d"
  shows "length (ld_loads d) \<le> 1 \<and>
    (\<forall>i. ld_pc d i = Left LoadOk \<longrightarrow> ld_module d \<noteq> 0 \<and> ld_loads d = [ld_module d]) \<and>
    (\<forall>i j. holds_lock (ld_pc d i) \<and> holds_lock (ld_pc d j) \<longrightarrow> i = j) \<and>
    (\<forall>i. (\<exists>r. ld_pc d i = Left r) \<or> (\<exists>j d'. load_step j d d' \<and> (j = i \<or> ld_owner d = Some j)))"
proof -
  have inv: "load_inv d" using assms by (rule load_inv_reach)
  have knows: "pc_knows d (ld_pc d i)" for i using inv by (simp add: load_inv_def)
  have "ld_module d \<noteq> 0 \<and> ld_loads d = [ld_module d]" if "ld_pc d i = Left LoadOk" for i
    using knows [of i] that inv by (auto simp: pc_knows_def load_inv_def)
  moreover have "i = j" if "holds_lock (ld_pc d i)" "holds_lock (ld_pc d j)" for i j
    using inv that by (metis load_inv_owns option.inject)
  ultimately show ?thesis using load_inv_once [OF inv] load_progress [OF inv] by blast
qed

text \<open>Two goroutines: the first has published the module \<open>7\<close> and runs \<open>onLoad\<close>, the second then enters.\<close>

definition sample_dll_state :: lazyDLL where
  "sample_dll_state = \<lparr>ld_module = 7, ld_owner = Some 0, ld_pc = (\<lambda>_. Enter)(0 := Notify), ld_loads = [7]\<rparr>"

lemma sample_dll_reach: "load_reach sample_dll_state"
proof -
  let ?pcs = "\<lambda>pc. (\<lambda>_. Enter)(0 := pc) :: nat \<Rightarrow> load_pc"
  have "load_reach \<lparr>ld_module = 0, ld_owner = None, ld_pc = ?pcs WantLock, ld_loads = []\<rparr>"
    using load_reach.step [OF load_reach.init load_step.slow [of newLazyDLL 0]] by (simp add: newLazyDLL_def goto_def)
  from load_reach.step [OF this load_step.lock [of _ 0]]
  have "load_reach \<lparr>ld_module = 0, ld_owner = Some 0, ld_pc = ?pcs HaveLock, ld_loads = []\<rparr>" by (simp add: goto_def)
  from load_reach.step [OF this load_step.recheck_load [of _ 0]]
  have "load_reach \<lparr>ld_module = 0, ld_owner = Some 0, ld_pc = ?pcs Loading, ld_loads = []\<rparr>" by (simp add: goto_def)
  from load_reach.step [OF this load_step.load_ok [of _ 0 7]]
  have "load_reach \<lparr>ld_module = 0, ld_owner = Some 0, ld_pc = ?pcs (Loaded 7), ld_loads = [7]\<rparr>" by (simp add: goto_def)
  from load_reach.step [OF this load_step.publish [of _ 0 7]]
  show ?thesis by (simp add: goto_def sample_dll_state_def)
qed

theorem lazy_load_once_witness:
  "length (ld_loads sample_dll_state) \<le> 1 \<and> (\<exists>j d'. load_step j sample_dll_state d' \<and> (j = 0 \<or> ld_owner sample_dll_state = Some j))"
proof -
  have "(\<exists>r. ld_pc sample_dll_state 0 = Left r) \<or> (\<exists>j d'. load_step j sample_dll_state d' \<and> (j = 0 \<or> ld_owner sample_dll_state = Some j))"
    using lazy_load_once [OF sample_dll_reach] by blast
  moreover have "ld_pc sample_dll_state 0 = Notify" by (simp add: sample_dll_state_def)
  ultimately show ?thesis using lazy_load_once [OF sample_dll_reach] by simp
qed

section \<open>Find and Addr\<close>

text \<open>
  \<open>lazyProc.Find\<close> by one goroutine: the address that was found earlier, the load of the DLL and the lookup in it.
  \<open>Addr\<close> panics with the error.
\<close>

definition dll_Name :: string where
  "dll_Name = ''wintun.dll''"

definition load_failed :: "string \<Rightarrow> string" where
  "load_failed e = ''Error loading '' @ dll_Name @ '' DLL: '' @ e"

definition name_failed :: "string \<Rightarrow> string \<Rightarrow> string" where
  "name_failed p e = ''Error getting '' @ p @ '' address: '' @ e"

definition lazyProc_Find :: "string \<Rightarrow> 64 word \<Rightarrow> load_result \<Rightarrow> (string + 64 word) \<Rightarrow> string + 64 word" where
  "lazyProc_Find name paddr load nameToAddr =
     (if paddr \<noteq> 0 then Inr paddr
      else case load of
             LoadErr e \<Rightarrow> Inl (load_failed e)
           | LoadPanic e \<Rightarrow> Inl e
           | LoadOk \<Rightarrow> (case nameToAddr of Inl e \<Rightarrow> Inl (name_failed name e) | Inr a \<Rightarrow> Inr a))"

definition lazyProc_Addr :: "string \<Rightarrow> 64 word \<Rightarrow> load_result \<Rightarrow> (string + 64 word) \<Rightarrow> (64 word) go" where
  "lazyProc_Addr name paddr load nameToAddr =
     (case lazyProc_Find name paddr load nameToAddr of Inl e \<Rightarrow> Panic e | Inr a \<Rightarrow> Ret a)"

end
