(* ===== verification/Lazy_Proc.thy ===== *)
theory Lazy_Proc
  imports Lazy_Load
begin

text \<open>
  The procedures of the driver's DLL, looked up on first use (\<open>lazyProc.Find\<close> of \<open>node/tun/wintun/dll_windows.go\<close>),
  for any number of goroutines and procedures: a second layer of double-checked locking on top of
  \<open>lazyDLL.Load\<close>. A goroutine takes the lock of the procedure and, inside it, the lock of the DLL. The DLL is the state
  of theory \<open>Lazy_Load\<close>, whose steps a goroutine makes while it is inside \<open>Load\<close>. \<open>GetProcAddress\<close> is the argument
  \<open>lookup\<close>. The procedure object of the nested call in \<open>onLoad\<close> is a fresh one, which no other
  goroutine knows, so its lock is not part of the state.
\<close>

section \<open>Find as a state machine\<close>

datatype find_result = FindOk | FindErr string | FindPanic string

datatype find_pc =
    FEnter string  \<comment> \<open>before the check without the lock\<close>
  | FWantLock string
  | FHaveLock string  \<comment> \<open>before the second check\<close>
  | FLoad string  \<comment> \<open>in \<open>p.dll.Load()\<close>\<close>
  | FName string  \<comment> \<open>before \<open>p.nameToAddr()\<close>\<close>
  | FStore string "64 word"
  | FLeave string find_result  \<comment> \<open>before the deferred unlock\<close>
  | FLeft string find_result

record lazyProcs =
  lp_dll :: lazyDLL
  lp_addr :: "string \<Rightarrow> 64 word"
  lp_owner :: "string \<Rightarrow> nat option"
  lp_pc :: "nat \<Rightarrow> find_pc"

definition at_pc :: "nat \<Rightarrow> find_pc \<Rightarrow> lazyProcs \<Rightarrow> lazyProcs" where
  "at_pc i pc s = s\<lparr>lp_pc := (lp_pc s)(i := pc)\<rparr>"

inductive find_step :: "(64 word \<Rightarrow> string \<Rightarrow> string + 64 word) \<Rightarrow> nat \<Rightarrow> lazyProcs \<Rightarrow> lazyProcs \<Rightarrow> bool" for lookup where
  call: "lp_pc s i = FLeft q r \<Longrightarrow> find_step lookup i s (at_pc i (FEnter p) s)"
| fast: "lp_pc s i = FEnter p \<Longrightarrow> lp_addr s p \<noteq> 0 \<Longrightarrow> find_step lookup i s (at_pc i (FLeft p FindOk) s)"
| slow: "lp_pc s i = FEnter p \<Longrightarrow> lp_addr s p = 0 \<Longrightarrow> find_step lookup i s (at_pc i (FWantLock p) s)"
| lock: "lp_pc s i = FWantLock p \<Longrightarrow> lp_owner s p = None \<Longrightarrow>
    find_step lookup i s (at_pc i (FHaveLock p) (s\<lparr>lp_owner := (lp_owner s)(p := Some i)\<rparr>))"
| recheck_ok: "lp_pc s i = FHaveLock p \<Longrightarrow> lp_addr s p \<noteq> 0 \<Longrightarrow> find_step lookup i s (at_pc i (FLeave p FindOk) s)"
| recheck_load: "lp_pc s i = FHaveLock p \<Longrightarrow> lp_addr s p = 0 \<Longrightarrow>
    find_step lookup i s (at_pc i (FLoad p) (s\<lparr>lp_dll := goto i Enter (lp_dll s)\<rparr>))"
| load: "lp_pc s i = FLoad p \<Longrightarrow> load_step i (lp_dll s) d \<Longrightarrow> find_step lookup i s (s\<lparr>lp_dll := d\<rparr>)"
| load_ok: "lp_pc s i = FLoad p \<Longrightarrow> ld_pc (lp_dll s) i = Left LoadOk \<Longrightarrow> find_step lookup i s (at_pc i (FName p) s)"
| load_err: "lp_pc s i = FLoad p \<Longrightarrow> ld_pc (lp_dll s) i = Left (LoadErr e) \<Longrightarrow>
    find_step lookup i s (at_pc i (FLeave p (FindErr (load_failed e))) s)"
| load_panic: "lp_pc s i = FLoad p \<Longrightarrow> ld_pc (lp_dll s) i = Left (LoadPanic e) \<Longrightarrow>
    find_step lookup i s (at_pc i (FLeave p (FindPanic e)) s)"
| name_ok: "lp_pc s i = FName p \<Longrightarrow> lookup (ld_module (lp_dll s)) p = Inr a \<Longrightarrow> find_step lookup i s (at_pc i (FStore p a) s)"
| name_err: "lp_pc s i = FName p \<Longrightarrow> lookup (ld_module (lp_dll s)) p = Inl e \<Longrightarrow>
    find_step lookup i s (at_pc i (FLeave p (FindErr (name_failed p e))) s)"
| store: "lp_pc s i = FStore p a \<Longrightarrow>
    find_step lookup i s (at_pc i (FLeave p FindOk) (s\<lparr>lp_addr := (lp_addr s)(p := a)\<rparr>))"
| unlock: "lp_pc s i = FLeave p r \<Longrightarrow>
    find_step lookup i s (at_pc i (FLeft p r) (s\<lparr>lp_owner := (lp_owner s)(p := None)\<rparr>))"

text \<open>The start: no address is known, and every goroutine is between two calls.\<close>

definition newProcs :: lazyProcs where
  "newProcs = \<lparr>lp_dll = newLazyDLL, lp_addr = (\<lambda>_. 0), lp_owner = (\<lambda>_. None), lp_pc = (\<lambda>_. FLeft [] (FindErr []))\<rparr>"

inductive find_reach :: "(64 word \<Rightarrow> string \<Rightarrow> string + 64 word) \<Rightarrow> lazyProcs \<Rightarrow> bool" for lookup where
  init: "find_reach lookup newProcs"
| step: "find_reach lookup s \<Longrightarrow> find_step lookup i s s' \<Longrightarrow> find_reach lookup s'"

section \<open>Invariant\<close>

text \<open>The procedure whose lock a goroutine holds at a program point.\<close>

fun locked :: "find_pc \<Rightarrow> string option" where
  "locked (FHaveLock p) = Some p"
| "locked (FLoad p) = Some p"
| "locked (FName p) = Some p"
| "locked (FStore p a) = Some p"
| "locked (FLeave p r) = Some p"
| "locked _ = None"

text \<open>What a goroutine knows at a program point, and where it may be inside \<open>Load\<close>.\<close>

fun find_knows :: "(64 word \<Rightarrow> string \<Rightarrow> string + 64 word) \<Rightarrow> lazyProcs \<Rightarrow> nat \<Rightarrow> find_pc \<Rightarrow> bool" where
  "find_knows lookup s i (FLoad p) \<longleftrightarrow> lp_addr s p = 0"
| "find_knows lookup s i (FName p) \<longleftrightarrow> lp_addr s p = 0 \<and> ld_module (lp_dll s) \<noteq> 0"
| "find_knows lookup s i (FStore p a) \<longleftrightarrow> lp_addr s p = 0 \<and> ld_module (lp_dll s) \<noteq> 0 \<and> lookup (ld_module (lp_dll s)) p = Inr a"
| "find_knows lookup s i (FLeave p r) \<longleftrightarrow> (r = FindOk \<longrightarrow> lp_addr s p \<noteq> 0)"
| "find_knows lookup s i (FLeft p r) \<longleftrightarrow> (r = FindOk \<longrightarrow> lp_addr s p \<noteq> 0)"
| "find_knows lookup s i _ \<longleftrightarrow> True"

definition addrs_ok :: "(64 word \<Rightarrow> string \<Rightarrow> string + 64 word) \<Rightarrow> lazyProcs \<Rightarrow> bool" where
  "addrs_ok lookup s \<longleftrightarrow>
     (\<forall>p. lp_addr s p \<noteq> 0 \<longrightarrow> ld_module (lp_dll s) \<noteq> 0 \<and> lookup (ld_module (lp_dll s)) p = Inr (lp_addr s p))"

definition find_inv :: "(64 word \<Rightarrow> string \<Rightarrow> string + 64 word) \<Rightarrow> lazyProcs \<Rightarrow> bool" where
  "find_inv lookup s \<longleftrightarrow> load_inv (lp_dll s) \<and> addrs_ok lookup s \<and>
     (\<forall>i p. locked (lp_pc s i) = Some p \<longleftrightarrow> lp_owner s p = Some i) \<and>
     (\<forall>i. find_knows lookup s i (lp_pc s i)) \<and>
     (\<forall>i. (\<exists>p. lp_pc s i = FLoad p) \<or> \<not> holds_lock (ld_pc (lp_dll s) i))"

lemma at_pc_simps [simp]:
  "lp_dll (at_pc i pc s) = lp_dll s" "lp_addr (at_pc i pc s) = lp_addr s" "lp_owner (at_pc i pc s) = lp_owner s"
  "lp_pc (at_pc i pc s) = (lp_pc s)(i := pc)"
  by (simp_all add: at_pc_def)

lemma find_inv_init: "find_inv lookup newProcs"
  by (simp add: find_inv_def newProcs_def load_inv_init addrs_ok_def) (simp add: newLazyDLL_def)

text \<open>A module that is published stays, and a step of \<open>Load\<close> moves its own goroutine only.\<close>

lemma load_module_stays: "load_step i d d' \<Longrightarrow> load_inv d \<Longrightarrow> ld_module d \<noteq> 0 \<Longrightarrow> ld_module d' = ld_module d"
proof (induction rule: load_step.induct)
  case (publish d i m)
  then show ?case by (metis load_inv_def pc_knows_simps(5))
qed simp_all

lemma load_step_others: "load_step i d d' \<Longrightarrow> j \<noteq> i \<Longrightarrow> ld_pc d' j = ld_pc d j"
  by (induction rule: load_step.induct) simp_all

lemma find_knows_mono:
  assumes "find_knows lookup s i pc" and "lp_addr s' = lp_addr s"
    and "ld_module (lp_dll s) \<noteq> 0 \<longrightarrow> ld_module (lp_dll s') = ld_module (lp_dll s)"
  shows "find_knows lookup s' i pc"
  using assms by (cases pc) auto

lemma find_invI:
  assumes "load_inv (lp_dll s)" and "addrs_ok lookup s" and "\<And>i p. locked (lp_pc s i) = Some p \<longleftrightarrow> lp_owner s p = Some i"
    and "\<And>i. find_knows lookup s i (lp_pc s i)" and "\<And>i. (\<exists>p. lp_pc s i = FLoad p) \<or> \<not> holds_lock (ld_pc (lp_dll s) i)"
  shows "find_inv lookup s"
  unfolding find_inv_def using assms by blast

lemma find_invD:
  assumes "find_inv lookup s"
  shows "load_inv (lp_dll s)" and "addrs_ok lookup s" and "locked (lp_pc s i) = Some p \<longleftrightarrow> lp_owner s p = Some i"
    and "find_knows lookup s i (lp_pc s i)" and "(\<exists>p. lp_pc s i = FLoad p) \<or> \<not> holds_lock (ld_pc (lp_dll s) i)"
  using assms unfolding find_inv_def by blast+

text \<open>A step that moves one goroutine and perhaps a lock, and leaves addresses and DLL alone.\<close>

lemma find_inv_goto:
  assumes inv: "find_inv lookup s" and s': "lp_dll s' = lp_dll s" "lp_addr s' = lp_addr s" "lp_pc s' = (lp_pc s)(i := pc)"
    and pc: "find_knows lookup s i pc" "(\<exists>p. pc = FLoad p) \<or> \<not> holds_lock (ld_pc (lp_dll s) i)"
    and lock: "\<And>j p. locked (((lp_pc s)(i := pc)) j) = Some p \<longleftrightarrow> lp_owner s' p = Some j"
  shows "find_inv lookup s'"
proof (rule find_invI)
  note old = find_invD [OF inv]
  show "find_knows lookup s' j (lp_pc s' j)" for j
    by (rule find_knows_mono [of lookup s]) (use old(4) [of j] pc(1) s' in \<open>simp_all\<close>)
  show "(\<exists>p. lp_pc s' j = FLoad p) \<or> \<not> holds_lock (ld_pc (lp_dll s') j)" for j
    using old(5) [of j] pc(2) s' by simp
  show "load_inv (lp_dll s')" "addrs_ok lookup s'" using old(1,2) s' by (simp_all add: addrs_ok_def)
  show "locked (lp_pc s' j) = Some p \<longleftrightarrow> lp_owner s' p = Some j" for j p using lock s'(3) by simp
qed

lemma same_lock:
  assumes "find_inv lookup s" and "locked pc = locked (lp_pc s i)"
  shows "locked (((lp_pc s)(i := pc)) j) = Some p \<longleftrightarrow> lp_owner s p = Some j"
  using find_invD(3) [OF assms(1), of j p] assms(2) by (cases "j = i") simp_all

text \<open>The steps of \<open>Load\<close> and its start.\<close>

lemma find_inv_load:
  assumes inv: "find_inv lookup s" and pc: "lp_pc s i = FLoad p" and step: "load_step i (lp_dll s) d"
  shows "find_inv lookup (s\<lparr>lp_dll := d\<rparr>)"
proof (rule find_invI)
  note old = find_invD [OF inv]
  have m: "ld_module (lp_dll s) \<noteq> 0 \<longrightarrow> ld_module d = ld_module (lp_dll s)" using load_module_stays [OF step old(1)] by simp
  show "find_knows lookup (s\<lparr>lp_dll := d\<rparr>) j (lp_pc (s\<lparr>lp_dll := d\<rparr>) j)" for j
    by (rule find_knows_mono [of lookup s]) (use old(4) [of j] m in simp_all)
  show "(\<exists>q. lp_pc (s\<lparr>lp_dll := d\<rparr>) j = FLoad q) \<or> \<not> holds_lock (ld_pc (lp_dll (s\<lparr>lp_dll := d\<rparr>)) j)" for j
    using old(5) [of j] pc load_step_others [OF step, of j] by (cases "j = i") simp_all
  show "addrs_ok lookup (s\<lparr>lp_dll := d\<rparr>)" using old(2) m by (auto simp: addrs_ok_def)
  show "load_inv (lp_dll (s\<lparr>lp_dll := d\<rparr>))" using load_inv_step [OF step old(1)] by simp
  show "locked (lp_pc (s\<lparr>lp_dll := d\<rparr>) j) = Some q \<longleftrightarrow> lp_owner (s\<lparr>lp_dll := d\<rparr>) q = Some j" for j q using old(3) by simp
qed

lemma load_inv_restart:
  assumes "load_inv d" and "\<not> holds_lock (ld_pc d i)"
  shows "load_inv (goto i Enter d)"
proof (rule load_inv_goto [OF assms(1), of _ i Enter])
  show "holds_lock (((ld_pc d)(i := Enter)) j) \<longleftrightarrow> ld_owner (goto i Enter d) = Some j" for j
    using assms by (cases "j = i") (auto simp: load_inv_def)
qed (use assms(2) in auto)

lemma find_inv_enter_load:
  assumes inv: "find_inv lookup s" and pc: "lp_pc s i = FHaveLock p" and addr: "lp_addr s p = 0"
  shows "find_inv lookup (at_pc i (FLoad p) (s\<lparr>lp_dll := goto i Enter (lp_dll s)\<rparr>))"
proof (rule find_invI)
  let ?s = "at_pc i (FLoad p) (s\<lparr>lp_dll := goto i Enter (lp_dll s)\<rparr>)"
  note old = find_invD [OF inv]
  have out: "\<not> holds_lock (ld_pc (lp_dll s) i)" using old(5) [of i] pc by simp
  show "find_knows lookup ?s j (lp_pc ?s j)" for j
    by (rule find_knows_mono [of lookup s]) (use old(4) [of j] addr in simp_all)
  show "(\<exists>q. lp_pc ?s j = FLoad q) \<or> \<not> holds_lock (ld_pc (lp_dll ?s) j)" for j
    using old(5) [of j] by (cases "j = i") simp_all
  show "load_inv (lp_dll ?s)" using load_inv_restart [OF old(1) out] by simp
  show "addrs_ok lookup ?s" using old(2) by (simp add: addrs_ok_def)
  show "locked (lp_pc ?s j) = Some q \<longleftrightarrow> lp_owner ?s q = Some j" for j q
    using same_lock [OF inv, of "FLoad p" i j q] pc by simp
qed

text \<open>The store: no other goroutine is between the second check and the store for the same procedure.\<close>

lemma find_inv_store:
  assumes inv: "find_inv lookup s" and pc: "lp_pc s i = FStore p a" and a: "a \<noteq> 0"
  shows "find_inv lookup (at_pc i (FLeave p FindOk) (s\<lparr>lp_addr := (lp_addr s)(p := a)\<rparr>))"
proof (rule find_invI)
  let ?s = "at_pc i (FLeave p FindOk) (s\<lparr>lp_addr := (lp_addr s)(p := a)\<rparr>)"
  note old = find_invD [OF inv]
  have own: "lp_owner s p = Some i" using old(3) [of i p] pc by simp
  show "find_knows lookup ?s j (lp_pc ?s j)" for j
  proof (cases "j = i")
    case True
    then show ?thesis using a by simp
  next
    case False
    then have "locked (lp_pc s j) \<noteq> Some p" using old(3) [of j p] own by simp
    then show ?thesis using False a old(4) [of j] by (cases "lp_pc s j") simp_all
  qed
  show "addrs_ok lookup ?s" using old(2) old(4) [of i] pc by (simp add: addrs_ok_def)
  show "locked (lp_pc ?s j) = Some q \<longleftrightarrow> lp_owner ?s q = Some j" for j q
    using same_lock [OF inv, of "FLeave p FindOk" i j q] pc by simp
  show "(\<exists>q. lp_pc ?s j = FLoad q) \<or> \<not> holds_lock (ld_pc (lp_dll ?s) j)" for j
    using old(5) [of j] pc by (cases "j = i") simp_all
  show "load_inv (lp_dll ?s)" using old(1) by simp
qed

lemma find_inv_step:
  assumes "find_step lookup i s s'" and inv: "find_inv lookup s" and lookup: "\<And>m p. lookup m p \<noteq> Inr 0"
  shows "find_inv lookup s'"
proof -
  note old = find_invD [OF inv] and goto = find_inv_goto [OF inv, of _ i] and same = same_lock [OF inv, of _ i]
  note knows = old(4) [of i] and outside = old(5) [of i] and own = old(3)
  have left: "ld_pc (lp_dll s) i = Left LoadOk \<Longrightarrow> ld_module (lp_dll s) \<noteq> 0"
    using old(1) by (metis load_inv_def pc_knows_simps(8))
  have out: "ld_pc (lp_dll s) i = Left r \<Longrightarrow> \<not> holds_lock (ld_pc (lp_dll s) i)" for r by simp
  from assms(1) show ?thesis
  proof (cases rule: find_step.cases)
    case (lock p)
    have "locked (((lp_pc s)(i := FHaveLock p)) j) = Some q \<longleftrightarrow> ((lp_owner s)(p := Some i)) q = Some j" for j q
      using own [of j q] own [of i q] lock by (cases "j = i") auto
    then show ?thesis using lock outside by (intro goto [of _ "FHaveLock p"]) auto
  next
    case (unlock p r)
    have "locked (((lp_pc s)(i := FLeft p r)) j) = Some q \<longleftrightarrow> ((lp_owner s)(p := None)) q = Some j" for j q
      using own [of j q] own [of i q] unlock by (cases "j = i") auto
    then show ?thesis using unlock outside knows by (intro goto [of _ "FLeft p r"]) auto
  next
    case (recheck_load p)
    then show ?thesis using find_inv_enter_load [OF inv] by blast
  next
    case (load p d)
    then show ?thesis using find_inv_load [OF inv] by blast
  next
    case (store p a)
    then have "a \<noteq> 0" using knows lookup by auto
    then show ?thesis using store find_inv_store [OF inv] by blast
  qed (use outside knows left out same in \<open>auto intro!: goto\<close>)
qed

lemma find_inv_reach: "find_reach lookup s \<Longrightarrow> (\<And>m p. lookup m p \<noteq> Inr 0) \<Longrightarrow> find_inv lookup s"
  by (induction rule: find_reach.induct) (auto intro: find_inv_init find_inv_step)


section \<open>Progress\<close>

text \<open>
  A goroutine that holds the lock of a procedure can go on, or waits for the owner of the lock of the DLL, who can: the locks are
  taken in one order only.
\<close>

lemma dll_owner_loads:
  assumes "find_inv lookup s" and "ld_owner (lp_dll s) = Some k"
  shows "\<exists>q. lp_pc s k = FLoad q"
proof -
  have "holds_lock (ld_pc (lp_dll s) k)" using find_invD(1) [OF assms(1)] assms(2) by (simp add: load_inv_def)
  then show ?thesis using find_invD(5) [OF assms(1), of k] by simp
qed

lemma loading_steps:
  assumes inv: "find_inv lookup s" and pc: "lp_pc s j = FLoad p"
  shows "\<exists>k s'. find_step lookup k s s' \<and> (k = j \<or> ld_owner (lp_dll s) = Some k)"
proof (cases "ld_pc (lp_dll s) j")
  case (Left r)
  then show ?thesis using pc by (cases r) (auto intro: find_step.load_ok find_step.load_err find_step.load_panic)
qed (use load_progress [OF find_invD(1) [OF inv], of j] pc dll_owner_loads [OF inv] in
  \<open>fastforce intro: find_step.load\<close>)+

lemma find_holder_steps:
  assumes inv: "find_inv lookup s" and own: "lp_owner s p = Some j"
  shows "\<exists>k s'. find_step lookup k s s' \<and> (k = j \<or> ld_owner (lp_dll s) = Some k)"
proof (cases "lp_pc s j")
  case (FHaveLock q)
  then show ?thesis by (cases "lp_addr s q = 0") (auto intro: find_step.recheck_ok find_step.recheck_load)
next
  case (FLoad q)
  then show ?thesis by (rule loading_steps [OF inv])
next
  case (FName q)
  then show ?thesis
    by (cases "lookup (ld_module (lp_dll s)) q") (auto intro: find_step.name_ok find_step.name_err)
next
  case (FStore q a)
  then show ?thesis by (auto intro: find_step.store)
next
  case (FLeave q r)
  then show ?thesis by (auto intro: find_step.unlock)
qed (use find_invD(3) [OF inv, of j p] own in simp_all)

text \<open>The goroutines that a call waits for, directly or through the lock of its procedure.\<close>

fun wanted :: "find_pc \<Rightarrow> string option" where
  "wanted (FWantLock p) = Some p"
| "wanted _ = None"

definition waits_for :: "lazyProcs \<Rightarrow> nat \<Rightarrow> nat \<Rightarrow> bool" where
  "waits_for s i k \<longleftrightarrow> k = i \<or> (\<exists>p. wanted (lp_pc s i) = Some p \<and> lp_owner s p = Some k) \<or> ld_owner (lp_dll s) = Some k"

lemma find_progress:
  assumes inv: "find_inv lookup s" and "\<And>p r. lp_pc s i \<noteq> FLeft p r"
  shows "\<exists>k s'. find_step lookup k s s' \<and> waits_for s i k"
proof (cases "lp_pc s i")
  case (FEnter p)
  then show ?thesis
    by (cases "lp_addr s p = 0") (auto simp: waits_for_def intro: find_step.fast find_step.slow)
next
  case (FWantLock p)
  show ?thesis
  proof (cases "lp_owner s p")
    case None
    then show ?thesis using FWantLock by (auto simp: waits_for_def intro: find_step.lock)
  next
    case (Some j)
    then show ?thesis using find_holder_steps [OF inv Some] FWantLock by (auto simp: waits_for_def)
  qed
next
  case (FLeft p r)
  then show ?thesis using assms(2) by simp
qed (use find_holder_steps [OF inv, of _ i] find_invD(3) [OF inv, of i] in \<open>fastforce simp: waits_for_def\<close>)+

text \<open>An address that is found stays, and so does the module it was found in.\<close>

lemma addr_stays:
  assumes "find_step lookup i s s'" and inv: "find_inv lookup s" and "lp_addr s p \<noteq> 0"
  shows "lp_addr s' p = lp_addr s p"
  using assms(1)
proof (cases rule: find_step.cases)
  case (store q a)
  then show ?thesis using find_invD(4) [OF inv, of i] assms(3) by auto
qed simp_all

section \<open>Properties\<close>

text \<open>
  C29: the procedures of the driver are found once and for all, for any number of goroutines and procedures and every interleaving.
  At most one \<open>LoadLibraryEx\<close> succeeds; a call that returned without error finds an address that is the one the
  published module exports under the name of the procedure, and no later step changes it; two goroutines never are in
  the locked part for the same procedure; and a call that has not returned can go on itself or waits for a goroutine that can: the
  owner of the lock of its procedure or of the DLL. \<open>GetProcAddress\<close> is documented to report an
  error instead of a zero address.
\<close>

theorem lazy_procs_found_once:
  assumes "find_reach lookup s" and "\<And>m p. lookup m p \<noteq> Inr 0"
  shows "length (ld_loads (lp_dll s)) \<le> 1 \<and>
    (lp_pc s i = FLeft p FindOk \<longrightarrow> lp_addr s p \<noteq> 0) \<and>
    (lp_addr s p \<noteq> 0 \<longrightarrow> ld_loads (lp_dll s) = [ld_module (lp_dll s)] \<and> lookup (ld_module (lp_dll s)) p = Inr (lp_addr s p)) \<and>
    (lp_addr s p \<noteq> 0 \<and> find_step lookup i s s' \<longrightarrow> lp_addr s' p = lp_addr s p) \<and>
    (locked (lp_pc s i) = Some p \<and> locked (lp_pc s j) = Some p \<longrightarrow> i = j) \<and>
    ((\<exists>q r. lp_pc s i = FLeft q r) \<or> (\<exists>k s'. find_step lookup k s s' \<and> waits_for s i k))"
proof (intro conjI impI)
  have inv: "find_inv lookup s" using assms by (rule find_inv_reach)
  note parts = find_invD [OF inv]
  show "length (ld_loads (lp_dll s)) \<le> 1" using load_inv_once [OF parts(1)] .
  show "lp_addr s p \<noteq> 0" if "lp_pc s i = FLeft p FindOk" using parts(4) [of i] that by simp
  show "lookup (ld_module (lp_dll s)) p = Inr (lp_addr s p)" if "lp_addr s p \<noteq> 0"
    using parts(2) that by (simp add: addrs_ok_def)
  show "ld_loads (lp_dll s) = [ld_module (lp_dll s)]" if "lp_addr s p \<noteq> 0"
    using parts(1,2) that by (auto simp: addrs_ok_def load_inv_def)
  show "lp_addr s' p = lp_addr s p" if "lp_addr s p \<noteq> 0 \<and> find_step lookup i s s'"
    using addr_stays [OF _ inv] that by blast
  show "i = j" if "locked (lp_pc s i) = Some p \<and> locked (lp_pc s j) = Some p"
    using parts(3) [of i p] parts(3) [of j p] that by simp
  show "(\<exists>q r. lp_pc s i = FLeft q r) \<or> (\<exists>k s'. find_step lookup k s s' \<and> waits_for s i k)"
    using find_progress [OF inv, of i] by blast
qed

text \<open>One goroutine finds a procedure in the module \<open>7\<close> while another waits for the lock of the same procedure.\<close>

definition two_callers :: "64 word \<Rightarrow> nat option \<Rightarrow> load_pc \<Rightarrow> 64 word list \<Rightarrow> 64 word \<Rightarrow> nat option \<Rightarrow> find_pc \<Rightarrow> lazyProcs" where
  "two_callers m owner ldpc loads a powner pc =
     \<lparr>lp_dll = \<lparr>ld_module = m, ld_owner = owner, ld_pc = (\<lambda>_. Enter)(0 := ldpc), ld_loads = loads\<rparr>,
      lp_addr = (\<lambda>_. 0)(''p'' := a), lp_owner = (\<lambda>_. None)(''p'' := powner),
      lp_pc = (\<lambda>_. FLeft [] (FindErr []))(0 := pc, 1 := FWantLock ''p'')\<rparr>"

lemma find_reach_via: "find_reach lookup s \<Longrightarrow> find_step lookup i s t \<Longrightarrow> s' = t \<Longrightarrow> find_reach lookup s'"
  using find_reach.step by blast

lemma two_callers_load:
  assumes "find_reach lookup (two_callers m owner ldpc loads a powner (FLoad q))"
    and "load_step 0 \<lparr>ld_module = m, ld_owner = owner, ld_pc = (\<lambda>_. Enter)(0 := ldpc), ld_loads = loads\<rparr> d"
    and "d = \<lparr>ld_module = m', ld_owner = owner', ld_pc = (\<lambda>_. Enter)(0 := ldpc'), ld_loads = loads'\<rparr>"
  shows "find_reach lookup (two_callers m' owner' ldpc' loads' a powner (FLoad q))"
proof (rule find_reach_via [OF assms(1) find_step.load])
  show "lp_pc (two_callers m owner ldpc loads a powner (FLoad q)) 0 = FLoad q" by (simp add: two_callers_def)
  show "load_step 0 (lp_dll (two_callers m owner ldpc loads a powner (FLoad q))) d"
    using assms(2) by (simp add: two_callers_def)
qed (simp add: two_callers_def assms(3))

lemma two_callers_find:
  assumes "find_reach lookup (two_callers m owner ldpc loads a powner pc)"
    and "find_step lookup 0 (two_callers m owner ldpc loads a powner pc) t"
    and "t = two_callers m' owner' ldpc' loads' a' powner' pc'"
  shows "find_reach lookup (two_callers m' owner' ldpc' loads' a' powner' pc')"
  using find_reach_via [OF assms(1,2)] assms(3) by simp

definition sample_lookup :: "64 word \<Rightarrow> string \<Rightarrow> string + 64 word" where
  "sample_lookup m p = (if p = ''p'' then Inr 8 else Inl ''not found'')"

lemma two_callers_waiting: "find_reach lookup (two_callers 0 None Enter [] 0 None (FWantLock ''p''))"
proof -
  have "find_reach lookup (at_pc 0 (FEnter ''p'') newProcs)"
    by (rule find_reach.step [OF find_reach.init find_step.call]) (simp add: newProcs_def)
  then have "find_reach lookup (at_pc 0 (FWantLock ''p'') (at_pc 0 (FEnter ''p'') newProcs))"
    by (rule find_reach.step [OF _ find_step.slow]) (simp_all add: newProcs_def)
  then have "find_reach lookup (at_pc 1 (FEnter ''p'') (at_pc 0 (FWantLock ''p'') (at_pc 0 (FEnter ''p'') newProcs)))"
    by (rule find_reach.step [OF _ find_step.call]) (simp add: newProcs_def)
  then show ?thesis
    by (rule find_reach_via [OF _ find_step.slow [of _ 1 "''p''"]])
      (simp_all add: newProcs_def newLazyDLL_def at_pc_def two_callers_def fun_eq_iff)
qed

lemma two_callers_loaded:
  assumes "find_reach lookup (two_callers 0 None Enter [] 0 (Some 0) (FLoad ''p''))" and "m \<noteq> 0"
  shows "find_reach lookup (two_callers m None (Left LoadOk) [m] 0 (Some 0) (FLoad ''p''))"
proof -
  from assms(1) have "find_reach lookup (two_callers 0 None WantLock [] 0 (Some 0) (FLoad ''p''))"
    by (rule two_callers_load [OF _ load_step.slow]) (simp_all add: goto_def)
  then have "find_reach lookup (two_callers 0 (Some 0) HaveLock [] 0 (Some 0) (FLoad ''p''))"
    by (rule two_callers_load [OF _ load_step.lock]) (simp_all add: goto_def)
  then have "find_reach lookup (two_callers 0 (Some 0) Loading [] 0 (Some 0) (FLoad ''p''))"
    by (rule two_callers_load [OF _ load_step.recheck_load]) (simp_all add: goto_def)
  then have "find_reach lookup (two_callers 0 (Some 0) (Loaded m) [m] 0 (Some 0) (FLoad ''p''))"
    by (rule two_callers_load [OF _ load_step.load_ok [of _ _ m]]) (simp_all add: goto_def assms(2))
  then have "find_reach lookup (two_callers m (Some 0) Notify [m] 0 (Some 0) (FLoad ''p''))"
    by (rule two_callers_load [OF _ load_step.publish]) (simp_all add: goto_def)
  then have "find_reach lookup (two_callers m (Some 0) (Leave LoadOk) [m] 0 (Some 0) (FLoad ''p''))"
    by (rule two_callers_load [OF _ load_step.notify]) (simp_all add: goto_def assms(2))
  then show ?thesis by (rule two_callers_load [OF _ load_step.unlock]) (simp_all add: goto_def)
qed

lemma two_callers_found: "find_reach sample_lookup (two_callers 7 None (Left LoadOk) [7] 8 None (FLeft ''p'' FindOk))"
proof -
  note defs = two_callers_def at_pc_def goto_def fun_eq_iff
  have "find_reach sample_lookup (two_callers 0 None Enter [] 0 (Some 0) (FHaveLock ''p''))"
    by (rule two_callers_find [OF two_callers_waiting find_step.lock [of _ 0 "''p''"]]) (simp_all add: defs)
  then have "find_reach sample_lookup (two_callers 0 None Enter [] 0 (Some 0) (FLoad ''p''))"
    by (rule two_callers_find [OF _ find_step.recheck_load [of _ 0 "''p''"]]) (simp_all add: defs)
  then have "find_reach sample_lookup (two_callers 7 None (Left LoadOk) [7] 0 (Some 0) (FLoad ''p''))"
    by (rule two_callers_loaded) simp
  then have "find_reach sample_lookup (two_callers 7 None (Left LoadOk) [7] 0 (Some 0) (FName ''p''))"
    by (rule two_callers_find [OF _ find_step.load_ok [of _ 0 "''p''"]]) (simp_all add: defs)
  then have "find_reach sample_lookup (two_callers 7 None (Left LoadOk) [7] 0 (Some 0) (FStore ''p'' 8))"
    by (rule two_callers_find [OF _ find_step.name_ok [of _ 0 "''p''"]]) (simp_all add: defs sample_lookup_def)
  then have "find_reach sample_lookup (two_callers 7 None (Left LoadOk) [7] 8 (Some 0) (FLeave ''p'' FindOk))"
    by (rule two_callers_find [OF _ find_step.store [of _ 0 "''p''"]]) (simp_all add: defs)
  then show ?thesis by (rule two_callers_find [OF _ find_step.unlock [of _ 0 "''p''"]]) (simp_all add: defs)
qed

theorem lazy_procs_found_once_witness:
  "let s = two_callers 7 None (Left LoadOk) [7] 8 None (FLeft ''p'' FindOk) in
     find_reach sample_lookup s \<and> lp_addr s ''p'' \<noteq> 0 \<and> sample_lookup (ld_module (lp_dll s)) ''p'' = Inr (lp_addr s ''p'') \<and>
     (\<exists>k s'. find_step sample_lookup k s s' \<and> waits_for s 1 k)"
proof -
  let ?s = "two_callers 7 None (Left LoadOk) [7] 8 None (FLeft ''p'' FindOk)"
  have lookup: "sample_lookup m p \<noteq> Inr 0" for m p by (simp add: sample_lookup_def)
  have pcs: "lp_pc ?s 0 = FLeft ''p'' FindOk" "lp_pc ?s 1 = FWantLock ''p''" by (simp_all add: two_callers_def)
  note once = lazy_procs_found_once [OF two_callers_found lookup]
  have ok: "lp_addr ?s ''p'' \<noteq> 0" using once [of 0 "''p''" ?s 0] pcs(1) by blast
  then have "sample_lookup (ld_module (lp_dll ?s)) ''p'' = Inr (lp_addr ?s ''p'')" using once [of 0 "''p''" ?s 0] by blast
  moreover have "\<exists>k s'. find_step sample_lookup k ?s s' \<and> waits_for ?s 1 k"
    using once [of 1 "''p''" ?s 0] pcs(2) find_pc.distinct by metis
  ultimately show ?thesis using two_callers_found ok unfolding Let_def by blast
qed

end
