(* ===== verification/Pe_Memory.thy ===== *)
theory Pe_Memory
  imports Mesh_Prelude
begin

unbundle bit_operations_syntax

text \<open>
  The memory under the PE loader (\<open>node/tun/wintun/memmod\<close>, 64-bit targets): a byte per
  address, little-endian access to 16-, 32- and 64-bit cells through the casts
  \<open>*(*uint32)(a2p(p))\<close>, \<open>memcpy\<close> and the alignment helpers. Every address is readable in the
  model; whether a page is mapped is not represented. Lemmas: a cell reads back what was
  written, writing changes no byte outside the cell, and \<open>alignDown\<close>/\<open>alignUp\<close> for powers of two.
\<close>

type_synonym addr = "64 word"  \<comment> \<open>\<open>uintptr\<close> on amd64 and arm64\<close>
type_synonym mem = "addr \<Rightarrow> byte"

section \<open>Cells\<close>

primrec peekn :: "nat \<Rightarrow> mem \<Rightarrow> addr \<Rightarrow> nat" where
  "peekn 0 m a = 0"
| "peekn (Suc n) m a = unat (m a) + 256 * peekn n m (a + 1)"

primrec poken :: "nat \<Rightarrow> mem \<Rightarrow> addr \<Rightarrow> nat \<Rightarrow> mem" where
  "poken 0 m a v = m"
| "poken (Suc n) m a v = poken n (m(a := of_nat v)) (a + 1) (v div 256)"

definition peek16 :: "mem \<Rightarrow> addr \<Rightarrow> 16 word" where "peek16 m a = of_nat (peekn 2 m a)"
definition peek32 :: "mem \<Rightarrow> addr \<Rightarrow> 32 word" where "peek32 m a = of_nat (peekn 4 m a)"
definition peek64 :: "mem \<Rightarrow> addr \<Rightarrow> 64 word" where "peek64 m a = of_nat (peekn 8 m a)"

definition poke16 :: "mem \<Rightarrow> addr \<Rightarrow> 16 word \<Rightarrow> mem" where "poke16 m a w = poken 2 m a (unat w)"
definition poke32 :: "mem \<Rightarrow> addr \<Rightarrow> 32 word \<Rightarrow> mem" where "poke32 m a w = poken 4 m a (unat w)"
definition poke64 :: "mem \<Rightarrow> addr \<Rightarrow> 64 word \<Rightarrow> mem" where "poke64 m a w = poken 8 m a (unat w)"

text \<open>\<open>memcpy\<close> between regions that do not overlap: \<open>copy\<close> of two byte slices.\<close>

definition memcpy :: "mem \<Rightarrow> addr \<Rightarrow> addr \<Rightarrow> addr \<Rightarrow> mem" where
  "memcpy m dst src n = (\<lambda>a. if unat (a - dst) < unat n then m (src + (a - dst)) else m a)"

definition alignDown :: "addr \<Rightarrow> addr \<Rightarrow> addr" where
  "alignDown value alignment = value AND NOT (alignment - 1)"

definition alignUp :: "addr \<Rightarrow> addr \<Rightarrow> addr" where
  "alignUp value alignment = (value + alignment - 1) AND NOT (alignment - 1)"

text \<open>The bytes of a cell of \<open>n\<close> bytes.\<close>

definition cell :: "addr \<Rightarrow> nat \<Rightarrow> addr set" where
  "cell a n = (\<lambda>i. a + of_nat i) ` {..<n}"

lemma cell_Suc: "cell a (Suc n) = insert a (cell (a + 1) n)"
proof -
  have "{..<Suc n} = insert 0 (Suc ` {..<n})" by (auto simp: less_Suc_eq_0_disj)
  then show ?thesis by (simp add: cell_def image_image ac_simps)
qed

lemma cell_0 [simp]: "cell a 0 = {}"
  by (simp add: cell_def)

lemma not_in_next: "n < 2 ^ 64 \<Longrightarrow> a \<notin> cell (a + 1) n"
proof
  assume n: "n < 2 ^ 64" and "a \<in> cell (a + 1) n"
  then obtain i where i: "i < n" "a = a + 1 + of_nat i" by (auto simp: cell_def)
  then have "(of_nat (Suc i) :: addr) = 0" by (simp add: ac_simps)
  then have "2 ^ 64 dvd Suc i" by (simp only: word_of_nat_eq_0_iff) simp
  with i(1) n show False by (auto dest: dvd_imp_le)
qed

lemma poken_outside: "b \<notin> cell a n \<Longrightarrow> poken n m a v b = m b"
  by (induction n arbitrary: m a v) (auto simp: cell_Suc)

lemma peekn_cong: "(\<And>b. b \<in> cell a n \<Longrightarrow> m b = m' b) \<Longrightarrow> peekn n m a = peekn n m' a"
  by (induction n arbitrary: a) (auto simp: cell_Suc)

lemma peekn_poken_same: "n < 2 ^ 64 \<Longrightarrow> peekn n (poken n m a v) a = v mod 256 ^ n"
proof (induction n arbitrary: m a v)
  case 0
  then show ?case by simp
next
  case (Suc n)
  have "a \<notin> cell (a + 1) n" using not_in_next [of n a] Suc.prems by simp
  then have "poken n (m(a := of_nat v)) (a + 1) (v div 256) a = of_nat v"
    by (simp add: poken_outside)
  then show ?case using Suc by (simp add: unat_of_nat mod_mult2_eq)
qed

lemma peekn_poken_other: "cell a n \<inter> cell b k = {} \<Longrightarrow> peekn n (poken k m b v) a = peekn n m a"
  by (rule peekn_cong) (auto intro!: poken_outside)

lemma peekn_bound: "peekn n m a < 256 ^ n"
proof (induction n arbitrary: a)
  case 0
  then show ?case by simp
next
  case (Suc n)
  have "unat (m a) < 256" using unsigned_less [of "m a"] by simp
  with Suc [of "a + 1"] show ?case by simp
qed

lemma peek_poke_same [simp]:
  "peek16 (poke16 m a w) a = w" "peek32 (poke32 m a x) a = x" "peek64 (poke64 m a y) a = y"
proof -
  have "unat w < 65536" "unat x < 4294967296" "unat y < 18446744073709551616"
    using unsigned_less [of w] unsigned_less [of x] unsigned_less [of y] by simp_all
  then show "peek16 (poke16 m a w) a = w" "peek32 (poke32 m a x) a = x" "peek64 (poke64 m a y) a = y"
    by (simp_all add: peek16_def poke16_def peek32_def poke32_def peek64_def poke64_def peekn_poken_same)
qed

lemma poke_outside [simp]:
  "b \<notin> cell a 2 \<Longrightarrow> poke16 m a w b = m b" "b \<notin> cell a 4 \<Longrightarrow> poke32 m a x b = m b"
  "b \<notin> cell a 8 \<Longrightarrow> poke64 m a y b = m b"
  by (simp_all add: poke16_def poke32_def poke64_def poken_outside)

lemma peek_cong:
  "(\<And>b. b \<in> cell a 2 \<Longrightarrow> m b = m' b) \<Longrightarrow> peek16 m a = peek16 m' a"
  "(\<And>b. b \<in> cell a 4 \<Longrightarrow> m b = m' b) \<Longrightarrow> peek32 m a = peek32 m' a"
  "(\<And>b. b \<in> cell a 8 \<Longrightarrow> m b = m' b) \<Longrightarrow> peek64 m a = peek64 m' a"
  unfolding peek16_def peek32_def peek64_def by (metis peekn_cong)+

text \<open>Writing back what a cell holds changes nothing.\<close>

lemma poken_peekn: "n < 2 ^ 64 \<Longrightarrow> poken n m a (peekn n m a) = m"
proof (induction n arbitrary: m a)
  case 0
  then show ?case by simp
next
  case (Suc n)
  have lt: "unat (m a) < 256" using unsigned_less [of "m a"] by simp
  have "of_nat (256 * k) = (0 :: byte)" for k by (simp only: word_of_nat_eq_0_iff) simp
  then have low: "of_nat (peekn (Suc n) m a) = m a" by (simp only: peekn.simps of_nat_add) simp
  have "peekn (Suc n) m a div 256 = peekn n m (a + 1)" using lt by simp
  with low Suc show ?case by (simp del: peekn.simps add: fun_upd_triv)
qed

lemma poken_twice: "n < 2 ^ 64 \<Longrightarrow> poken n (poken n m a v) a w = poken n m a w"
proof (induction n arbitrary: m a v w)
  case 0
  then show ?case by simp
next
  case (Suc n)
  have a: "a \<notin> cell (a + 1) n" using not_in_next [of n a] Suc.prems by simp
  have swap: "(poken n (m(a := x)) (a + 1) u)(a := y) = poken n (m(a := y)) (a + 1) u" for x y u
  proof (rule ext)
    fix b
    have "poken k (m(a := x)) c u b = poken k (m(a := y)) c u b" if "b \<noteq> a" "a \<notin> cell c k" for k c u
      using that
    proof (induction k arbitrary: c u m)
      case 0
      then show ?case by simp
    next
      case (Suc k)
      then have c: "a \<noteq> c" "a \<notin> cell (c + 1) k" by (auto simp: cell_Suc)
      have tw: "(m(a := z))(c := of_nat u) = (m(c := of_nat u))(a := z)" for z
        using c(1) by (rule fun_upd_twist)
      show ?case unfolding poken.simps tw by (rule Suc.IH [OF Suc.prems(1) c(2)])
    qed
    then show "((poken n (m(a := x)) (a + 1) u)(a := y)) b = poken n (m(a := y)) (a + 1) u b"
      using a by (cases "b = a") (simp_all add: poken_outside)
  qed
  show ?case using Suc by (simp add: swap)
qed

lemma poke_poke_peek [simp]:
  "poke16 (poke16 m a w) a (peek16 m a) = m" "poke32 (poke32 m a x) a (peek32 m a) = m"
  "poke64 (poke64 m a y) a (peek64 m a) = m"
proof -
  have "peekn 2 m a < 65536" "peekn 4 m a < 4294967296" "peekn 8 m a < 18446744073709551616"
    using peekn_bound [of 2 m a] peekn_bound [of 4 m a] peekn_bound [of 8 m a] by simp_all
  then show "poke16 (poke16 m a w) a (peek16 m a) = m" "poke32 (poke32 m a x) a (peek32 m a) = m"
    "poke64 (poke64 m a y) a (peek64 m a) = m"
    by (simp_all add: poke16_def poke32_def poke64_def peek16_def peek32_def peek64_def poken_twice poken_peekn unat_of_nat)
qed

section \<open>Alignment\<close>

lemma align_mask: "v AND NOT (2 ^ k - 1) = v - take_bit k (v :: addr)"
proof -
  have "v AND NOT (2 ^ k - 1) = push_bit k (drop_bit k v)"
    by (rule bit_word_eqI) (auto simp: bit_simps mask_eq_exp_minus_1 [symmetric])
  also have "\<dots> = v - take_bit k v" using bits_ident [of k v] by (simp add: algebra_simps)
  finally show ?thesis .
qed

lemma unat_align: "unat (v - take_bit k (v :: addr)) = unat v div 2 ^ k * 2 ^ k"
proof -
  have t: "unat (take_bit k v) = unat v mod 2 ^ k" by (subst unsigned_take_bit_eq) (simp add: take_bit_eq_mod)
  then have "take_bit k v \<le> v" by (simp add: word_le_nat_alt)
  then have "unat (v - take_bit k v) = unat v - unat v mod 2 ^ k" by (simp add: unat_sub t)
  then show ?thesis by (simp add: minus_mod_eq_div_mult)
qed

lemma unat_alignDown: "unat (alignDown v (2 ^ k)) = unat v div 2 ^ k * 2 ^ k"
  by (simp add: alignDown_def align_mask unat_align)

lemma unat_alignUp:
  assumes "unat v + 2 ^ k \<le> 2 ^ 64"
  shows "unat (alignUp v (2 ^ k)) = (unat v + 2 ^ k - 1) div 2 ^ k * 2 ^ k"
proof -
  have "of_nat (unat v + 2 ^ k - 1) = (of_nat (unat v + 2 ^ k) - of_nat 1 :: addr)" by (rule of_nat_diff) (simp add: Suc_le_eq)
  then have "v + 2 ^ k - 1 = of_nat (unat v + 2 ^ k - 1)" by simp
  moreover have "unat v + 2 ^ k - 1 < 2 ^ 64" using assms by (simp add: Suc_le_lessD)
  ultimately have "unat (v + 2 ^ k - 1) = unat v + 2 ^ k - 1" by (simp add: unat_of_nat)
  then show ?thesis unfolding alignUp_def align_mask unat_align by simp
qed

end
