(* ===== verification/Pe_Layout.thy ===== *)
theory Pe_Layout
  imports Pe_Memory
begin

text \<open>
  The structures of a PE image as \<open>node/tun/wintun/memmod/syscall_windows.go\<close> and
  \<open>syscall_windows_64.go\<close> declare them, and access to their fields in memory. The loader casts
  addresses to pointers to these structures, so what counts is the offset Go's compiler gives each
  field: every structure is a list of fields with their types, \<open>go_size\<close>, \<open>go_align\<close> and \<open>offsetof\<close>
  compute the layout, and each accessor reads the cell at the field's offset. The lemmas in
  \<open>pe_layout\<close> evaluate the offsets that the loader uses. \<open>uintptr\<close> is 64 bits wide.
\<close>

section \<open>Go's layout of a structure\<close>

datatype gotype = Uint8 | Uint16 | Uint32 | Uintptr | Array nat gotype | Struct "(string \<times> gotype) list"

definition round_up :: "nat \<Rightarrow> nat \<Rightarrow> nat" where
  "round_up n a = (n + a - 1) div a * a"

fun go_align :: "gotype \<Rightarrow> nat" where
  "go_align Uint8 = 1"
| "go_align Uint16 = 2"
| "go_align Uint32 = 4"
| "go_align Uintptr = 8"
| "go_align (Array n t) = go_align t"
| "go_align (Struct fs) = foldl (\<lambda>a f. max a (go_align (snd f))) 1 fs"

fun go_size :: "gotype \<Rightarrow> nat" where
  "go_size Uint8 = 1"
| "go_size Uint16 = 2"
| "go_size Uint32 = 4"
| "go_size Uintptr = 8"
| "go_size (Array n t) = n * go_size t"
| "go_size (Struct fs) =
     round_up (foldl (\<lambda>off f. round_up off (go_align (snd f)) + go_size (snd f)) 0 fs) (go_align (Struct fs))"

primrec offset_from :: "nat \<Rightarrow> (string \<times> gotype) list \<Rightarrow> string \<Rightarrow> nat" where
  "offset_from off [] name = off"
| "offset_from off (f # fs) name =
     (if fst f = name then round_up off (go_align (snd f))
      else offset_from (round_up off (go_align (snd f)) + go_size (snd f)) fs name)"

definition offsetof :: "(string \<times> gotype) list \<Rightarrow> string \<Rightarrow> nat" where
  "offsetof fs name = offset_from 0 fs name"

definition fieldp :: "(string \<times> gotype) list \<Rightarrow> string \<Rightarrow> addr \<Rightarrow> addr" where
  "fieldp fs name p = p + of_nat (offsetof fs name)"

section \<open>The structures\<close>

definition IMAGE_DOS_HEADER :: "(string \<times> gotype) list" where
  "IMAGE_DOS_HEADER =
     [(''E_magic'', Uint16), (''E_cblp'', Uint16), (''E_cp'', Uint16), (''E_crlc'', Uint16),
      (''E_cparhdr'', Uint16), (''E_minalloc'', Uint16), (''E_maxalloc'', Uint16), (''E_ss'', Uint16),
      (''E_sp'', Uint16), (''E_csum'', Uint16), (''E_ip'', Uint16), (''E_cs'', Uint16),
      (''E_lfarlc'', Uint16), (''E_ovno'', Uint16), (''E_res'', Array 4 Uint16), (''E_oemid'', Uint16),
      (''E_oeminfo'', Uint16), (''E_res2'', Array 10 Uint16), (''E_lfanew'', Uint32)]"

definition IMAGE_FILE_HEADER :: "(string \<times> gotype) list" where
  "IMAGE_FILE_HEADER =
     [(''Machine'', Uint16), (''NumberOfSections'', Uint16), (''TimeDateStamp'', Uint32),
      (''PointerToSymbolTable'', Uint32), (''NumberOfSymbols'', Uint32),
      (''SizeOfOptionalHeader'', Uint16), (''Characteristics'', Uint16)]"

definition IMAGE_DATA_DIRECTORY :: "(string \<times> gotype) list" where
  "IMAGE_DATA_DIRECTORY = [(''VirtualAddress'', Uint32), (''Size'', Uint32)]"

definition IMAGE_OPTIONAL_HEADER :: "(string \<times> gotype) list" where
  "IMAGE_OPTIONAL_HEADER =
     [(''Magic'', Uint16), (''MajorLinkerVersion'', Uint8), (''MinorLinkerVersion'', Uint8),
      (''SizeOfCode'', Uint32), (''SizeOfInitializedData'', Uint32), (''SizeOfUninitializedData'', Uint32),
      (''AddressOfEntryPoint'', Uint32), (''BaseOfCode'', Uint32), (''ImageBase'', Uintptr),
      (''SectionAlignment'', Uint32), (''FileAlignment'', Uint32),
      (''MajorOperatingSystemVersion'', Uint16), (''MinorOperatingSystemVersion'', Uint16),
      (''MajorImageVersion'', Uint16), (''MinorImageVersion'', Uint16),
      (''MajorSubsystemVersion'', Uint16), (''MinorSubsystemVersion'', Uint16),
      (''Win32VersionValue'', Uint32), (''SizeOfImage'', Uint32), (''SizeOfHeaders'', Uint32),
      (''CheckSum'', Uint32), (''Subsystem'', Uint16), (''DllCharacteristics'', Uint16),
      (''SizeOfStackReserve'', Uintptr), (''SizeOfStackCommit'', Uintptr),
      (''SizeOfHeapReserve'', Uintptr), (''SizeOfHeapCommit'', Uintptr), (''LoaderFlags'', Uint32),
      (''NumberOfRvaAndSizes'', Uint32), (''DataDirectory'', Array 16 (Struct IMAGE_DATA_DIRECTORY))]"

definition IMAGE_NT_HEADERS :: "(string \<times> gotype) list" where
  "IMAGE_NT_HEADERS =
     [(''Signature'', Uint32), (''FileHeader'', Struct IMAGE_FILE_HEADER),
      (''OptionalHeader'', Struct IMAGE_OPTIONAL_HEADER)]"

definition IMAGE_SECTION_HEADER :: "(string \<times> gotype) list" where
  "IMAGE_SECTION_HEADER =
     [(''Name'', Array 8 Uint8), (''physicalAddressOrVirtualSize'', Uint32), (''VirtualAddress'', Uint32),
      (''SizeOfRawData'', Uint32), (''PointerToRawData'', Uint32), (''PointerToRelocations'', Uint32),
      (''PointerToLinenumbers'', Uint32), (''NumberOfRelocations'', Uint16), (''NumberOfLinenumbers'', Uint16),
      (''Characteristics'', Uint32)]"

definition IMAGE_EXPORT_DIRECTORY :: "(string \<times> gotype) list" where
  "IMAGE_EXPORT_DIRECTORY =
     [(''Characteristics'', Uint32), (''TimeDateStamp'', Uint32), (''MajorVersion'', Uint16),
      (''MinorVersion'', Uint16), (''Name'', Uint32), (''Base'', Uint32), (''NumberOfFunctions'', Uint32),
      (''NumberOfNames'', Uint32), (''AddressOfFunctions'', Uint32), (''AddressOfNames'', Uint32),
      (''AddressOfNameOrdinals'', Uint32)]"

definition IMAGE_IMPORT_BY_NAME :: "(string \<times> gotype) list" where
  "IMAGE_IMPORT_BY_NAME = [(''Hint'', Uint16), (''Name'', Array 1 Uint8)]"

definition IMAGE_TLS_DIRECTORY :: "(string \<times> gotype) list" where
  "IMAGE_TLS_DIRECTORY =
     [(''StartAddressOfRawData'', Uintptr), (''EndAddressOfRawData'', Uintptr), (''AddressOfIndex'', Uintptr),
      (''AddressOfCallbacks'', Uintptr), (''SizeOfZeroFill'', Uint32), (''Characteristics'', Uint32)]"

definition IMAGE_IMPORT_DESCRIPTOR :: "(string \<times> gotype) list" where
  "IMAGE_IMPORT_DESCRIPTOR =
     [(''characteristicsOrOriginalFirstThunk'', Uint32), (''TimeDateStamp'', Uint32),
      (''ForwarderChain'', Uint32), (''Name'', Uint32), (''FirstThunk'', Uint32)]"

lemmas pe_structs = IMAGE_DOS_HEADER_def IMAGE_FILE_HEADER_def IMAGE_DATA_DIRECTORY_def
  IMAGE_OPTIONAL_HEADER_def IMAGE_NT_HEADERS_def IMAGE_SECTION_HEADER_def IMAGE_EXPORT_DIRECTORY_def
  IMAGE_IMPORT_BY_NAME_def IMAGE_TLS_DIRECTORY_def IMAGE_IMPORT_DESCRIPTOR_def

section \<open>Sizes and offsets\<close>

named_theorems pe_layout

lemma pe_sizes [pe_layout]:
  "go_size (Struct IMAGE_DOS_HEADER) = 64" "go_size (Struct IMAGE_FILE_HEADER) = 20"
  "go_size (Struct IMAGE_OPTIONAL_HEADER) = 240" "go_size (Struct IMAGE_NT_HEADERS) = 264"
  "go_size (Struct IMAGE_SECTION_HEADER) = 40" "go_size (Struct IMAGE_IMPORT_DESCRIPTOR) = 20"
  by (simp_all add: pe_structs round_up_def)

lemma dos_offsets [pe_layout]:
  "offsetof IMAGE_DOS_HEADER ''E_magic'' = 0" "offsetof IMAGE_DOS_HEADER ''E_lfanew'' = 60"
  by (simp_all add: pe_structs offsetof_def round_up_def)

lemma nt_offsets [pe_layout]:
  "offsetof IMAGE_NT_HEADERS ''Signature'' = 0" "offsetof IMAGE_NT_HEADERS ''FileHeader'' = 4"
  "offsetof IMAGE_NT_HEADERS ''OptionalHeader'' = 24"
  "offsetof IMAGE_FILE_HEADER ''Machine'' = 0" "offsetof IMAGE_FILE_HEADER ''NumberOfSections'' = 2"
  "offsetof IMAGE_FILE_HEADER ''SizeOfOptionalHeader'' = 16" "offsetof IMAGE_FILE_HEADER ''Characteristics'' = 18"
  by (simp_all add: pe_structs offsetof_def round_up_def)

lemma optional_offsets [pe_layout]:
  "offsetof IMAGE_OPTIONAL_HEADER ''SizeOfInitializedData'' = 8"
  "offsetof IMAGE_OPTIONAL_HEADER ''SizeOfUninitializedData'' = 12"
  "offsetof IMAGE_OPTIONAL_HEADER ''AddressOfEntryPoint'' = 16"
  "offsetof IMAGE_OPTIONAL_HEADER ''ImageBase'' = 24"
  "offsetof IMAGE_OPTIONAL_HEADER ''SectionAlignment'' = 32"
  "offsetof IMAGE_OPTIONAL_HEADER ''SizeOfImage'' = 56"
  "offsetof IMAGE_OPTIONAL_HEADER ''SizeOfHeaders'' = 60"
  "offsetof IMAGE_OPTIONAL_HEADER ''DataDirectory'' = 112"
  by (simp_all add: pe_structs offsetof_def round_up_def)

lemma section_offsets [pe_layout]:
  "offsetof IMAGE_SECTION_HEADER ''physicalAddressOrVirtualSize'' = 8"
  "offsetof IMAGE_SECTION_HEADER ''VirtualAddress'' = 12" "offsetof IMAGE_SECTION_HEADER ''SizeOfRawData'' = 16"
  "offsetof IMAGE_SECTION_HEADER ''PointerToRawData'' = 20" "offsetof IMAGE_SECTION_HEADER ''Characteristics'' = 36"
  by (simp_all add: pe_structs offsetof_def round_up_def)

lemma directory_offsets [pe_layout]:
  "offsetof IMAGE_DATA_DIRECTORY ''VirtualAddress'' = 0" "offsetof IMAGE_DATA_DIRECTORY ''Size'' = 4"
  "offsetof IMAGE_EXPORT_DIRECTORY ''Base'' = 16" "offsetof IMAGE_EXPORT_DIRECTORY ''NumberOfFunctions'' = 20"
  "offsetof IMAGE_EXPORT_DIRECTORY ''NumberOfNames'' = 24"
  "offsetof IMAGE_EXPORT_DIRECTORY ''AddressOfFunctions'' = 28"
  "offsetof IMAGE_EXPORT_DIRECTORY ''AddressOfNames'' = 32"
  "offsetof IMAGE_EXPORT_DIRECTORY ''AddressOfNameOrdinals'' = 36"
  "offsetof IMAGE_IMPORT_BY_NAME ''Name'' = 2" "offsetof IMAGE_TLS_DIRECTORY ''AddressOfCallbacks'' = 24"
  "offsetof IMAGE_IMPORT_DESCRIPTOR ''characteristicsOrOriginalFirstThunk'' = 0"
  "offsetof IMAGE_IMPORT_DESCRIPTOR ''Name'' = 12" "offsetof IMAGE_IMPORT_DESCRIPTOR ''FirstThunk'' = 16"
  by (simp_all add: pe_structs offsetof_def round_up_def)

declare go_size.simps(6) [simp del]

section \<open>Fields in memory\<close>

definition E_magic :: "mem \<Rightarrow> addr \<Rightarrow> 16 word" where
  "E_magic m p = peek16 m (fieldp IMAGE_DOS_HEADER ''E_magic'' p)"

text \<open>\<open>uintptr(dosHeader.E_lfanew)\<close>: the field is an \<open>int32\<close>, so the conversion extends its sign.\<close>

definition E_lfanew :: "mem \<Rightarrow> addr \<Rightarrow> addr" where
  "E_lfanew m p = scast (peek32 m (fieldp IMAGE_DOS_HEADER ''E_lfanew'' p))"

definition Signature :: "mem \<Rightarrow> addr \<Rightarrow> 32 word" where
  "Signature m p = peek32 m (fieldp IMAGE_NT_HEADERS ''Signature'' p)"

definition file16 :: "string \<Rightarrow> mem \<Rightarrow> addr \<Rightarrow> 16 word" where
  "file16 name m p = peek16 m (fieldp IMAGE_FILE_HEADER name (fieldp IMAGE_NT_HEADERS ''FileHeader'' p))"

definition opt_at :: "string \<Rightarrow> addr \<Rightarrow> addr" where
  "opt_at name p = fieldp IMAGE_OPTIONAL_HEADER name (fieldp IMAGE_NT_HEADERS ''OptionalHeader'' p)"

definition opt32 :: "string \<Rightarrow> mem \<Rightarrow> addr \<Rightarrow> 32 word" where
  "opt32 name m p = peek32 m (opt_at name p)"

definition ImageBase :: "mem \<Rightarrow> addr \<Rightarrow> addr" where
  "ImageBase m p = peek64 m (opt_at ''ImageBase'' p)"

definition set_ImageBase :: "mem \<Rightarrow> addr \<Rightarrow> addr \<Rightarrow> mem" where
  "set_ImageBase m p v = poke64 m (opt_at ''ImageBase'' p) v"

text \<open>\<open>headerDirectory(idx)\<close>: the address of an entry of the data directory.\<close>

definition headerDirectory :: "addr \<Rightarrow> nat \<Rightarrow> addr" where
  "headerDirectory headers idx =
     opt_at ''DataDirectory'' headers + of_nat (idx * go_size (Struct IMAGE_DATA_DIRECTORY))"

definition dir_VirtualAddress :: "mem \<Rightarrow> addr \<Rightarrow> 32 word" where
  "dir_VirtualAddress m d = peek32 m (fieldp IMAGE_DATA_DIRECTORY ''VirtualAddress'' d)"

definition dir_Size :: "mem \<Rightarrow> addr \<Rightarrow> 32 word" where
  "dir_Size m d = peek32 m (fieldp IMAGE_DATA_DIRECTORY ''Size'' d)"

text \<open>\<open>Sections()\<close>: the address of the first section header and the number of headers.\<close>

definition Sections :: "mem \<Rightarrow> addr \<Rightarrow> addr \<times> nat" where
  "Sections m p =
     (fieldp IMAGE_NT_HEADERS ''OptionalHeader'' p + ucast (file16 ''SizeOfOptionalHeader'' m p),
      unat (file16 ''NumberOfSections'' m p))"

definition section_at :: "addr \<Rightarrow> nat \<Rightarrow> addr" where
  "section_at base i = base + of_nat (i * go_size (Struct IMAGE_SECTION_HEADER))"

definition sec32 :: "string \<Rightarrow> mem \<Rightarrow> addr \<Rightarrow> 32 word" where
  "sec32 name m sec = peek32 m (fieldp IMAGE_SECTION_HEADER name sec)"

definition PhysicalAddress :: "mem \<Rightarrow> addr \<Rightarrow> 32 word" where
  "PhysicalAddress m sec = sec32 ''physicalAddressOrVirtualSize'' m sec"

definition SetPhysicalAddress :: "mem \<Rightarrow> addr \<Rightarrow> 32 word \<Rightarrow> mem" where
  "SetPhysicalAddress m sec v = poke32 m (fieldp IMAGE_SECTION_HEADER ''physicalAddressOrVirtualSize'' sec) v"

definition exp32 :: "string \<Rightarrow> mem \<Rightarrow> addr \<Rightarrow> 32 word" where
  "exp32 name m p = peek32 m (fieldp IMAGE_EXPORT_DIRECTORY name p)"

definition imp32 :: "string \<Rightarrow> mem \<Rightarrow> addr \<Rightarrow> 32 word" where
  "imp32 name m p = peek32 m (fieldp IMAGE_IMPORT_DESCRIPTOR name p)"

definition OriginalFirstThunk :: "mem \<Rightarrow> addr \<Rightarrow> 32 word" where
  "OriginalFirstThunk m p = imp32 ''characteristicsOrOriginalFirstThunk'' m p"

definition imageOffset :: "mem \<Rightarrow> addr \<Rightarrow> addr" where
  "imageOffset m p = ImageBase m p AND 0xffffffff00000000"

definition IMAGE_ORDINAL :: "addr \<Rightarrow> addr" where
  "IMAGE_ORDINAL ordinal = ordinal AND 0xffff"

definition IMAGE_SNAP_BY_ORDINAL :: "addr \<Rightarrow> bool" where
  "IMAGE_SNAP_BY_ORDINAL ordinal \<longleftrightarrow> ordinal AND 0x8000000000000000 \<noteq> 0"

section \<open>Constants\<close>

definition IMAGE_DOS_SIGNATURE :: "16 word" where "IMAGE_DOS_SIGNATURE = 0x5A4D"
definition IMAGE_NT_SIGNATURE :: "32 word" where "IMAGE_NT_SIGNATURE = 0x00004550"
definition IMAGE_FILE_DLL :: "16 word" where "IMAGE_FILE_DLL = 0x2000"

datatype goarch = amd64 | arm64

definition imageFileProcess :: "goarch \<Rightarrow> 16 word" where
  "imageFileProcess arch = (case arch of amd64 \<Rightarrow> 0x8664 | arm64 \<Rightarrow> 0xAA64)"

definition IMAGE_DIRECTORY_ENTRY_EXPORT :: nat where "IMAGE_DIRECTORY_ENTRY_EXPORT = 0"
definition IMAGE_DIRECTORY_ENTRY_IMPORT :: nat where "IMAGE_DIRECTORY_ENTRY_IMPORT = 1"
definition IMAGE_DIRECTORY_ENTRY_BASERELOC :: nat where "IMAGE_DIRECTORY_ENTRY_BASERELOC = 5"
definition IMAGE_DIRECTORY_ENTRY_TLS :: nat where "IMAGE_DIRECTORY_ENTRY_TLS = 9"

definition IMAGE_SCN_CNT_INITIALIZED_DATA :: "32 word" where "IMAGE_SCN_CNT_INITIALIZED_DATA = 0x00000040"
definition IMAGE_SCN_CNT_UNINITIALIZED_DATA :: "32 word" where "IMAGE_SCN_CNT_UNINITIALIZED_DATA = 0x00000080"
definition IMAGE_SCN_MEM_DISCARDABLE :: "32 word" where "IMAGE_SCN_MEM_DISCARDABLE = 0x02000000"
definition IMAGE_SCN_MEM_NOT_CACHED :: "32 word" where "IMAGE_SCN_MEM_NOT_CACHED = 0x04000000"

definition DLL_PROCESS_ATTACH :: addr where "DLL_PROCESS_ATTACH = 1"
definition DLL_PROCESS_DETACH :: addr where "DLL_PROCESS_DETACH = 0"

end
