(* ===== verification/Pe_Reloc.thy ===== *)
theory Pe_Reloc
  imports Pe_Memory
begin

unbundle bit_operations_syntax

text \<open>
  Base relocation of a loaded image (\<open>performBaseRelocation\<close> in
  \<open>node/tun/wintun/memmod/memmod_windows.go\<close>): the loop over the blocks of the relocation table,
  the loop over the entries of a block and the patch of each entry type, on the memory the
  table itself lies in. The table ends at a block whose address is zero and nothing bounds it
  otherwise, so the block loop has fuel; \<open>None\<close> means the fuel ran out. The patches are
  compared with the addition they stand for: the 16-, 32- and 64-bit cells, and the pair of
  Thumb-2 instructions that holds a 32-bit immediate.
\<close>

section \<open>Entries\<close>

definition IMAGE_REL_BASED_ABSOLUTE :: "16 word" where "IMAGE_REL_BASED_ABSOLUTE = 0"
definition IMAGE_REL_BASED_HIGH :: "16 word" where "IMAGE_REL_BASED_HIGH = 1"
definition IMAGE_REL_BASED_LOW :: "16 word" where "IMAGE_REL_BASED_LOW = 2"
definition IMAGE_REL_BASED_HIGHLOW :: "16 word" where "IMAGE_REL_BASED_HIGHLOW = 3"
definition IMAGE_REL_BASED_DIR64 :: "16 word" where "IMAGE_REL_BASED_DIR64 = 10"
definition IMAGE_REL_BASED_THUMB_MOV32 :: "16 word" where "IMAGE_REL_BASED_THUMB_MOV32 = 7"

lemmas REL_defs = IMAGE_REL_BASED_ABSOLUTE_def IMAGE_REL_BASED_HIGH_def IMAGE_REL_BASED_LOW_def
  IMAGE_REL_BASED_HIGHLOW_def IMAGE_REL_BASED_DIR64_def IMAGE_REL_BASED_THUMB_MOV32_def

datatype reloc_error =
    WrongMOVW "32 word"
  | WrongMOVT "32 word"
  | ImmediateWontFit "32 word"
  | UnsupportedRelocation "16 word"

text \<open>The immediate of a Thumb-2 MOVW or MOVT instruction, and the instruction with a new one.\<close>

definition thumb_imm :: "32 word \<Rightarrow> 32 word" where
  "thumb_imm inst = (push_bit 1 inst AND 0x0800) + (push_bit 12 inst AND 0xf000) +
     (drop_bit 20 inst AND 0x0700) + (drop_bit 16 inst AND 0x00ff)"

definition thumb_put :: "32 word \<Rightarrow> 32 word \<Rightarrow> 32 word" where
  "thumb_put inst imm16 = (inst AND 0x8f00fbf0) + (drop_bit 1 imm16 AND 0x0400) +
     (drop_bit 12 imm16 AND 0x000f) + (push_bit 20 imm16 AND 0x70000000) + (push_bit 16 imm16 AND 0xff0000)"

definition reloc_thumb :: "addr \<Rightarrow> addr \<Rightarrow> mem \<Rightarrow> reloc_error option \<times> mem" where
  "reloc_thumb delta p m =
     (let inst = peek32 m p; imm16 = thumb_imm inst
      in if inst AND 0x8000fbf0 \<noteq> 0x0000f240 then (Some (WrongMOVW inst), m)
         else
           let imm16 = imm16 + (ucast delta AND 0xffff);
               hiDelta = drop_bit 16 (ucast (delta AND 0xffff0000)) + drop_bit 16 (imm16 AND 0xffff0000);
               m = poke32 m p (thumb_put inst imm16)
           in if hiDelta = 0 then (None, m)
              else
                let inst = peek32 m (p + 4); imm16 = thumb_imm inst
                in if inst AND 0x8000fbf0 \<noteq> 0x0000f2c0 then (Some (WrongMOVT inst), m)
                   else
                     let imm16 = imm16 + hiDelta
                     in if 0xffff < imm16 then (Some (ImmediateWontFit imm16), m)
                        else (None, poke32 m (p + 4) (thumb_put inst imm16)))"

definition reloc_entry :: "addr \<Rightarrow> addr \<Rightarrow> mem \<Rightarrow> 16 word \<Rightarrow> reloc_error option \<times> mem" where
  "reloc_entry delta dest m relInfo =
     (let relType = drop_bit 12 relInfo; p = dest + ucast (relInfo AND 0xfff)
      in if relType = IMAGE_REL_BASED_ABSOLUTE then (None, m)
         else if relType = IMAGE_REL_BASED_LOW then
           (None, poke16 m p (peek16 m p + ucast (delta AND 0xffff)))
         else if relType = IMAGE_REL_BASED_HIGH then
           (None, poke16 m p (peek16 m p + ucast (drop_bit 16 (ucast delta :: 32 word))))
         else if relType = IMAGE_REL_BASED_HIGHLOW then (None, poke32 m p (peek32 m p + ucast delta))
         else if relType = IMAGE_REL_BASED_DIR64 then (None, poke64 m p (peek64 m p + delta))
         else if relType = IMAGE_REL_BASED_THUMB_MOV32 then reloc_thumb delta p m
         else (Some (UnsupportedRelocation relType), m))"

section \<open>Loops\<close>

text \<open>\<open>range relInfos\<close>: entry after entry, read from the memory as it is at that moment.\<close>

primrec reloc_infos :: "addr \<Rightarrow> addr \<Rightarrow> nat \<Rightarrow> addr \<Rightarrow> mem \<Rightarrow> reloc_error option \<times> mem" where
  "reloc_infos delta dest 0 a m = (None, m)"
| "reloc_infos delta dest (Suc n) a m =
     (case reloc_entry delta dest m (peek16 m a) of
        (Some e, m') \<Rightarrow> (Some e, m')
      | (None, m') \<Rightarrow> reloc_infos delta dest n (a + 2) m')"

fun reloc_blocks :: "nat \<Rightarrow> addr \<Rightarrow> addr \<Rightarrow> addr \<Rightarrow> mem \<Rightarrow> (reloc_error option \<times> mem) option" where
  "reloc_blocks 0 codeBase delta hdr m = None"
| "reloc_blocks (Suc fuel) codeBase delta hdr m =
     (if peek32 m hdr = 0 then Some (None, m)
      else
        let dest = codeBase + ucast (peek32 m hdr);
            count = unat ((ucast (peek32 m (hdr + 4)) - 8 :: addr) div 2)
        in case reloc_infos delta dest count (hdr + 8) m of
             (Some e, m') \<Rightarrow> Some (Some e, m')
           | (None, m') \<Rightarrow> reloc_blocks fuel codeBase delta (hdr + ucast (peek32 m' (hdr + 4))) m')"

text \<open>
  \<open>performBaseRelocation\<close>: \<open>dirAddress\<close> and \<open>dirSize\<close> are the data directory's entry for the
  relocation table. The result is \<open>relocated\<close>, the error and the memory.
\<close>

definition performBaseRelocation ::
  "nat \<Rightarrow> addr \<Rightarrow> 32 word \<Rightarrow> 32 word \<Rightarrow> addr \<Rightarrow> mem \<Rightarrow> (bool \<times> reloc_error option \<times> mem) option" where
  "performBaseRelocation fuel codeBase dirAddress dirSize delta m =
     (if dirSize = 0 then Some (delta = 0, None, m)
      else
        (case reloc_blocks fuel codeBase delta (codeBase + ucast dirAddress) m of
           None \<Rightarrow> None
         | Some (Some e, m') \<Rightarrow> Some (False, Some e, m')
         | Some (None, m') \<Rightarrow> Some (True, None, m')))"

section \<open>Thumb-2 immediates\<close>

lemma masked_disjoint: "p AND q = 0 \<Longrightarrow> (x AND p) AND (y AND q) = (0 :: 32 word)"
  by (metis and.assoc and.left_commute and_zero_eq)
lemma bits_below_32:
  assumes "\<And>i. i \<in> {0, 1, 2, 3, 4, 5, 6, 7, 8, 9, 10, 11, 12, 13, 14, 15, 16, 17, 18, 19, 20, 21, 22, 23, 24, 25, 26, 27, 28, 29, 30, 31 :: nat} \<Longrightarrow> Q i" and "n < 32"
  shows "Q n"
proof -
  have "n \<in> {..<32}" using assms(2) by simp
  also have "{..<32 :: nat} = {0, 1, 2, 3, 4, 5, 6, 7, 8, 9, 10, 11, 12, 13, 14, 15, 16, 17, 18, 19, 20, 21, 22, 23, 24, 25, 26, 27, 28, 29, 30, 31}"
    by code_simp
  finally show ?thesis using assms(1) by blast
qed
lemma thumb_imm_or: "thumb_imm inst = (push_bit 1 inst AND 0x0800) OR (push_bit 12 inst AND 0xf000) OR
     (drop_bit 20 inst AND 0x0700) OR (drop_bit 16 inst AND 0x00ff)"
  unfolding thumb_imm_def
  by (subst disjunctive_add_eq_or, simp add: ac_simps bit.conj_disj_distrib)+ (simp add: ac_simps)

lemma bit_thumb_imm:
  assumes "n < 32"
  shows "bit (thumb_imm inst) n \<longleftrightarrow> (if n < 8 then bit inst (n + 16) else if n < 11 then bit inst (n + 20)
     else if n = 11 then bit inst 10 else if n < 16 then bit inst (n - 12) else False)"
  using assms
proof (rule bits_below_32 [rotated])
  fix i assume "i \<in> {0, 1, 2, 3, 4, 5, 6, 7, 8, 9, 10, 11, 12, 13, 14, 15, 16, 17, 18, 19, 20, 21, 22, 23, 24, 25, 26, 27, 28, 29, 30, 31 :: nat}"
  then show "bit (thumb_imm inst) i \<longleftrightarrow> (if i < 8 then bit inst (i + 16) else if i < 11 then bit inst (i + 20)
     else if i = 11 then bit inst 10 else if i < 16 then bit inst (i - 12) else False)"
    unfolding thumb_imm_or
    by (elim insertE) (simp_all add: bit_simps bit_double_iff mult.commute [of inst 2])
qed

lemma thumb_put_or: "thumb_put inst imm16 = (inst AND 0x8f00fbf0) OR (drop_bit 1 imm16 AND 0x0400) OR
     (drop_bit 12 imm16 AND 0x000f) OR (push_bit 20 imm16 AND 0x70000000) OR (push_bit 16 imm16 AND 0xff0000)"
  unfolding thumb_put_def
  by (subst disjunctive_add_eq_or, (simp only: bit.conj_disj_distrib2)?, simp add: masked_disjoint)+ (simp add: ac_simps)
lemma bit_thumb_put:
  assumes "n < 32"
  shows "bit (thumb_put inst imm) n \<longleftrightarrow> (if n < 4 then bit imm (n + 12) else if n = 10 then bit imm 11
     else if 16 \<le> n \<and> n < 24 then bit imm (n - 16) else if 28 \<le> n \<and> n < 31 then bit imm (n - 20) else bit inst n)"
  using assms
proof (rule bits_below_32 [rotated])
  fix i assume "i \<in> {0, 1, 2, 3, 4, 5, 6, 7, 8, 9, 10, 11, 12, 13, 14, 15, 16, 17, 18, 19, 20, 21, 22, 23, 24, 25, 26, 27, 28, 29, 30, 31 :: nat}"
  then show "bit (thumb_put inst imm) i \<longleftrightarrow> (if i < 4 then bit imm (i + 12) else if i = 10 then bit imm 11
     else if 16 \<le> i \<and> i < 24 then bit imm (i - 16) else if 28 \<le> i \<and> i < 31 then bit imm (i - 20) else bit inst i)"
    unfolding thumb_put_or
    by (elim insertE) (simp_all add: bit_simps)
qed
lemma thumb_imm_put: "thumb_imm (thumb_put inst imm) = imm AND 0xffff"
proof (rule bit_word_eqI)
  fix n assume "n < LENGTH(32)"
  then have n: "n < 32" by simp
  have m: "(0xffff :: 32 word) = mask 16" by (simp add: mask_eq_exp_minus_1)
  show "bit (thumb_imm (thumb_put inst imm)) n = bit (imm AND 0xffff) n"
    using n by (auto simp: bit_thumb_imm bit_thumb_put m bit_simps)
qed
lemma thumb_put_opcode: "thumb_put inst imm AND 0x8000fbf0 = inst AND 0x8000fbf0"
proof (rule bit_word_eqI)
  fix n assume "n < LENGTH(32)"
  then have "n < 32" by simp
  then show "bit (thumb_put inst imm AND 0x8000fbf0) n = bit (inst AND 0x8000fbf0) n"
  proof (rule bits_below_32 [rotated])
    fix i :: nat assume "i \<in> {0, 1, 2, 3, 4, 5, 6, 7, 8, 9, 10, 11, 12, 13, 14, 15, 16, 17, 18, 19, 20, 21, 22, 23, 24, 25, 26, 27, 28, 29, 30, 31 :: nat}"
    then show "bit (thumb_put inst imm AND 0x8000fbf0) i = bit (inst AND 0x8000fbf0) i"
      by (elim insertE) (simp_all add: bit_thumb_put bit_simps)
  qed
qed
lemma thumb_imm_bound: "unat (thumb_imm inst) < 2 ^ 16"
proof -
  have "take_bit 16 (thumb_imm inst) = thumb_imm inst"
    by (rule bit_word_eqI) (auto simp: bit_simps bit_thumb_imm)
  then have "unat (thumb_imm inst) = unat (take_bit 16 (thumb_imm inst))" by simp
  also have "\<dots> < 2 ^ 16" by (subst unsigned_take_bit_eq) (simp add: take_bit_eq_mod)
  finally show ?thesis .
qed

lemma ucast_neg: "(ucast (- d) :: 16 word) = - ucast (d :: addr)" "(ucast (- d) :: 32 word) = - ucast (d :: addr)"
  by (rule word_uint_eqI, simp add: unsigned_ucast_eq uint_word_ariths take_bit_eq_mod mod_mod_cancel mod_minus_eq)+

lemma unat_low16: "unat (x AND 0xffff) = unat (x :: 32 word) mod 65536"
proof -
  have "x AND 0xffff = take_bit 16 x" by (simp add: take_bit_eq_mask mask_eq_exp_minus_1)
  then show ?thesis by (simp only:) (subst unsigned_take_bit_eq, simp add: take_bit_eq_mod)
qed

lemma unat_high16: "unat (drop_bit 16 (x :: 32 word)) = unat x div 65536"
proof -
  have "take_bit 32 (unat x) = unat x" using unsigned_less [of x] by (simp add: take_bit_nat_eq_self_iff)
  then show ?thesis by (subst unsigned_drop_bit_eq) (simp add: drop_bit_eq_div)
qed

lemma high_masks:
  "drop_bit 16 (x AND 0xffff0000) = drop_bit 16 (x :: 32 word)"
  "drop_bit 16 (ucast (d AND 0xffff0000) :: 32 word) = drop_bit 16 (ucast (d :: addr))"
proof -
  have m: "(0xffff0000 :: 32 word) = push_bit 16 (mask 16)" "(0xffff0000 :: addr) = push_bit 16 (mask 16)"
    by (simp_all add: mask_eq_exp_minus_1)
  show "drop_bit 16 (x AND 0xffff0000) = drop_bit 16 (x :: 32 word)"
    unfolding m(1) by (rule bit_word_eqI) (auto simp: bit_simps dest: bit_imp_le_length)
  show "drop_bit 16 (ucast (d AND 0xffff0000) :: 32 word) = drop_bit 16 (ucast (d :: addr))"
    unfolding m(2) by (rule bit_word_eqI) (auto simp: bit_simps dest: bit_imp_le_length)
qed

lemma cell_disjoint_next: "cell p 4 \<inter> cell (p + 4) 4 = {}"
proof -
  have "False" if "i < 4" "j < 4" "p + of_nat i = p + 4 + of_nat j" for i j
  proof -
    have "(of_nat i :: addr) = of_nat (4 + j)" using that(3) by (simp add: add.assoc)
    then have "unat (of_nat i :: addr) = unat (of_nat (4 + j) :: addr)" by simp
    moreover have "unat (of_nat i :: addr) = i" "unat (of_nat (4 + j) :: addr) = 4 + j"
      using that(1,2) by (simp_all only: unat_of_nat) (simp_all add: mod_less)
    ultimately show False using that(1) by simp
  qed
  then show ?thesis by (auto simp: cell_def)
qed

definition movw_movt :: "mem \<Rightarrow> addr \<Rightarrow> bool" where
  "movw_movt m p \<longleftrightarrow> peek32 m p AND 0x8000fbf0 = 0x0000f240 \<and> peek32 m (p + 4) AND 0x8000fbf0 = 0x0000f2c0"

definition pair_value :: "mem \<Rightarrow> addr \<Rightarrow> nat" where
  "pair_value m p = unat (thumb_imm (peek32 m p)) + 65536 * unat (thumb_imm (peek32 m (p + 4)))"

lemma thumb_pair:
  assumes "movw_movt m p"
  shows "if pair_value m p + unat (ucast delta :: 32 word) < 2 ^ 32
     then fst (reloc_thumb delta p m) = None \<and> movw_movt (snd (reloc_thumb delta p m)) p \<and>
       pair_value (snd (reloc_thumb delta p m)) p = pair_value m p + unat (ucast delta :: 32 word)
     else \<exists>i. fst (reloc_thumb delta p m) = Some (ImmediateWontFit i)"
proof -
  define d where "d = (ucast delta :: 32 word)"
  define lo where "lo = thumb_imm (peek32 m p)"
  define hi where "hi = thumb_imm (peek32 m (p + 4))"
  define imm where "imm = lo + (d AND 0xffff)"
  define hd where "hd = drop_bit 16 d + drop_bit 16 imm"
  define m1 where "m1 = poke32 m p (thumb_put (peek32 m p) imm)"
  have lo: "unat lo < 65536" "unat hi < 65536" using thumb_imm_bound by (simp_all add: lo_def hi_def)
  have dlt: "unat d < 2 ^ 32" using unsigned_less [of d] by simp
  have imm: "unat imm = unat lo + unat d mod 65536"
    using lo unfolding imm_def by (subst unat_add_lem [THEN iffD1]) (simp_all add: unat_low16)
  have hd: "unat hd = unat d div 65536 + unat imm div 65536"
    using lo dlt imm unfolding hd_def by (subst unat_add_lem [THEN iffD1]) (simp_all add: unat_high16)
  have sum: "unat imm mod 65536 + 65536 * (unat hi + unat hd) = unat lo + 65536 * unat hi + unat d"
    unfolding hd imm using mod_mult_div_eq [of "unat lo + unat d mod 65536" 65536] mod_mult_div_eq [of "unat d" 65536]
    by (simp add: algebra_simps)
  have p4: "peek32 m1 (p + 4) = peek32 m (p + 4)" unfolding m1_def
    using cell_disjoint_next [of p] by (simp add: peek32_def poke32_def peekn_poken_other Int_commute)
  have op1: "peek32 m p AND 0x8000fbf0 = 0x0000f240" and op2: "peek32 m (p + 4) AND 0x8000fbf0 = 0x0000f2c0"
    using assms by (auto simp: movw_movt_def)
  have imm1: "thumb_imm (peek32 m1 p) = imm AND 0xffff" "peek32 m1 p AND 0x8000fbf0 = 0x0000f240"
    by (simp_all add: m1_def thumb_imm_put thumb_put_opcode op1)
  have run: "reloc_thumb delta p m =
    (if hd = 0 then (None, m1) else if 0xffff < hi + hd then (Some (ImmediateWontFit (hi + hd)), m1)
     else (None, poke32 m1 (p + 4) (thumb_put (peek32 m (p + 4)) (hi + hd))))"
    using op1 op2 p4 unfolding reloc_thumb_def Let_def high_masks d_def [symmetric] lo_def [symmetric] imm_def [symmetric]
      hd_def [symmetric] m1_def [symmetric]
    by (simp add: hi_def)
  have old: "pair_value m p = unat lo + 65536 * unat hi" by (simp add: pair_value_def lo_def hi_def)
  show ?thesis
  proof (cases "hd = 0")
    case True
    then have "unat imm < 65536" "unat d div 65536 = 0" using hd by auto
    then show ?thesis using True sum lo run old p4 imm1 op2
      by (simp add: pair_value_def movw_movt_def unat_low16 hi_def [symmetric] d_def [symmetric])
  next
    case False
    have hisum: "unat (hi + hd) = unat hi + unat hd"
      using lo hd imm dlt by (subst unat_add_lem [THEN iffD1]) simp_all
    have fit: "0xffff < hi + hd \<longleftrightarrow> 2 ^ 32 \<le> pair_value m p + unat d"
      using sum old hisum mod_less_divisor [of 65536 "unat imm"] by (simp add: word_less_nat_alt) arith
    show ?thesis
    proof (cases "0xffff < hi + hd")
      case True
      then show ?thesis using False run fit by (simp add: d_def [symmetric])
    next
      case in_range: False
      let ?m2 = "poke32 m1 (p + 4) (thumb_put (peek32 m (p + 4)) (hi + hd))"
      have "peek32 ?m2 p = peek32 m1 p" using cell_disjoint_next [of p]
        by (simp add: peek32_def poke32_def peekn_poken_other)
      moreover have "unat ((hi + hd) AND 0xffff) = unat hi + unat hd"
        using in_range hisum by (simp add: unat_low16 word_less_nat_alt)
      ultimately show ?thesis using False in_range run fit sum old imm1 op2
        by (simp add: pair_value_def movw_movt_def unat_low16 thumb_imm_put thumb_put_opcode d_def [symmetric])
    qed
  qed
qed

section \<open>The table as data\<close>

type_synonym reloc_table = "(32 word \<times> 16 word list) list"

fun entries_at :: "mem \<Rightarrow> addr \<Rightarrow> 16 word list \<Rightarrow> bool" where
  "entries_at m a [] = True"
| "entries_at m a (e # es) = (peek16 m a = e \<and> entries_at m (a + 2) es)"

fun table_at :: "mem \<Rightarrow> addr \<Rightarrow> reloc_table \<Rightarrow> bool" where
  "table_at m h [] = (peek32 m h = 0)"
| "table_at m h ((va, es) # bs) =
     (va \<noteq> 0 \<and> peek32 m h = va \<and> peek32 m (h + 4) = of_nat (8 + 2 * length es) \<and> 8 + 2 * length es < 2 ^ 32 \<and>
      entries_at m (h + 8) es \<and> table_at m (h + of_nat (8 + 2 * length es)) bs)"

fun table_size :: "reloc_table \<Rightarrow> nat" where
  "table_size [] = 4"
| "table_size ((va, es) # bs) = 8 + 2 * length es + table_size bs"

text \<open>What the table asks for: its entries applied one after the other until one fails.\<close>

fun apply_entries :: "addr \<Rightarrow> addr \<Rightarrow> 16 word list \<Rightarrow> mem \<Rightarrow> reloc_error option \<times> mem" where
  "apply_entries delta dest [] m = (None, m)"
| "apply_entries delta dest (e # es) m =
     (case reloc_entry delta dest m e of
        (Some x, m') \<Rightarrow> (Some x, m') | (None, m') \<Rightarrow> apply_entries delta dest es m')"

fun apply_table :: "addr \<Rightarrow> addr \<Rightarrow> reloc_table \<Rightarrow> mem \<Rightarrow> reloc_error option \<times> mem" where
  "apply_table codeBase delta [] m = (None, m)"
| "apply_table codeBase delta ((va, es) # bs) m =
     (case apply_entries delta (codeBase + ucast va) es m of
        (Some x, m') \<Rightarrow> (Some x, m') | (None, m') \<Rightarrow> apply_table codeBase delta bs m')"

definition entry_target :: "addr \<Rightarrow> 16 word \<Rightarrow> addr" where
  "entry_target dest e = dest + ucast (e AND 0xfff)"

text \<open>No entry patches a byte of \<open>T\<close>.\<close>

definition table_clear :: "addr \<Rightarrow> reloc_table \<Rightarrow> addr set \<Rightarrow> bool" where
  "table_clear codeBase bs T \<longleftrightarrow>
     (\<forall>(va, es) \<in> set bs. \<forall>e \<in> set es. cell (entry_target (codeBase + ucast va) e) 8 \<inter> T = {})"

lemma cell_sub: "k + n \<le> N \<Longrightarrow> cell (a + of_nat k) n \<subseteq> cell a N"
proof
  fix b assume k: "k + n \<le> N" and "b \<in> cell (a + of_nat k) n"
  then obtain i where "i < n" "b = a + of_nat (k + i)" by (auto simp: cell_def add.assoc)
  then show "b \<in> cell a N" using k unfolding cell_def by (intro image_eqI [of _ _ "k + i"]) auto
qed

lemma reloc_thumb_frame:
  assumes "b \<notin> cell p 8"
  shows "snd (reloc_thumb delta p m) b = m b"
proof -
  have "b \<notin> cell p 4" "b \<notin> cell (p + 4) 4"
    using assms cell_sub [of 0 4 8 p] cell_sub [of 4 4 8 p] by auto
  then show ?thesis by (simp add: reloc_thumb_def Let_def)
qed

lemma reloc_entry_frame:
  assumes "b \<notin> cell (entry_target dest e) 8"
  shows "snd (reloc_entry delta dest m e) b = m b"
proof -
  let ?p = "dest + ucast (e AND 0xfff)"
  have p: "b \<notin> cell ?p 8" "b \<notin> cell ?p 4" "b \<notin> cell ?p 2"
    using assms cell_sub [of 0 4 8 ?p] cell_sub [of 0 2 8 ?p] by (auto simp: entry_target_def)
  then show ?thesis using reloc_thumb_frame [OF p(1)] by (simp add: reloc_entry_def Let_def)
qed

lemma entries_at_cong:
  "(\<And>b. b \<in> cell a (2 * length es) \<Longrightarrow> m b = m' b) \<Longrightarrow> entries_at m a es \<longleftrightarrow> entries_at m' a es"
proof (induction es arbitrary: a)
  case Nil
  then show ?case by simp
next
  case (Cons e es)
  have "peek16 m a = peek16 m' a"
    using Cons.prems cell_sub [of 0 2 "2 * length (e # es)" a] by (intro peek_cong) auto
  moreover have "cell (a + 2) (2 * length es) \<subseteq> cell a (2 * length (e # es))"
    using cell_sub [of 2 "2 * length es" "2 * length (e # es)" a] by simp
  ultimately show ?case using Cons by auto
qed

lemma table_at_cong:
  "(\<And>b. b \<in> cell h (table_size bs) \<Longrightarrow> m b = m' b) \<Longrightarrow> table_at m h bs \<longleftrightarrow> table_at m' h bs"
proof (induction bs arbitrary: h)
  case Nil
  then have "peek32 m h = peek32 m' h" by (intro peek_cong) auto
  then show ?case by simp
next
  case (Cons b bs)
  obtain va es where b: "b = (va, es)" by (cases b)
  let ?N = "table_size (b # bs)"
  have N: "?N = 8 + 2 * length es + table_size bs" by (simp add: b)
  have "peek32 m h = peek32 m' h" "peek32 m (h + 4) = peek32 m' (h + 4)"
    using Cons.prems cell_sub [of 0 4 ?N h] cell_sub [of 4 4 ?N h] N by (auto intro!: peek_cong)
  moreover have "entries_at m (h + 8) es = entries_at m' (h + 8) es"
    using Cons.prems cell_sub [of 8 "2 * length es" ?N h] N by (intro entries_at_cong) auto
  moreover have "table_at m (h + of_nat (8 + 2 * length es)) bs = table_at m' (h + of_nat (8 + 2 * length es)) bs"
  proof (rule Cons.IH)
    have "cell (h + of_nat (8 + 2 * length es)) (table_size bs) \<subseteq> cell h ?N" by (rule cell_sub) (simp add: N)
    then show "m x = m' x" if "x \<in> cell (h + of_nat (8 + 2 * length es)) (table_size bs)" for x
      using Cons.prems that by blast
  qed
  ultimately show ?case by (simp add: b)
qed

lemma apply_entries_frame:
  assumes "\<forall>e \<in> set es. b \<notin> cell (entry_target dest e) 8"
  shows "snd (apply_entries delta dest es m) b = m b"
  using assms
proof (induction es arbitrary: m)
  case Nil
  then show ?case by simp
next
  case (Cons e es)
  obtain r m' where r: "reloc_entry delta dest m e = (r, m')" by fastforce
  then have "m' b = m b" using reloc_entry_frame [of b dest e delta m] Cons.prems by simp
  with r Cons show ?case by (cases r) auto
qed

lemma reloc_infos_apply:
  assumes "entries_at m a es" and "\<forall>e \<in> set es. cell (entry_target dest e) 8 \<inter> cell a (2 * length es) = {}"
  shows "reloc_infos delta dest (length es) a m = apply_entries delta dest es m"
  using assms
proof (induction es arbitrary: a m)
  case Nil
  then show ?case by simp
next
  case (Cons e es)
  obtain r m' where r: "reloc_entry delta dest m e = (r, m')" by fastforce
  have sub: "cell (a + 2) (2 * length es) \<subseteq> cell a (2 * length (e # es))"
    using cell_sub [of 2 "2 * length es" "2 * length (e # es)" a] by simp
  have "m' b = m b" if "b \<in> cell a (2 * length (e # es))" for b
    using reloc_entry_frame [of b dest e delta m] r Cons.prems(2) that by auto
  then have "entries_at m' (a + 2) es" using Cons.prems(1) sub entries_at_cong [of "a + 2" es m' m] by auto
  moreover have "\<forall>x \<in> set es. cell (entry_target dest x) 8 \<inter> cell (a + 2) (2 * length es) = {}"
    using Cons.prems(2) sub by fastforce
  ultimately show ?case using Cons r by (cases r) auto
qed

lemma ucast_size: "k < 2 ^ 32 \<Longrightarrow> (ucast (of_nat k :: 32 word) :: addr) = of_nat k"
  by (simp add: word_unat_eq_iff unsigned_ucast_eq unat_of_nat take_bit_eq_mod)

lemma block_count: "8 + 2 * k < 2 ^ 32 \<Longrightarrow> unat ((ucast (of_nat (8 + 2 * k) :: 32 word) - 8 :: addr) div 2) = k"
proof -
  assume k: "8 + 2 * k < 2 ^ 32"
  from ucast_size [OF k] have "(ucast (of_nat (8 + 2 * k) :: 32 word) - 8 :: addr) = of_nat (2 * k)" by simp
  moreover have "unat (of_nat (2 * k) :: addr) = 2 * k" using k by (simp only: unat_of_nat) (simp add: mod_less)
  ultimately show ?thesis by (simp only: unat_div) simp
qed

lemma reloc_blocks_apply:
  assumes "table_at m h bs" and "table_clear codeBase bs (cell h (table_size bs))"
  shows "reloc_blocks (Suc (length bs)) codeBase delta h m = Some (apply_table codeBase delta bs m)"
  using assms
proof (induction bs arbitrary: h m)
  case Nil
  then show ?case by simp
next
  case (Cons b bs)
  obtain va es where b: "b = (va, es)" by (cases b)
  let ?dest = "codeBase + ucast va" and ?N = "table_size (b # bs)" and ?n = "8 + 2 * length es"
  obtain r m' where r: "apply_entries delta ?dest es m = (r, m')" by fastforce
  have clear: "cell (entry_target ?dest e) 8 \<inter> cell h ?N = {}" if "e \<in> set es" for e
    using Cons.prems(2) that b unfolding table_clear_def by auto
  have same: "m' x = m x" if "x \<in> cell h ?N" for x
    using apply_entries_frame [of es x ?dest delta m] r clear that by auto
  have ent: "cell (h + 8) (2 * length es) \<subseteq> cell h ?N"
    using cell_sub [of 8 "2 * length es" ?N h] by (simp add: b)
  have rest: "cell (h + of_nat ?n) (table_size bs) \<subseteq> cell h ?N"
    using cell_sub [of ?n "table_size bs" ?N h] by (simp add: b)
  have at: "va \<noteq> 0" "peek32 m h = va" "peek32 m (h + 4) = of_nat ?n" "?n < 2 ^ 32" "entries_at m (h + 8) es"
    "table_at m (h + of_nat ?n) bs" using Cons.prems(1) by (simp_all add: b)
  have "reloc_infos delta ?dest (length es) (h + 8) m = (r, m')"
    using reloc_infos_apply [OF at(5), of ?dest delta] clear ent r by fastforce
  then have step: "reloc_blocks (Suc (length (b # bs))) codeBase delta h m =
      (case r of Some e \<Rightarrow> Some (Some e, m')
       | None \<Rightarrow> reloc_blocks (Suc (length bs)) codeBase delta (h + ucast (peek32 m' (h + 4))) m')"
    using at block_count [OF at(4)] by (simp add: Let_def split: option.split)
  have "peek32 m' (h + 4) = of_nat ?n"
    using at(3) same cell_sub [of 4 4 ?N h] by (subst peek_cong(2) [of _ m' m]) (auto simp: b)
  then have nxt: "h + ucast (peek32 m' (h + 4)) = h + of_nat ?n" by (simp only: ucast_size [OF at(4)])
  have "table_at m' (h + of_nat ?n) bs" using at(6) same rest table_at_cong [of "h + of_nat ?n" bs m' m] by blast
  moreover have "table_clear codeBase bs (cell (h + of_nat ?n) (table_size bs))"
    using Cons.prems(2) rest unfolding table_clear_def by fastforce
  ultimately have "reloc_blocks (Suc (length bs)) codeBase delta (h + of_nat ?n) m' = Some (apply_table codeBase delta bs m')"
    by (rule Cons.IH)
  with step nxt r b show ?case by (cases r) auto
qed

lemma unat_in_cell:
  assumes "b \<in> cell a n" and "unat a + n \<le> 2 ^ 64"
  shows "unat a \<le> unat b \<and> unat b < unat a + n"
proof -
  obtain i where i: "i < n" "b = a + of_nat i" using assms(1) by (auto simp: cell_def)
  then have "unat (of_nat i :: addr) = i" using assms(2) by (simp add: unat_of_nat)
  moreover have "unat b = unat a + unat (of_nat i :: addr)"
    unfolding i(2) using i(1) assms(2) calculation by (intro unat_add_lem [THEN iffD1]) simp
  ultimately show ?thesis using i(1) by simp
qed

lemma cells_apart:
  assumes "unat a + n \<le> unat b" and "unat b + k \<le> 2 ^ 64"
  shows "cell a n \<inter> cell b k = {}"
proof -
  have "unat a + n \<le> 2 ^ 64" using assms by simp
  then show ?thesis using unat_in_cell [of _ a n] unat_in_cell [of _ b k] assms by fastforce
qed

lemma peekn_bytes:
  "peekn 2 m a = unat (m a) + 256 * unat (m (a + 1))"
  "peekn 4 m a = unat (m a) + 256 * (unat (m (a + 1)) + 256 * (unat (m (a + 2)) + 256 * unat (m (a + 3))))"
  "peekn 8 m a = peekn 4 m a + 4294967296 * peekn 4 m (a + 4)"
proof -
  have n: "(2 :: nat) = Suc (Suc 0)" "(4 :: nat) = Suc (Suc (Suc (Suc 0)))"
    "(8 :: nat) = Suc (Suc (Suc (Suc (Suc (Suc (Suc (Suc 0)))))))" by simp_all
  show "peekn 2 m a = unat (m a) + 256 * unat (m (a + 1))" by (simp only: n peekn.simps) simp
  show four: "peekn 4 m a = unat (m a) + 256 * (unat (m (a + 1)) + 256 * (unat (m (a + 2)) + 256 * unat (m (a + 3))))" for a
    by (simp only: n(2) peekn.simps) (simp add: add.assoc)
  show "peekn 8 m a = peekn 4 m a + 4294967296 * peekn 4 m (a + 4)"
    unfolding four by (simp only: n(3) peekn.simps) (simp add: add.assoc)
qed

section \<open>Properties\<close>

text \<open>
  C23: relocation does what its table says, and terminates. If the memory holds a relocation table
  (blocks with their entries, closed by a zero address) and no entry patches the table itself,
  then with fuel for one more block than the table has, \<open>performBaseRelocation\<close> returns; it
  applies the entries in order, reports success when all of them could be applied and the
  first error otherwise.
\<close>

theorem relocation_refines_table:
  assumes "dirSize \<noteq> 0" and "table_at m (codeBase + ucast dirAddress) bs"
    and "table_clear codeBase bs (cell (codeBase + ucast dirAddress) (table_size bs))"
  shows "performBaseRelocation (Suc (length bs)) codeBase dirAddress dirSize delta m =
     (case apply_table codeBase delta bs m of
        (None, m') \<Rightarrow> Some (True, None, m') | (Some e, m') \<Rightarrow> Some (False, Some e, m'))"
  using assms(1) reloc_blocks_apply [OF assms(2,3), of delta]
  by (simp add: performBaseRelocation_def del: reloc_blocks.simps split: prod.split option.split)

text \<open>
  A small image at \<open>0x1000\<close>: a 64-bit pointer at \<open>0x2010\<close> and, at \<open>0x3000\<close>, a relocation table of
  one block with one \<open>DIR64\<close> entry and a padding entry.
\<close>

definition sample_image :: mem where
  "sample_image a =
     (if a = 0x2011 then 0x10 else if a = 0x3001 then 0x10 else if a = 0x3004 then 12
      else if a = 0x3008 then 0x10 else if a = 0x3009 then 0xA0 else 0)"

theorem relocation_refines_table_witness:
  "\<exists>m'. performBaseRelocation 2 0x1000 0x2000 12 0x5000 sample_image = Some (True, None, m') \<and>
     peek64 sample_image 0x2010 = 0x1000 \<and> peek64 m' 0x2010 = 0x6000"
proof -
  let ?bs = "[(0x1000, [0xA010, 0])] :: reloc_table"
  let ?m' = "poke64 sample_image 0x2010 0x6000"
  have old: "peek64 sample_image 0x2010 = 0x1000" by (simp add: peek64_def peekn_bytes sample_image_def)
  have at: "table_at sample_image (0x1000 + ucast (0x2000 :: 32 word)) ?bs"
    by (simp add: peek32_def peek16_def peekn_bytes sample_image_def)
  have clear: "table_clear 0x1000 ?bs (cell (0x1000 + ucast (0x2000 :: 32 word)) (table_size ?bs))"
    by (simp add: table_clear_def entry_target_def cells_apart)
  have ap: "apply_table 0x1000 0x5000 ?bs sample_image = (None, ?m')"
    by (simp add: reloc_entry_def REL_defs Let_def old)
  have "performBaseRelocation (Suc (length ?bs)) 0x1000 0x2000 12 0x5000 sample_image =
     (case apply_table 0x1000 0x5000 ?bs sample_image of
        (None, m') \<Rightarrow> Some (True, None, m') | (Some e, m') \<Rightarrow> Some (False, Some e, m'))"
    by (rule relocation_refines_table [OF _ at clear]) simp
  then have "performBaseRelocation 2 0x1000 0x2000 12 0x5000 sample_image = Some (True, None, ?m')"
    unfolding ap by (simp only: prod.case option.case list.size) (simp add: numeral_2_eq_2)
  with old show ?thesis by (intro exI [of _ ?m']) simp
qed

text \<open>
  C25: the plain relocation types. For a 32-bit (\<open>HIGHLOW\<close>), a 64-bit (\<open>DIR64\<close>), a 16-bit low (\<open>LOW\<close>) and a 16-bit high
  (\<open>HIGH\<close>) entry the relocation succeeds, the cell at the entry's target, of 4, 8, 2 and 2 bytes, holds its old value plus \<open>delta\<close>
  (its low 16 bits for \<open>LOW\<close>, bits 16 to 31 for \<open>HIGH\<close>) modulo its width, and no byte outside that cell changes; an \<open>ABSOLUTE\<close> entry
  changes nothing. Except for \<open>HIGH\<close>, relocating by \<open>- delta\<close> restores the memory exactly.
\<close>

theorem reloc_cell_exact:
  "let p = entry_target dest e; t = drop_bit 12 e; (err, m') = reloc_entry delta dest m e in
    (t = 3 \<longrightarrow> err = None \<and> peek32 m' p = peek32 m p + ucast delta \<and> (\<forall>b. b \<notin> cell p 4 \<longrightarrow> m' b = m b)) \<and>
    (t = 10 \<longrightarrow> err = None \<and> peek64 m' p = peek64 m p + delta \<and> (\<forall>b. b \<notin> cell p 8 \<longrightarrow> m' b = m b)) \<and>
    (t = 2 \<longrightarrow> err = None \<and> peek16 m' p = peek16 m p + ucast delta \<and> (\<forall>b. b \<notin> cell p 2 \<longrightarrow> m' b = m b)) \<and>
    (t = 1 \<longrightarrow> err = None \<and> peek16 m' p = peek16 m p + ucast (drop_bit 16 delta) \<and> (\<forall>b. b \<notin> cell p 2 \<longrightarrow> m' b = m b)) \<and>
    (t = 0 \<longrightarrow> err = None \<and> m' = m) \<and>
    (t \<in> {0, 2, 3, 10} \<longrightarrow> snd (reloc_entry (- delta) dest m' e) = m)"
proof -
  have low: "(ucast (d AND 0xffff) :: 16 word) = ucast (d :: addr)" for d
  proof -
    have m: "(0xffff :: addr) = mask 16" by (simp add: mask_eq_exp_minus_1)
    show ?thesis unfolding m by (intro bit_word_eqI) (auto simp: bit_simps)
  qed
  have high: "(ucast (drop_bit 16 (ucast d :: 32 word)) :: 16 word) = ucast (drop_bit 16 (d :: addr))" for d
    by (intro bit_word_eqI) (auto simp: bit_simps)
  show ?thesis
    by (auto simp: Let_def reloc_entry_def entry_target_def REL_defs low high ucast_neg)
qed

theorem reloc_cell_exact_witness:
  "peek64 (snd (reloc_entry 0x5000 0x2000 sample_image 0xA010)) 0x2010 = peek64 sample_image 0x2010 + 0x5000"
  using reloc_cell_exact [of "0x2000" "0xA010" "0x5000" sample_image]
  by (simp add: entry_target_def REL_defs Let_def split: prod.splits)

text \<open>
  C24: the Thumb-2 relocation. For a MOVW/MOVT pair, which together load a 32-bit constant, the
  patch succeeds exactly when the constant plus the low 32 bits of \<open>delta\<close> stays below
  \<open>2 ^ 32\<close>; then the pair is still a MOVW/MOVT pair and loads exactly the sum. Otherwise the
  relocation fails with the error that the immediate will not fit.
\<close>

theorem thumb_pair_relocated:
  assumes "movw_movt m p"
  shows "(fst (reloc_thumb delta p m) = None) = (pair_value m p + unat (ucast delta :: 32 word) < 2 ^ 32) \<and>
    (case fst (reloc_thumb delta p m) of
       None \<Rightarrow> movw_movt (snd (reloc_thumb delta p m)) p \<and>
         pair_value (snd (reloc_thumb delta p m)) p = pair_value m p + unat (ucast delta :: 32 word)
     | Some e \<Rightarrow> \<exists>i. e = ImmediateWontFit i)"
  using thumb_pair [OF assms, of delta] by (auto split: if_splits)

text \<open>The pair \<open>movw r0, #0x1234; movt r0, #0x4000\<close> at \<open>0x2000\<close>.\<close>

definition sample_thumb :: mem where
  "sample_thumb = (\<lambda>_. 0)(0x2000 := 0x41, 0x2001 := 0xF2, 0x2002 := 0x34, 0x2003 := 0x20,
     0x2004 := 0xC4, 0x2005 := 0xF2, 0x2006 := 0x00, 0x2007 := 0x00)"

lemma sample_thumb_pair: "movw_movt sample_thumb 0x2000" "pair_value sample_thumb 0x2000 = 0x40001234"
  by (simp_all add: movw_movt_def pair_value_def thumb_imm_def sample_thumb_def peek32_def peekn_bytes)

theorem thumb_pair_relocated_witness:
  "fst (reloc_thumb 0x10000 0x2000 sample_thumb) = None \<and>
   pair_value (snd (reloc_thumb 0x10000 0x2000 sample_thumb)) 0x2000 = 0x40011234"
  using thumb_pair_relocated [where delta = "0x10000", OF sample_thumb_pair(1)] by (auto simp: sample_thumb_pair(2) split: option.splits)

text \<open>
  A Thumb-2 image cannot be moved down. When the image is loaded \<open>x\<close> bytes below its preferred
  base and the pair's constant is at least \<open>x\<close>, as every address inside the image is, the
  relocation fails although the relocated constant would fit.
\<close>

theorem thumb_cannot_move_down:
  assumes "movw_movt m p" and "0 < x" and "x < 2 ^ 32" and "x \<le> pair_value m p"
  shows "\<exists>i. fst (reloc_thumb (- of_nat x) p m) = Some (ImmediateWontFit i)"
proof -
  have "unat (of_nat x :: 32 word) = x" using assms(3) by (simp add: unat_of_nat)
  moreover have "(ucast (- of_nat x :: addr) :: 32 word) = - of_nat x" 
    using assms(3) by (simp add: ucast_neg unsigned_of_nat take_bit_nat_eq_self)
  ultimately have "unat (ucast (- of_nat x :: addr) :: 32 word) = 2 ^ 32 - x"
    using unat_sub_if' [of 0 "of_nat x :: 32 word"] assms(2) by simp
  then have "\<not> pair_value m p + unat (ucast (- of_nat x :: addr) :: 32 word) < 2 ^ 32" using assms(3,4) by simp
  then show ?thesis using thumb_pair [OF assms(1), of "- of_nat x"] by simp
qed

theorem thumb_cannot_move_down_witness:
  "\<exists>i. fst (reloc_thumb (- of_nat 0x10000) 0x2000 sample_thumb) = Some (ImmediateWontFit i)"
  by (rule thumb_cannot_move_down [OF sample_thumb_pair(1)]) (simp_all add: sample_thumb_pair(2))

end
