(* ===== verification/Pe_Loader.thy ===== *)
theory Pe_Loader
  imports Pe_Layout Pe_Reloc
begin

unbundle bit_operations_syntax

text \<open>
  The PE loader (\<open>node/tun/wintun/memmod/memmod_windows.go\<close>, \<open>memmod_windows_64.go\<close>): \<open>LoadLibrary\<close>
  with its header checks, the allocation of the image, \<open>copySections\<close>, relocation, the import table,
  page protection, TLS callbacks, the entry point and the table of exported names; \<open>Free\<close>,
  \<open>ProcAddressByName\<close> and \<open>ProcAddressByOrdinal\<close>.

  The Windows API and the code of the loaded library are outside the repository: they are the parameter
  \<open>winapi\<close>. \<open>answer\<close> gives the result of a call from the calls made before, the call and the memory,
  and may change the memory; \<open>BytePtrToString\<close> reads a C string. A call that returns \<open>0\<close> is a call
  that failed, as in \<open>golang.org/x/sys/windows\<close>. The state of the loader is the memory, the trace of
  calls with their results (the last one first) and the \<open>Module\<close> under construction. Loops over
  tables in memory that nothing bounds, and the search for memory inside one 4 GB window, have fuel;
  the outcome \<open>Stuck\<close> says that it ran out.
\<close>

section \<open>The Windows API and the loader's state\<close>

datatype alloc_type = MEM_COMMIT | MEM_RESERVE_COMMIT
datatype free_type = MEM_DECOMMIT | MEM_RELEASE

datatype protection =
    PAGE_NOACCESS | PAGE_EXECUTE | PAGE_READONLY | PAGE_EXECUTE_READ
  | PAGE_WRITECOPY | PAGE_EXECUTE_WRITECOPY | PAGE_READWRITE | PAGE_EXECUTE_READWRITE

datatype wincall =
    VirtualAlloc addr addr alloc_type protection  \<comment> \<open>address, size\<close>
  | VirtualFree addr addr free_type
  | VirtualProtect addr addr protection bool  \<comment> \<open>the last argument: with \<open>PAGE_NOCACHE\<close>\<close>
  | LoadLibraryEx string
  | FreeLibrary addr
  | GetProcAddress addr string
  | GetProcAddressByOrdinal addr addr
  | IsBadReadPtr addr addr
  | CallDll addr addr addr  \<comment> \<open>\<open>syscall.Syscall(f, 3, base, reason, 0)\<close>\<close>

type_synonym win_trace = "(wincall \<times> addr) list"

record winapi =
  answer :: "win_trace \<Rightarrow> wincall \<Rightarrow> mem \<Rightarrow> addr \<times> mem"
  BytePtrToString :: "mem \<Rightarrow> addr \<Rightarrow> string"

record Module =
  headers :: addr
  codeBase :: addr
  modules :: "addr list"
  initialized :: bool
  isDLL :: bool
  isRelocated :: bool
  nameExports :: "(string \<rightharpoonup> 16 word) option"
  entry :: addr
  blockedMemory :: "addr list"

record loader =
  wmem :: mem
  trace :: win_trace
  module :: Module

datatype load_error =
    IncompleteDosHeader | NotMsDos "16 word" | IncompleteNtHeaders | NotNt "32 word" | ForeignPlatform "16 word"
  | UnalignedSection | NotPageAligned | AllocatingCode | AllocatingMemoryBlock | IncompleteHeaders
  | AllocatingHeaders | AllocatingSection | IncompleteSection | RelocatingModule reloc_error | LoadingModule
  | GettingFunctionAddress | ProtectingMemoryPage | DllInitFailed
  | NoExportTable | NoFunctionsExported | NoFunctionsExportedByName | OrdinalTooHigh | OrdinalTooLow
  | FunctionNotFoundByName

datatype 'a outcome = Done 'a | Fail load_error | Crash | Stuck

type_synonym 'a act = "loader \<Rightarrow> 'a outcome \<times> loader"

definition retL :: "'a \<Rightarrow> 'a act" where "retL x s = (Done x, s)"
definition failL :: "load_error \<Rightarrow> 'a act" where "failL e s = (Fail e, s)"
definition crashL :: "'a act" where "crashL s = (Crash, s)"
definition stuckL :: "'a act" where "stuckL s = (Stuck, s)"

definition bindL :: "'a act \<Rightarrow> ('a \<Rightarrow> 'b act) \<Rightarrow> 'b act" where
  "bindL a f s = (case a s of (Done x, s') \<Rightarrow> f x s' | (Fail e, s') \<Rightarrow> (Fail e, s') | (Crash, s') \<Rightarrow> (Crash, s')
     | (Stuck, s') \<Rightarrow> (Stuck, s'))"

definition getM :: "(mem \<Rightarrow> Module \<Rightarrow> 'a act) \<Rightarrow> 'a act" where
  "getM f s = f (wmem s) (module s) s"

definition putM :: "mem \<Rightarrow> unit act" where "putM m s = (Done (), s\<lparr>wmem := m\<rparr>)"
definition setM :: "(Module \<Rightarrow> Module) \<Rightarrow> unit act" where "setM f s = (Done (), s\<lparr>module := f (module s)\<rparr>)"

definition invoke :: "winapi \<Rightarrow> wincall \<Rightarrow> addr act" where
  "invoke W c s =
     (let (r, m) = answer W (trace s) c (wmem s) in (Done r, s\<lparr>wmem := m, trace := (c, r) # trace s\<rparr>))"

primrec forL :: "('a \<Rightarrow> unit act) \<Rightarrow> 'a list \<Rightarrow> unit act" where
  "forL f [] = retL ()"
| "forL f (x # xs) = bindL (f x) (\<lambda>_. forL f xs)"

section \<open>Sections\<close>

definition zero_fill :: "mem \<Rightarrow> addr \<Rightarrow> addr \<Rightarrow> mem" where
  "zero_fill m dst n = (\<lambda>a. if unat (a - dst) < unat n then 0 else m a)"

definition copySection :: "winapi \<Rightarrow> addr \<Rightarrow> addr \<Rightarrow> addr \<Rightarrow> addr \<Rightarrow> unit act" where
  "copySection W address len old_headers sec =
     getM (\<lambda>m md.
       if sec32 ''SizeOfRawData'' m sec = 0 then
         let sectionSize = opt32 ''SectionAlignment'' m old_headers
         in if sectionSize = 0 then retL ()
            else
              bindL (invoke W (VirtualAlloc (codeBase md + ucast (sec32 ''VirtualAddress'' m sec))
                (ucast sectionSize) MEM_COMMIT PAGE_READWRITE)) (\<lambda>r.
                if r = 0 then failL AllocatingSection
                else getM (\<lambda>m md.
                  let dest = codeBase md + ucast (sec32 ''VirtualAddress'' m sec)
                  in putM (zero_fill (SetPhysicalAddress m sec (ucast (dest AND 0xffffffff))) dest (ucast sectionSize))))
       else if len < ucast (sec32 ''PointerToRawData'' m sec + sec32 ''SizeOfRawData'' m sec) then failL IncompleteSection
       else
         bindL (invoke W (VirtualAlloc (codeBase md + ucast (sec32 ''VirtualAddress'' m sec))
           (ucast (sec32 ''SizeOfRawData'' m sec)) MEM_COMMIT PAGE_READWRITE)) (\<lambda>dest.
           if dest = 0 then failL AllocatingMemoryBlock
           else getM (\<lambda>m md.
             putM (SetPhysicalAddress
               (memcpy m (codeBase md + ucast (sec32 ''VirtualAddress'' m sec))
                 (address + ucast (sec32 ''PointerToRawData'' m sec)) (ucast (sec32 ''SizeOfRawData'' m sec)))
               sec (ucast (dest AND 0xffffffff))))))"

definition copySections :: "winapi \<Rightarrow> addr \<Rightarrow> addr \<Rightarrow> addr \<Rightarrow> unit act" where
  "copySections W address len old_headers =
     getM (\<lambda>m md. let (base, n) = Sections m (headers md)
       in forL (\<lambda>i. copySection W address len old_headers (section_at base i)) [0..<n])"

definition realSectionSize :: "mem \<Rightarrow> addr \<Rightarrow> addr \<Rightarrow> addr" where
  "realSectionSize m hdr sec =
     (let size = sec32 ''SizeOfRawData'' m sec
      in if size \<noteq> 0 then ucast size
         else if sec32 ''Characteristics'' m sec AND IMAGE_SCN_CNT_INITIALIZED_DATA \<noteq> 0
              then ucast (opt32 ''SizeOfInitializedData'' m hdr)
         else if sec32 ''Characteristics'' m sec AND IMAGE_SCN_CNT_UNINITIALIZED_DATA \<noteq> 0
              then ucast (opt32 ''SizeOfUninitializedData'' m hdr)
         else 0)"

record sectionFinalizeData =
  sd_address :: addr
  sd_alignedAddress :: addr
  sd_size :: addr
  sd_characteristics :: "32 word"
  sd_last :: bool

definition ProtectionFlags :: "protection list" where
  "ProtectionFlags = [PAGE_NOACCESS, PAGE_EXECUTE, PAGE_READONLY, PAGE_EXECUTE_READ,
     PAGE_WRITECOPY, PAGE_EXECUTE_WRITECOPY, PAGE_READWRITE, PAGE_EXECUTE_READWRITE]"

definition finalizeSection :: "winapi \<Rightarrow> sectionFinalizeData \<Rightarrow> unit act" where
  "finalizeSection W sd =
     getM (\<lambda>m md.
       if sd_size sd = 0 then retL ()
       else if sd_characteristics sd AND IMAGE_SCN_MEM_DISCARDABLE \<noteq> 0 then
         (if sd_address sd = sd_alignedAddress sd then
            (if sd_last sd then bindL (invoke W (VirtualFree (sd_address sd) (sd_size sd) MEM_DECOMMIT)) (\<lambda>_. retL ())
             else
               let align = (ucast (opt32 ''SectionAlignment'' m (headers md)) :: addr)
               in if align = 0 then crashL
                  else if sd_size sd mod align = 0
                  then bindL (invoke W (VirtualFree (sd_address sd) (sd_size sd) MEM_DECOMMIT)) (\<lambda>_. retL ())
                  else retL ())
          else retL ())
       else
         bindL (invoke W (VirtualProtect (sd_address sd) (sd_size sd)
             (ProtectionFlags ! unat (drop_bit 29 (sd_characteristics sd)))
             (sd_characteristics sd AND IMAGE_SCN_MEM_NOT_CACHED \<noteq> 0)))
           (\<lambda>r. if r = 0 then failL ProtectingMemoryPage else retL ()))"

text \<open>
  One turn of the loop of \<open>finalizeSections\<close> either merges section \<open>i\<close> into the current run or
  finalizes the run and starts a new one.
\<close>

definition section_data :: "mem \<Rightarrow> addr \<Rightarrow> addr \<Rightarrow> addr \<Rightarrow> sectionFinalizeData" where
  "section_data m hdr imgOff sec =
     (let a = ucast (PhysicalAddress m sec) OR imgOff
      in \<lparr>sd_address = a, sd_alignedAddress = alignDown a (ucast (opt32 ''SectionAlignment'' m hdr)),
          sd_size = realSectionSize m hdr sec, sd_characteristics = sec32 ''Characteristics'' m sec, sd_last = False\<rparr>)"

definition shares_page :: "sectionFinalizeData \<Rightarrow> sectionFinalizeData \<Rightarrow> bool" where
  "shares_page sd x \<longleftrightarrow> sd_alignedAddress sd = sd_alignedAddress x \<or> sd_alignedAddress x < sd_address sd + sd_size sd"

definition merge_section :: "sectionFinalizeData \<Rightarrow> sectionFinalizeData \<Rightarrow> sectionFinalizeData" where
  "merge_section sd x =
     sd\<lparr>sd_characteristics :=
          (if sd_characteristics x AND IMAGE_SCN_MEM_DISCARDABLE = 0 \<or> sd_characteristics sd AND IMAGE_SCN_MEM_DISCARDABLE = 0
           then (sd_characteristics sd OR sd_characteristics x) AND NOT IMAGE_SCN_MEM_DISCARDABLE
           else sd_characteristics sd OR sd_characteristics x),
        sd_size := sd_address x + sd_size x - sd_address sd\<rparr>"

text \<open>
  The loop counter is a \<open>uint16\<close> below \<open>NumberOfSections\<close>, read anew in every turn; \<open>k\<close> bounds
  the number of turns, and \<open>0xffff\<close> is never exceeded. Indexing the slice past its length panics.
\<close>

primrec finalize_loop :: "nat \<Rightarrow> winapi \<Rightarrow> addr \<Rightarrow> nat \<Rightarrow> addr \<Rightarrow> nat \<Rightarrow> sectionFinalizeData \<Rightarrow> unit act" where
  "finalize_loop 0 W base n imgOff i sd = finalizeSection W (sd\<lparr>sd_last := True\<rparr>)"
| "finalize_loop (Suc k) W base n imgOff i sd =
     getM (\<lambda>m md.
       if i < unat (file16 ''NumberOfSections'' m (headers md)) then
         if n \<le> i then crashL
         else
           let x = section_data m (headers md) imgOff (section_at base i)
           in if shares_page sd x then finalize_loop k W base n imgOff (Suc i) (merge_section sd x)
              else bindL (finalizeSection W sd) (\<lambda>_. finalize_loop k W base n imgOff (Suc i) x)
       else finalizeSection W (sd\<lparr>sd_last := True\<rparr>))"

definition finalizeSections :: "winapi \<Rightarrow> unit act" where
  "finalizeSections W =
     getM (\<lambda>m md.
       let (base, n) = Sections m (headers md); imgOff = imageOffset m (headers md)
       in if n = 0 then crashL
          else finalize_loop 0xffff W base n imgOff 1 (section_data m (headers md) imgOff (section_at base 0)))"

section \<open>TLS callbacks and relocation\<close>

primrec tls_loop :: "nat \<Rightarrow> winapi \<Rightarrow> addr \<Rightarrow> unit act" where
  "tls_loop 0 W callback = stuckL"
| "tls_loop (Suc fuel) W callback =
     getM (\<lambda>m md.
       let f = peek64 m callback
       in if f = 0 then retL ()
          else bindL (invoke W (CallDll f (codeBase md) DLL_PROCESS_ATTACH)) (\<lambda>_. tls_loop fuel W (callback + 8)))"

definition executeTLS :: "nat \<Rightarrow> winapi \<Rightarrow> unit act" where
  "executeTLS fuel W =
     getM (\<lambda>m md.
       let directory = headerDirectory (headers md) IMAGE_DIRECTORY_ENTRY_TLS
       in if dir_VirtualAddress m directory = 0 then retL ()
          else
            let callback = peek64 m (fieldp IMAGE_TLS_DIRECTORY ''AddressOfCallbacks''
                  (codeBase md + ucast (dir_VirtualAddress m directory)))
            in if callback = 0 then retL () else tls_loop fuel W callback)"

definition relocate :: "nat \<Rightarrow> addr \<Rightarrow> unit act" where
  "relocate fuel delta =
     getM (\<lambda>m md.
       let directory = headerDirectory (headers md) IMAGE_DIRECTORY_ENTRY_BASERELOC
       in case performBaseRelocation fuel (codeBase md) (dir_VirtualAddress m directory) (dir_Size m directory) delta m of
            None \<Rightarrow> stuckL
          | Some (r, e, m') \<Rightarrow>
              bindL (putM m') (\<lambda>_. bindL (setM (\<lambda>md. md\<lparr>isRelocated := r\<rparr>)) (\<lambda>_.
                case e of None \<Rightarrow> retL () | Some e \<Rightarrow> failL (RelocatingModule e))))"

section \<open>Imports and exports\<close>

text \<open>The loop over the thunks of one imported library, whose handle the failing branch releases.\<close>

primrec thunk_loop :: "nat \<Rightarrow> winapi \<Rightarrow> addr \<Rightarrow> addr \<Rightarrow> addr \<Rightarrow> unit act" where
  "thunk_loop 0 W handle thunkRef funcRef = stuckL"
| "thunk_loop (Suc fuel) W handle thunkRef funcRef =
     getM (\<lambda>m md.
       let thunk = peek64 m thunkRef
       in if thunk = 0 then retL ()
          else
            bindL (invoke W (if IMAGE_SNAP_BY_ORDINAL thunk then GetProcAddressByOrdinal handle (IMAGE_ORDINAL thunk)
                     else GetProcAddress handle (BytePtrToString W m (fieldp IMAGE_IMPORT_BY_NAME ''Name'' (codeBase md + thunk)))))
              (\<lambda>r. getM (\<lambda>m md. bindL (putM (poke64 m funcRef r)) (\<lambda>_.
                if r = 0 then bindL (invoke W (FreeLibrary handle)) (\<lambda>_. failL GettingFunctionAddress)
                else thunk_loop fuel W handle (thunkRef + 8) (funcRef + 8)))))"

primrec import_loop :: "nat \<Rightarrow> winapi \<Rightarrow> addr \<Rightarrow> unit act" where
  "import_loop 0 W importDesc = stuckL"
| "import_loop (Suc fuel) W importDesc =
     bindL (invoke W (IsBadReadPtr importDesc (of_nat (go_size (Struct IMAGE_IMPORT_DESCRIPTOR))))) (\<lambda>bad.
       getM (\<lambda>m md.
         if bad \<noteq> 0 \<or> imp32 ''Name'' m importDesc = 0 then retL ()
         else
           bindL (invoke W (LoadLibraryEx (BytePtrToString W m (codeBase md + ucast (imp32 ''Name'' m importDesc))))) (\<lambda>handle.
             if handle = 0 then failL LoadingModule
             else getM (\<lambda>m md.
               let funcRef = codeBase md + ucast (imp32 ''FirstThunk'' m importDesc);
                   thunkRef = (if OriginalFirstThunk m importDesc \<noteq> 0
                     then codeBase md + ucast (OriginalFirstThunk m importDesc) else funcRef)
               in bindL (thunk_loop fuel W handle thunkRef funcRef) (\<lambda>_.
                    bindL (setM (\<lambda>md. md\<lparr>modules := modules md @ [handle]\<rparr>)) (\<lambda>_.
                      import_loop fuel W (importDesc + of_nat (go_size (Struct IMAGE_IMPORT_DESCRIPTOR)))))))))"

definition buildImportTable :: "nat \<Rightarrow> winapi \<Rightarrow> unit act" where
  "buildImportTable fuel W =
     getM (\<lambda>m md.
       let directory = headerDirectory (headers md) IMAGE_DIRECTORY_ENTRY_IMPORT
       in if dir_Size m directory = 0 then retL ()
          else
            bindL (setM (\<lambda>md. md\<lparr>modules := []\<rparr>)) (\<lambda>_.
              import_loop fuel W (codeBase md + ucast (dir_VirtualAddress m directory))))"

definition export_names :: "winapi \<Rightarrow> mem \<Rightarrow> addr \<Rightarrow> addr \<Rightarrow> addr \<Rightarrow> nat \<Rightarrow> (string \<times> 16 word) list" where
  "export_names W m cb nameRefs ordinals n =
     map (\<lambda>i. (BytePtrToString W m (cb + ucast (peek32 m (nameRefs + of_nat (4 * i)))),
               peek16 m (ordinals + of_nat (2 * i)))) [0..<n]"

text \<open>A name that occurs twice keeps the last ordinal, as assignment to a Go map does.\<close>

definition buildNameExports :: "winapi \<Rightarrow> unit act" where
  "buildNameExports W =
     getM (\<lambda>m md.
       let directory = headerDirectory (headers md) IMAGE_DIRECTORY_ENTRY_EXPORT;
           exports = codeBase md + ucast (dir_VirtualAddress m directory)
       in if dir_Size m directory = 0 then failL NoExportTable
          else if exp32 ''NumberOfNames'' m exports = 0 \<or> exp32 ''NumberOfFunctions'' m exports = 0
               then failL NoFunctionsExported
          else if exp32 ''NumberOfNames'' m exports = 0 then failL NoFunctionsExportedByName
          else
            setM (\<lambda>md. md\<lparr>nameExports := Some (map_of (rev (export_names W m (codeBase md)
              (codeBase md + ucast (exp32 ''AddressOfNames'' m exports))
              (codeBase md + ucast (exp32 ''AddressOfNameOrdinals'' m exports))
              (unat (exp32 ''NumberOfNames'' m exports)))))\<rparr>))"

definition function_address :: "mem \<Rightarrow> Module \<Rightarrow> addr \<Rightarrow> 16 word \<Rightarrow> addr" where
  "function_address m md exports idx =
     codeBase md + ucast (peek32 m (codeBase md + ucast (exp32 ''AddressOfFunctions'' m exports) + ucast idx * 4))"

definition ProcAddressByName :: "string \<Rightarrow> mem \<Rightarrow> Module \<Rightarrow> load_error + addr" where
  "ProcAddressByName name m md =
     (let directory = headerDirectory (headers md) IMAGE_DIRECTORY_ENTRY_EXPORT;
          exports = codeBase md + ucast (dir_VirtualAddress m directory)
      in if dir_Size m directory = 0 then Inl NoExportTable
         else case nameExports md of
                None \<Rightarrow> Inl NoFunctionsExportedByName
              | Some names \<Rightarrow>
                  (case names name of
                     None \<Rightarrow> Inl FunctionNotFoundByName
                   | Some idx \<Rightarrow>
                       if exp32 ''NumberOfFunctions'' m exports < ucast idx then Inl OrdinalTooHigh
                       else Inr (function_address m md exports idx)))"

definition ProcAddressByOrdinal :: "16 word \<Rightarrow> mem \<Rightarrow> Module \<Rightarrow> load_error + addr" where
  "ProcAddressByOrdinal ordinal m md =
     (let directory = headerDirectory (headers md) IMAGE_DIRECTORY_ENTRY_EXPORT;
          exports = codeBase md + ucast (dir_VirtualAddress m directory)
      in if dir_Size m directory = 0 then Inl NoExportTable
         else if ucast ordinal < exp32 ''Base'' m exports then Inl OrdinalTooLow
         else
           let idx = ordinal - ucast (exp32 ''Base'' m exports)
           in if exp32 ''NumberOfFunctions'' m exports < ucast idx then Inl OrdinalTooHigh
              else Inr (function_address m md exports idx))"

section \<open>Loading and freeing\<close>

primrec check4GBBoundaries :: "nat \<Rightarrow> winapi \<Rightarrow> addr \<Rightarrow> unit act" where
  "check4GBBoundaries 0 W alignedImageSize = stuckL"
| "check4GBBoundaries (Suc fuel) W alignedImageSize =
     getM (\<lambda>m md.
       if drop_bit 32 (codeBase md) < drop_bit 32 (codeBase md + alignedImageSize) then
         bindL (setM (\<lambda>md. md\<lparr>blockedMemory := codeBase md # blockedMemory md\<rparr>)) (\<lambda>_.
           bindL (invoke W (VirtualAlloc 0 alignedImageSize MEM_RESERVE_COMMIT PAGE_READWRITE)) (\<lambda>r.
             bindL (setM (\<lambda>md. md\<lparr>codeBase := r\<rparr>)) (\<lambda>_.
               if r = 0 then failL AllocatingMemoryBlock else check4GBBoundaries fuel W alignedImageSize)))
       else retL ())"

definition end_of_section :: "mem \<Rightarrow> 32 word \<Rightarrow> addr \<Rightarrow> addr" where
  "end_of_section m optionalSectionSize sec =
     ucast (sec32 ''VirtualAddress'' m sec) +
     (if sec32 ''SizeOfRawData'' m sec = 0 then ucast optionalSectionSize else ucast (sec32 ''SizeOfRawData'' m sec))"

definition lastSectionEnd :: "mem \<Rightarrow> addr \<Rightarrow> addr" where
  "lastSectionEnd m oldHeader =
     (let (base, n) = Sections m oldHeader
      in foldl (\<lambda>e i. max e (end_of_section m (opt32 ''SectionAlignment'' m oldHeader) (section_at base i))) 0 [0..<n])"

text \<open>The checks of the file's headers, before anything is allocated; the result is \<open>oldHeader\<close>.\<close>

definition check_headers :: "goarch \<Rightarrow> mem \<Rightarrow> addr \<Rightarrow> addr \<Rightarrow> load_error + addr" where
  "check_headers arch m data len =
     (if len < of_nat (go_size (Struct IMAGE_DOS_HEADER)) then Inl IncompleteDosHeader
      else if E_magic m data \<noteq> IMAGE_DOS_SIGNATURE then Inl (NotMsDos (E_magic m data))
      else if len < E_lfanew m data + of_nat (go_size (Struct IMAGE_NT_HEADERS)) then Inl IncompleteNtHeaders
      else
        let oldHeader = data + E_lfanew m data;
            align = ucast (opt32 ''SectionAlignment'' m oldHeader)
        in if Signature m oldHeader \<noteq> IMAGE_NT_SIGNATURE then Inl (NotNt (Signature m oldHeader))
           else if file16 ''Machine'' m oldHeader \<noteq> imageFileProcess arch
                then Inl (ForeignPlatform (file16 ''Machine'' m oldHeader))
           else if opt32 ''SectionAlignment'' m oldHeader AND 1 \<noteq> 0 then Inl UnalignedSection
           else if alignUp (ucast (opt32 ''SizeOfImage'' m oldHeader)) align \<noteq> alignUp (lastSectionEnd m oldHeader) align
                then Inl NotPageAligned
           else Inr oldHeader)"

definition alloc_image :: "winapi \<Rightarrow> addr \<Rightarrow> addr \<Rightarrow> unit act" where
  "alloc_image W base alignedImageSize =
     bindL (invoke W (VirtualAlloc base alignedImageSize MEM_RESERVE_COMMIT PAGE_READWRITE)) (\<lambda>r.
       bindL (setM (\<lambda>md. md\<lparr>codeBase := r\<rparr>)) (\<lambda>_.
         if r \<noteq> 0 then retL ()
         else
           bindL (invoke W (VirtualAlloc 0 alignedImageSize MEM_RESERVE_COMMIT PAGE_READWRITE)) (\<lambda>r.
             bindL (setM (\<lambda>md. md\<lparr>codeBase := r\<rparr>)) (\<lambda>_.
               if r = 0 then failL AllocatingCode else retL ()))))"

definition copy_headers :: "winapi \<Rightarrow> addr \<Rightarrow> addr \<Rightarrow> addr \<Rightarrow> unit act" where
  "copy_headers W data len oldHeader =
     getM (\<lambda>m md.
       if len < ucast (opt32 ''SizeOfHeaders'' m oldHeader) then failL IncompleteHeaders
       else
         bindL (invoke W (VirtualAlloc (codeBase md) (ucast (opt32 ''SizeOfHeaders'' m oldHeader)) MEM_COMMIT PAGE_READWRITE)) (\<lambda>hd.
           if hd = 0 then failL AllocatingHeaders
           else getM (\<lambda>m md.
             let m1 = memcpy m hd data (ucast (opt32 ''SizeOfHeaders'' m oldHeader));
                 hdr = hd + E_lfanew m1 data
             in bindL (setM (\<lambda>md. md\<lparr>headers := hdr\<rparr>)) (\<lambda>_. putM (set_ImageBase m1 hdr (codeBase md))))))"

definition adjust_base :: "nat \<Rightarrow> addr \<Rightarrow> unit act" where
  "adjust_base fuel oldHeader =
     getM (\<lambda>m md.
       let locationDelta = ImageBase m (headers md) - ImageBase m oldHeader
       in if locationDelta \<noteq> 0 then relocate fuel locationDelta
          else setM (\<lambda>md. md\<lparr>isRelocated := True\<rparr>))"

definition call_entry :: "winapi \<Rightarrow> unit act" where
  "call_entry W =
     getM (\<lambda>m md.
       let AddressOfEntryPoint = opt32 ''AddressOfEntryPoint'' m (headers md);
           e = codeBase md + ucast AddressOfEntryPoint
       in if AddressOfEntryPoint = 0 then retL ()
          else
            bindL (setM (\<lambda>md. md\<lparr>entry := e\<rparr>)) (\<lambda>_.
              if \<not> isDLL md then retL ()
              else
                bindL (invoke W (CallDll e (codeBase md) DLL_PROCESS_ATTACH)) (\<lambda>r0.
                  if r0 = 0 then failL DllInitFailed else setM (\<lambda>md. md\<lparr>initialized := True\<rparr>))))"

text \<open>The error of \<open>buildNameExports\<close> is dropped.\<close>

definition ignore_error :: "unit act \<Rightarrow> unit act" where
  "ignore_error a s = (case a s of (Fail e, s') \<Rightarrow> (Done (), s') | r \<Rightarrow> r)"

definition load_image :: "nat \<Rightarrow> winapi \<Rightarrow> addr \<Rightarrow> addr \<Rightarrow> addr \<Rightarrow> unit act" where
  "load_image fuel W data len oldHeader =
     getM (\<lambda>m _.
       let alignedImageSize = alignUp (ucast (opt32 ''SizeOfImage'' m oldHeader)) (ucast (opt32 ''SectionAlignment'' m oldHeader))
       in bindL (alloc_image W (ImageBase m oldHeader) alignedImageSize) (\<lambda>_.
          bindL (check4GBBoundaries fuel W alignedImageSize) (\<lambda>_.
          bindL (copy_headers W data len oldHeader) (\<lambda>_.
          bindL (copySections W data len oldHeader) (\<lambda>_.
          bindL (adjust_base fuel oldHeader) (\<lambda>_.
          bindL (buildImportTable fuel W) (\<lambda>_.
          bindL (finalizeSections W) (\<lambda>_.
          bindL (executeTLS fuel W) (\<lambda>_.
          bindL (call_entry W) (\<lambda>_. ignore_error (buildNameExports W)))))))))))"

definition empty_module :: Module where
  "empty_module = \<lparr>headers = 0, codeBase = 0, modules = [], initialized = False, isDLL = False, isRelocated = False,
     nameExports = None, entry = 0, blockedMemory = []\<rparr>"

definition Free :: "winapi \<Rightarrow> unit act" where
  "Free W =
     bindL (getM (\<lambda>m md.
       if initialized md then
         bindL (invoke W (CallDll (entry md) (codeBase md) DLL_PROCESS_DETACH)) (\<lambda>_. setM (\<lambda>md. md\<lparr>initialized := False\<rparr>))
       else retL ())) (\<lambda>_.
     bindL (getM (\<lambda>m md.
       bindL (forL (\<lambda>h. bindL (invoke W (FreeLibrary h)) (\<lambda>_. retL ())) (modules md)) (\<lambda>_. setM (\<lambda>md. md\<lparr>modules := []\<rparr>)))) (\<lambda>_.
     bindL (getM (\<lambda>m md.
       if codeBase md \<noteq> 0 then
         bindL (invoke W (VirtualFree (codeBase md) 0 MEM_RELEASE)) (\<lambda>_. setM (\<lambda>md. md\<lparr>codeBase := 0\<rparr>))
       else retL ())) (\<lambda>_.
     getM (\<lambda>m md.
       bindL (forL (\<lambda>a. bindL (invoke W (VirtualFree a 0 MEM_RELEASE)) (\<lambda>_. retL ())) (blockedMemory md)) (\<lambda>_.
         setM (\<lambda>md. md\<lparr>blockedMemory := []\<rparr>))))))"

text \<open>
  \<open>LoadLibrary(data)\<close>, with \<open>data\<close> the address of the slice's first byte and \<open>len\<close> its length. The
  deferred function frees the module when an error is returned.
\<close>

definition LoadLibrary :: "nat \<Rightarrow> goarch \<Rightarrow> winapi \<Rightarrow> addr \<Rightarrow> addr \<Rightarrow> unit act" where
  "LoadLibrary fuel arch W data len =
     (if len = 0 then crashL
      else
        getM (\<lambda>m _.
          case check_headers arch m data len of
            Inl e \<Rightarrow> failL e
          | Inr oldHeader \<Rightarrow>
              bindL (setM (\<lambda>_. empty_module\<lparr>isDLL := file16 ''Characteristics'' m oldHeader AND IMAGE_FILE_DLL \<noteq> 0\<rparr>)) (\<lambda>_ s.
                case load_image fuel W data len oldHeader s of
                  (Fail e, s') \<Rightarrow> bindL (Free W) (\<lambda>_. failL e) s'
                | r \<Rightarrow> r)))"

end
