(* ===== verification/Pe_Layout32.thy ===== *)
theory Pe_Layout32
  imports Pe_Loader
begin

unbundle bit_operations_syntax

text \<open>
  The loader on 32-bit targets, as far as its source differs from that for 64 bits: the optional header of
  \<open>syscall_windows_32.go\<close>, the hooks of \<open>memmod_windows_32.go\<close>, the machine types, and the layout of all structures for either
  size of \<open>uintptr\<close>. A PE file stores its structures without gaps, while Go aligns every field: the loader is right to cast
  addresses to pointers only because no field needs padding.
\<close>

section \<open>Layout for a given size of uintptr\<close>

fun go_align_at :: "nat \<Rightarrow> gotype \<Rightarrow> nat" where
  "go_align_at w Uint8 = 1"
| "go_align_at w Uint16 = 2"
| "go_align_at w Uint32 = 4"
| "go_align_at w Uintptr = w"
| "go_align_at w (Array n t) = go_align_at w t"
| "go_align_at w (Struct fs) = foldl (\<lambda>a f. max a (go_align_at w (snd f))) 1 fs"

fun go_size_at :: "nat \<Rightarrow> gotype \<Rightarrow> nat" where
  "go_size_at w Uint8 = 1"
| "go_size_at w Uint16 = 2"
| "go_size_at w Uint32 = 4"
| "go_size_at w Uintptr = w"
| "go_size_at w (Array n t) = n * go_size_at w t"
| "go_size_at w (Struct fs) =
     round_up (foldl (\<lambda>off f. round_up off (go_align_at w (snd f)) + go_size_at w (snd f)) 0 fs) (go_align_at w (Struct fs))"

primrec offset_from_at :: "nat \<Rightarrow> nat \<Rightarrow> (string \<times> gotype) list \<Rightarrow> string \<Rightarrow> nat" where
  "offset_from_at w off [] name = off"
| "offset_from_at w off (f # fs) name =
     (if fst f = name then round_up off (go_align_at w (snd f))
      else offset_from_at w (round_up off (go_align_at w (snd f)) + go_size_at w (snd f)) fs name)"

definition offsetof_at :: "nat \<Rightarrow> (string \<times> gotype) list \<Rightarrow> string \<Rightarrow> nat" where
  "offsetof_at w fs name = offset_from_at w 0 fs name"

text \<open>Eight bytes give the layout that the loader's accessors use.\<close>

lemma go_align_at_8: "go_align_at 8 t = go_align t"
  by (induction t rule: go_align.induct) (auto intro!: foldl_cong)

lemma go_size_at_8: "go_size_at 8 t = go_size t"
proof (induction t rule: go_size.induct)
  case (6 fs)
  have "foldl (\<lambda>off f. round_up off (go_align_at 8 (snd f)) + go_size_at 8 (snd f)) 0 fs =
      foldl (\<lambda>off f. round_up off (go_align (snd f)) + go_size (snd f)) 0 fs"
    using 6 by (intro foldl_cong) (auto simp: go_align_at_8)
  then show ?case by (simp only: go_size_at.simps(6) go_size.simps(6) go_align_at_8)
qed simp_all

lemma offsetof_at_8: "offsetof_at 8 fs name = offsetof fs name"
proof -
  have "offset_from_at 8 off fs name = offset_from off fs name" for off
    by (induction fs arbitrary: off) (simp_all add: go_align_at_8 go_size_at_8)
  then show ?thesis by (simp add: offsetof_at_def offsetof_def)
qed

text \<open>The offset of a field when the fields are stored one after the other.\<close>

primrec packed_offset :: "nat \<Rightarrow> (string \<times> gotype) list \<Rightarrow> string \<Rightarrow> nat" where
  "packed_offset w [] name = 0"
| "packed_offset w (f # fs) name = (if fst f = name then 0 else go_size_at w (snd f) + packed_offset w fs name)"

definition packed :: "nat \<Rightarrow> (string \<times> gotype) list \<Rightarrow> bool" where
  "packed w fs = list_all (\<lambda>f. offsetof_at w fs (fst f) = packed_offset w fs (fst f)) fs"

section \<open>The structures of 32-bit images\<close>

definition IMAGE_OPTIONAL_HEADER_32 :: "(string \<times> gotype) list" where
  "IMAGE_OPTIONAL_HEADER_32 =
     [(''Magic'', Uint16), (''MajorLinkerVersion'', Uint8), (''MinorLinkerVersion'', Uint8),
      (''SizeOfCode'', Uint32), (''SizeOfInitializedData'', Uint32), (''SizeOfUninitializedData'', Uint32),
      (''AddressOfEntryPoint'', Uint32), (''BaseOfCode'', Uint32), (''BaseOfData'', Uint32), (''ImageBase'', Uintptr),
      (''SectionAlignment'', Uint32), (''FileAlignment'', Uint32),
      (''MajorOperatingSystemVersion'', Uint16), (''MinorOperatingSystemVersion'', Uint16),
      (''MajorImageVersion'', Uint16), (''MinorImageVersion'', Uint16),
      (''MajorSubsystemVersion'', Uint16), (''MinorSubsystemVersion'', Uint16),
      (''Win32VersionValue'', Uint32), (''SizeOfImage'', Uint32), (''SizeOfHeaders'', Uint32),
      (''CheckSum'', Uint32), (''Subsystem'', Uint16), (''DllCharacteristics'', Uint16),
      (''SizeOfStackReserve'', Uintptr), (''SizeOfStackCommit'', Uintptr),
      (''SizeOfHeapReserve'', Uintptr), (''SizeOfHeapCommit'', Uintptr), (''LoaderFlags'', Uint32),
      (''NumberOfRvaAndSizes'', Uint32), (''DataDirectory'', Array 16 (Struct IMAGE_DATA_DIRECTORY))]"

definition IMAGE_NT_HEADERS_32 :: "(string \<times> gotype) list" where
  "IMAGE_NT_HEADERS_32 =
     [(''Signature'', Uint32), (''FileHeader'', Struct IMAGE_FILE_HEADER), (''OptionalHeader'', Struct IMAGE_OPTIONAL_HEADER_32)]"

text \<open>\<open>SYSTEM_INFO\<close>, which the loader gets from \<open>GetNativeSystemInfo\<close> for the page size.\<close>

definition SYSTEM_INFO :: "(string \<times> gotype) list" where
  "SYSTEM_INFO =
     [(''ProcessorArchitecture'', Uint16), (''Reserved'', Uint16), (''PageSize'', Uint32),
      (''MinimumApplicationAddress'', Uintptr), (''MaximumApplicationAddress'', Uintptr), (''ActiveProcessorMask'', Uintptr),
      (''NumberOfProcessors'', Uint32), (''ProcessorType'', Uint32), (''AllocationGranularity'', Uint32),
      (''ProcessorLevel'', Uint16), (''ProcessorRevision'', Uint16)]"

definition IMAGE_BASE_RELOCATION :: "(string \<times> gotype) list" where
  "IMAGE_BASE_RELOCATION = [(''VirtualAddress'', Uint32), (''SizeOfBlock'', Uint32)]"

definition shared_structures :: "(string \<times> gotype) list list" where
  "shared_structures =
     [IMAGE_DOS_HEADER, IMAGE_FILE_HEADER, IMAGE_DATA_DIRECTORY, IMAGE_SECTION_HEADER, IMAGE_EXPORT_DIRECTORY, IMAGE_IMPORT_BY_NAME,
      IMAGE_TLS_DIRECTORY, IMAGE_IMPORT_DESCRIPTOR, IMAGE_BASE_RELOCATION, SYSTEM_INFO]"

datatype goarch32 = i386 | arm

definition imageFileProcess_32 :: "goarch32 \<Rightarrow> 16 word" where
  "imageFileProcess_32 arch = (case arch of i386 \<Rightarrow> 0x014c | arm \<Rightarrow> 0x01c4)"

definition IMAGE_ORDINAL_FLAG_32 :: "32 word" where
  "IMAGE_ORDINAL_FLAG_32 = 0x80000000"

section \<open>The hooks\<close>

definition imageOffset_32 :: "mem \<Rightarrow> addr \<Rightarrow> addr" where
  "imageOffset_32 m opthdr = 0"

definition check4GBBoundaries_32 :: "addr \<Rightarrow> unit act" where
  "check4GBBoundaries_32 alignedImageSize = retL ()"

text \<open>For an image below 4 GB the hooks of both widths do the same.\<close>

lemma high_half_zero: "uint (a :: addr) < 2 ^ 32 \<Longrightarrow> drop_bit 32 a = 0"
proof -
  assume "uint a < 2 ^ 32"
  moreover from this have "take_bit 64 (uint a) = uint a" by (intro take_bit_int_eq_self) simp_all
  ultimately have "uint (drop_bit 32 a) = 0" unfolding unsigned_drop_bit_eq by (simp add: drop_bit_eq_div)
  then show ?thesis by (simp only: uint_0_iff)
qed

lemma hooks_agree:
  shows "uint (codeBase (module s)) + uint n < 2 ^ 32 \<Longrightarrow> check4GBBoundaries (Suc fuel) W n s = check4GBBoundaries_32 n s"
    and "uint (ImageBase m p) < 2 ^ 32 \<Longrightarrow> imageOffset m p = imageOffset_32 m p"
proof -
  assume lt: "uint (codeBase (module s)) + uint n < 2 ^ 32"
  then have "uint (codeBase (module s) + n) < 2 ^ 32" by (simp add: uint_plus_simple_iff uint_word_ariths)
  moreover have "uint (codeBase (module s)) < 2 ^ 32" using lt uint_ge_0 [of n] by linarith
  ultimately show "check4GBBoundaries (Suc fuel) W n s = check4GBBoundaries_32 n s"
    by (simp add: high_half_zero check4GBBoundaries_32_def getM_def retL_def)
next
  assume lt: "uint (ImageBase m p) < 2 ^ 32"
  have "\<not> bit (ImageBase m p) k" if "32 \<le> k" for k
  proof -
    have "bit (ImageBase m p) k = bit (drop_bit 32 (ImageBase m p)) (k - 32)" using that by (simp add: bit_drop_bit_eq)
    then show ?thesis by (simp add: high_half_zero [OF lt])
  qed
  moreover have "(0xffffffff00000000 :: addr) = push_bit 32 (mask 32)" by (simp add: mask_eq_exp_minus_1 push_bit_eq_mult)
  then have "bit (0xffffffff00000000 :: addr) k \<Longrightarrow> 32 \<le> k" for k by (simp only: bit_push_bit_iff)
  ultimately show "imageOffset m p = imageOffset_32 m p"
    unfolding imageOffset_def imageOffset_32_def by (intro bit_word_eqI) (auto simp: bit_and_iff)
qed

section \<open>Structures over the file\<close>

text \<open>
  The structures lie over the file without gaps: with a \<open>uintptr\<close> of four and of eight
  bytes, the offset that Go's alignment rules give a field is the sum of the sizes of the fields before it. The offsets of the
  fields of the optional header that the loader reads are those of the PE format, PE32+ and PE32, given as numbers.
\<close>

lemma structures_packed:
  "list_all (packed 8) ([IMAGE_OPTIONAL_HEADER, IMAGE_NT_HEADERS] @ shared_structures)"
  "list_all (packed 4) ([IMAGE_OPTIONAL_HEADER_32, IMAGE_NT_HEADERS_32] @ shared_structures)"
  by code_simp+

lemma optional_header_offsets:
  "list_all (\<lambda>(f, n). offsetof_at 8 IMAGE_OPTIONAL_HEADER f = n \<and> offsetof_at 4 IMAGE_OPTIONAL_HEADER_32 f = n)
     [(''Magic'', 0), (''AddressOfEntryPoint'', 16), (''BaseOfCode'', 20), (''SectionAlignment'', 32), (''FileAlignment'', 36),
      (''SizeOfImage'', 56), (''SizeOfHeaders'', 60), (''CheckSum'', 64), (''DllCharacteristics'', 70)]"
  "offsetof_at 8 IMAGE_OPTIONAL_HEADER ''ImageBase'' = 24" "offsetof_at 4 IMAGE_OPTIONAL_HEADER_32 ''ImageBase'' = 28"
  "offsetof_at 8 IMAGE_OPTIONAL_HEADER ''DataDirectory'' = 112" "offsetof_at 4 IMAGE_OPTIONAL_HEADER_32 ''DataDirectory'' = 96"
  by code_simp+

end
