(* ===== verification/Pe_Resources.thy ===== *)
theory Pe_Resources
  imports Pe_Loader
begin

unbundle bit_operations_syntax

text \<open>
  What the PE loader holds: the regions it reserved with \<open>VirtualAlloc\<close> and the libraries it opened with
  \<open>LoadLibraryEx\<close>, read off the trace of API calls. A Hoare-style predicate \<open>valid\<close> for the loader's
  actions, with one postcondition for a return and one for an error, carries the invariant \<open>owns\<close>: the
  module's fields name exactly what is held. Actions that touch neither (\<open>keeps\<close>) are dealt with by the
  rules in \<open>keeping\<close>. The result is that a failed \<open>LoadLibrary\<close>, and a load followed by \<open>Free\<close>, gives
  everything back exactly once, whatever the API answers.
\<close>

section \<open>Resources\<close>

primrec acquired :: "win_trace \<Rightarrow> addr multiset" where
  "acquired [] = {#}"
| "acquired (c # t) =
     (case c of (VirtualAlloc _ _ MEM_RESERVE_COMMIT _, r) \<Rightarrow> if r = 0 then {#} else {#r#} | _ \<Rightarrow> {#}) + acquired t"

primrec released :: "win_trace \<Rightarrow> addr multiset" where
  "released [] = {#}"
| "released (c # t) = (case fst c of VirtualFree a _ MEM_RELEASE \<Rightarrow> {#a#} | _ \<Rightarrow> {#}) + released t"

primrec loaded :: "win_trace \<Rightarrow> addr multiset" where
  "loaded [] = {#}"
| "loaded (c # t) = (case c of (LoadLibraryEx _, r) \<Rightarrow> if r = 0 then {#} else {#r#} | _ \<Rightarrow> {#}) + loaded t"

primrec unloaded :: "win_trace \<Rightarrow> addr multiset" where
  "unloaded [] = {#}"
| "unloaded (c # t) = (case fst c of FreeLibrary h \<Rightarrow> {#h#} | _ \<Rightarrow> {#}) + unloaded t"

definition holds_res :: "addr multiset \<Rightarrow> addr multiset \<Rightarrow> loader \<Rightarrow> bool" where
  "holds_res R H s \<longleftrightarrow> acquired (trace s) = released (trace s) + R \<and> loaded (trace s) = unloaded (trace s) + H"

definition regions :: "Module \<Rightarrow> addr multiset" where
  "regions md = (if codeBase md = 0 then {#} else {#codeBase md#}) + mset (blockedMemory md)"

definition owns :: "loader \<Rightarrow> bool" where
  "owns s \<longleftrightarrow> holds_res (regions (module s)) (mset (modules (module s))) s"

definition valid :: "(loader \<Rightarrow> bool) \<Rightarrow> 'a act \<Rightarrow> ('a \<Rightarrow> loader \<Rightarrow> bool) \<Rightarrow> (loader \<Rightarrow> bool) \<Rightarrow> bool" where
  "valid P a Q E \<longleftrightarrow> (\<forall>s. P s \<longrightarrow> (case a s of (Done x, s') \<Rightarrow> Q x s' | (Fail e, s') \<Rightarrow> E s' | _ \<Rightarrow> True))"

section \<open>Rules for actions\<close>

named_theorems hoare

lemma valid_ret [hoare]: "(\<And>s. P s \<Longrightarrow> Q x s) \<Longrightarrow> valid P (retL x) Q E"
  by (auto simp: valid_def retL_def)

lemma valid_fail [hoare]: "(\<And>s. P s \<Longrightarrow> E s) \<Longrightarrow> valid P (failL e) Q E"
  by (auto simp: valid_def failL_def)

lemma valid_crash [hoare]: "valid P crashL Q E"
  by (simp add: valid_def crashL_def)

lemma valid_stuck [hoare]: "valid P stuckL Q E"
  by (simp add: valid_def stuckL_def)

lemma valid_bind [hoare]: "valid P a R E \<Longrightarrow> (\<And>x. valid (R x) (f x) Q E) \<Longrightarrow> valid P (bindL a f) Q E"
  unfolding valid_def bindL_def by (fastforce split: prod.splits outcome.splits)

lemma valid_getM [hoare]: "(\<And>m md. valid (\<lambda>s. P s \<and> wmem s = m \<and> module s = md) (f m md) Q E) \<Longrightarrow> valid P (getM f) Q E"
  by (auto simp: valid_def getM_def)

lemma valid_put [hoare]: "(\<And>s. P s \<Longrightarrow> Q () (s\<lparr>wmem := m\<rparr>)) \<Longrightarrow> valid P (putM m) Q E"
  by (auto simp: valid_def putM_def)

lemma valid_set [hoare]: "(\<And>s. P s \<Longrightarrow> Q () (s\<lparr>module := f (module s)\<rparr>)) \<Longrightarrow> valid P (setM f) Q E"
  by (auto simp: valid_def setM_def)

lemma valid_invoke [hoare]:
  "(\<And>s r m. P s \<Longrightarrow> Q r (s\<lparr>wmem := m, trace := (c, r) # trace s\<rparr>)) \<Longrightarrow> valid P (invoke W c) Q E"
  by (auto simp: valid_def invoke_def Let_def split: prod.splits)

lemma valid_if [hoare]: "(b \<Longrightarrow> valid P a Q E) \<Longrightarrow> (\<not> b \<Longrightarrow> valid P a' Q E) \<Longrightarrow> valid P (if b then a else a') Q E"
  by simp

lemma valid_pre: "valid P' a Q E \<Longrightarrow> (\<And>s. P s \<Longrightarrow> P' s) \<Longrightarrow> valid P a Q E"
  by (auto simp: valid_def)

section \<open>Actions that acquire and release nothing\<close>

definition quiet_call :: "wincall \<Rightarrow> bool" where
  "quiet_call c \<longleftrightarrow> (case c of VirtualAlloc _ _ t _ \<Rightarrow> t = MEM_COMMIT | VirtualFree _ _ t \<Rightarrow> t = MEM_DECOMMIT
     | LoadLibraryEx _ \<Rightarrow> False | FreeLibrary _ \<Rightarrow> False | _ \<Rightarrow> True)"

definition same_res :: "Module \<Rightarrow> Module \<Rightarrow> bool" where
  "same_res md md' \<longleftrightarrow> codeBase md = codeBase md' \<and> blockedMemory md = blockedMemory md' \<and> modules md = modules md'"

definition keeps :: "'a act \<Rightarrow> bool" where
  "keeps a \<longleftrightarrow> (\<forall>md R H. valid (\<lambda>s. same_res (module s) md \<and> holds_res R H s) a
     (\<lambda>_ s. same_res (module s) md \<and> holds_res R H s) (\<lambda>s. same_res (module s) md \<and> holds_res R H s))"

lemma holds_quiet: "quiet_call c \<Longrightarrow> holds_res R H (s\<lparr>wmem := m, trace := (c, r) # trace s\<rparr>) = holds_res R H s"
  by (auto simp: holds_res_def quiet_call_def split: wincall.splits alloc_type.splits free_type.splits)

lemma holds_res_simps [simp]:
  "holds_res R H (s\<lparr>wmem := m\<rparr>) = holds_res R H s" "holds_res R H (s\<lparr>module := md\<rparr>) = holds_res R H s"
  by (simp_all add: holds_res_def)

named_theorems keeping

lemma keeps_basic [keeping]: "keeps (retL x)" "keeps (failL e)" "keeps crashL" "keeps stuckL" "keeps (putM m)"
  by (auto simp: keeps_def intro!: hoare)

lemma keeps_invoke [keeping]: "quiet_call c \<Longrightarrow> keeps (invoke W c)"
  by (auto simp: keeps_def holds_quiet intro!: hoare)

lemma keeps_bind [keeping]: "keeps a \<Longrightarrow> (\<And>x. keeps (f x)) \<Longrightarrow> keeps (bindL a f)"
  unfolding keeps_def by (blast intro: valid_bind)

lemma keeps_getM [keeping]: "(\<And>m md. keeps (f m md)) \<Longrightarrow> keeps (getM f)"
  by (auto simp: keeps_def valid_def getM_def)

lemma keeps_set [keeping]: "(\<And>md. same_res (f md) md) \<Longrightarrow> keeps (setM f)"
  by (auto simp: keeps_def same_res_def intro!: hoare)

lemma keeps_if [keeping]: "(b \<Longrightarrow> keeps a) \<Longrightarrow> (\<not> b \<Longrightarrow> keeps a') \<Longrightarrow> keeps (if b then a else a')"
  by simp

lemma keeps_let [keeping]: "(\<And>x. keeps (f x)) \<Longrightarrow> keeps (let x = t in f x)"
  by simp

lemma keeps_for [keeping]: "(\<And>x. keeps (f x)) \<Longrightarrow> keeps (forL f xs)"
  by (induction xs) (auto intro!: keeping)

lemma valid_ignore: "valid P a (\<lambda>_. Q) Q \<Longrightarrow> valid P (ignore_error a) (\<lambda>_. Q) Q"
  unfolding valid_def ignore_error_def by (auto split: prod.splits outcome.splits)

lemma keeps_ignore [keeping]: "keeps a \<Longrightarrow> keeps (ignore_error a)"
  unfolding keeps_def by (blast intro: valid_ignore)

lemma regions_same: "same_res md' md \<Longrightarrow> regions md' = regions md"
  by (simp add: same_res_def regions_def)

lemma modules_same: "same_res md' md \<Longrightarrow> modules md' = modules md"
  by (simp add: same_res_def)

lemma keeps_inv:
  assumes "keeps a" and Q: "\<And>md md'. same_res md' md \<Longrightarrow> Q md \<Longrightarrow> Q md'"
  shows "valid (\<lambda>s. owns s \<and> Q (module s)) a (\<lambda>_ s. owns s \<and> Q (module s)) owns"
  unfolding valid_def
proof (intro allI impI)
  fix s assume o: "owns s \<and> Q (module s)"
  then have "case a s of (Done x, s') \<Rightarrow> same_res (module s') (module s) \<and> holds_res (regions (module s)) (mset (modules (module s))) s'
     | (Fail e, s') \<Rightarrow> same_res (module s') (module s) \<and> holds_res (regions (module s)) (mset (modules (module s))) s' | _ \<Rightarrow> True"
    using assms(1) [unfolded keeps_def valid_def, rule_format, of s "module s" "regions (module s)" "mset (modules (module s))"]
    by (simp add: owns_def same_res_def)
  moreover have "owns s'" if "same_res (module s') (module s)" "holds_res (regions (module s)) (mset (modules (module s))) s'" for s'
    using that by (simp add: owns_def regions_same modules_same)
  ultimately show "case a s of (Done x, s') \<Rightarrow> owns s' \<and> Q (module s') | (Fail e, s') \<Rightarrow> owns s' | _ \<Rightarrow> True"
    using o Q by (auto split: prod.splits outcome.splits)
qed

lemma keeps_owns: "keeps a \<Longrightarrow> valid owns a (\<lambda>_. owns) owns"
  using keeps_inv [of a "\<lambda>_. True"] by simp

text \<open>Most of the loader: sections, relocation, TLS callbacks, the entry point, exports.\<close>

lemma keeps_copySection: "keeps (copySection W a l oh sec)"
  unfolding copySection_def by (auto intro!: keeping simp: quiet_call_def)

lemma keeps_copySections [keeping]: "keeps (copySections W a l oh)"
  unfolding copySections_def Sections_def by (auto intro!: keeping keeps_copySection)

lemma keeps_finalizeSection [keeping]: "keeps (finalizeSection W sd)"
  unfolding finalizeSection_def by (auto intro!: keeping simp: quiet_call_def)

lemma keeps_finalize_loop [keeping]: "keeps (finalize_loop k W base n off i sd)"
  by (induction k arbitrary: i sd) (auto intro!: keeping)

lemma keeps_finalizeSections [keeping]: "keeps (finalizeSections W)"
  unfolding finalizeSections_def Sections_def by (auto intro!: keeping)

lemma keeps_tls_loop [keeping]: "keeps (tls_loop k W c)"
  by (induction k arbitrary: c) (auto intro!: keeping simp: quiet_call_def)

lemma keeps_executeTLS [keeping]: "keeps (executeTLS k W)"
  unfolding executeTLS_def by (auto intro!: keeping)

lemma keeps_relocate [keeping]: "keeps (relocate k d)"
  unfolding relocate_def by (auto intro!: keeping simp: Let_def same_res_def split: option.splits)

lemma keeps_adjust_base [keeping]: "keeps (adjust_base k oh)"
  unfolding adjust_base_def by (auto intro!: keeping simp: same_res_def)

lemma keeps_call_entry [keeping]: "keeps (call_entry W)"
  unfolding call_entry_def by (auto intro!: keeping simp: same_res_def quiet_call_def)

lemma keeps_buildNameExports [keeping]: "keeps (buildNameExports W)"
  unfolding buildNameExports_def by (auto intro!: keeping simp: same_res_def quiet_call_def)

lemma keeps_copy_headers [keeping]: "keeps (copy_headers W d l oh)"
  unfolding copy_headers_def by (auto intro!: keeping simp: same_res_def quiet_call_def)

section \<open>Actions that acquire\<close>

lemma holds_calls:
  "holds_res R H (s\<lparr>wmem := m, trace := (FreeLibrary h, r) # trace s\<rparr>) = holds_res R (add_mset h H) s"
  "holds_res R H (s\<lparr>wmem := m, trace := (VirtualFree a n MEM_RELEASE, r) # trace s\<rparr>) = holds_res (add_mset a R) H s"
  "holds_res R H (s\<lparr>wmem := m, trace := (LoadLibraryEx l, 0) # trace s\<rparr>) = holds_res R H s"
  "h \<noteq> 0 \<Longrightarrow> holds_res R (add_mset h H) (s\<lparr>wmem := m, trace := (LoadLibraryEx l, h) # trace s\<rparr>) = holds_res R H s"
  "holds_res R H (s\<lparr>wmem := m, trace := (VirtualAlloc b n MEM_RESERVE_COMMIT p, 0) # trace s\<rparr>) = holds_res R H s"
  "a \<noteq> 0 \<Longrightarrow> holds_res (add_mset a R) H (s\<lparr>wmem := m, trace := (VirtualAlloc b n MEM_RESERVE_COMMIT p, a) # trace s\<rparr>) =
     holds_res R H s"
  by (auto simp: holds_res_def)

lemma thunk_loop_owns:
  "valid (\<lambda>s. same_res (module s) md \<and> holds_res R (add_mset h H) s) (thunk_loop k W h t f)
     (\<lambda>_ s. same_res (module s) md \<and> holds_res R (add_mset h H) s) (\<lambda>s. same_res (module s) md \<and> holds_res R H s)"
    (is "valid ?J _ _ ?E")
proof (induction k arbitrary: t f)
  case 0
  then show ?case by (simp add: valid_stuck)
next
  case (Suc k)
  have call: "valid ?J (invoke W (if b then GetProcAddressByOrdinal h o' else GetProcAddress h n)) (\<lambda>_. ?J) ?E" for b o' n
    by (rule valid_invoke) (simp add: holds_quiet quiet_call_def)
  have release: "valid ?J (bindL (invoke W (FreeLibrary h)) (\<lambda>_. failL GettingFunctionAddress)) (\<lambda>_. ?J) ?E"
    by (rule valid_bind [where R = "\<lambda>_. ?E"]) (auto intro!: hoare simp: holds_calls)
  have step: "valid ?J (getM (\<lambda>m md. bindL (putM (poke64 m f r)) (\<lambda>_.
      if r = 0 then bindL (invoke W (FreeLibrary h)) (\<lambda>_. failL GettingFunctionAddress)
      else thunk_loop k W h (t + 8) (f + 8)))) (\<lambda>_. ?J) ?E" for r
    by (rule valid_getM, rule valid_bind [where R = "\<lambda>_. ?J"]) (auto intro!: valid_put release Suc.IH)
  show ?case
    unfolding thunk_loop.simps Let_def
    by (rule valid_getM, rule valid_if, rule valid_ret, simp,
      rule valid_pre [OF valid_bind [OF call step]], simp)
qed

lemma import_loop_owns: "valid owns (import_loop k W d) (\<lambda>_. owns) owns"
proof (induction k arbitrary: d)
  case 0
  then show ?case by (simp add: valid_stuck)
next
  case (Suc k)
  let ?H = "\<lambda>h s. holds_res (regions (module s)) (add_mset h (mset (modules (module s)))) s"
  have thunks: "valid (?H h) (thunk_loop k W h t f) (\<lambda>_. ?H h) owns" for h t f
  proof -
    have "case thunk_loop k W h t f s of (Done x, s') \<Rightarrow> ?H h s' | (Fail e, s') \<Rightarrow> owns s' | _ \<Rightarrow> True" if "?H h s" for s
      using thunk_loop_owns [unfolded valid_def, rule_format, of s "module s" "regions (module s)" h "mset (modules (module s))" k W t f] that
      by (auto simp: owns_def same_res_def regions_def split: prod.splits outcome.splits)
    then show ?thesis by (simp add: valid_def)
  qed
  have append: "valid (?H h) (setM (\<lambda>md. md\<lparr>modules := modules md @ [h]\<rparr>)) (\<lambda>_. owns) owns" for h
    by (rule valid_set) (auto simp: owns_def regions_def split: if_splits)
  have lib: "valid (?H h) (getM (\<lambda>m md. bindL (thunk_loop k W h (t m md) (f m md)) (\<lambda>_.
       bindL (setM (\<lambda>md. md\<lparr>modules := modules md @ [h]\<rparr>)) (\<lambda>_. import_loop k W d')))) (\<lambda>_. owns) owns" for h t f d'
    by (rule valid_getM, rule valid_pre [OF valid_bind [OF thunks valid_bind [OF append Suc.IH]]]) simp
  have load: "valid owns (invoke W (LoadLibraryEx n)) (\<lambda>r s. if r = 0 then owns s else ?H r s) owns" for n
    by (rule valid_invoke) (simp add: owns_def holds_calls)
  have probe: "valid owns (invoke W (IsBadReadPtr a n)) (\<lambda>_. owns) owns" for a n
    by (rule valid_invoke) (simp add: owns_def holds_quiet quiet_call_def)
  show ?case
    unfolding import_loop.simps Let_def
    apply (rule valid_bind [OF probe], rule valid_getM, rule valid_if)
     apply (auto intro!: valid_ret)[1]
    apply (rule valid_pre [OF valid_bind [OF load]])
     apply (rule valid_if)
      apply (auto intro!: valid_fail)[1]
     apply (simp only: if_False)
     apply (rule lib)
    apply simp
    done
qed

lemma buildImportTable_owns: "valid (\<lambda>s. owns s \<and> modules (module s) = []) (buildImportTable k W) (\<lambda>_. owns) owns"
  unfolding buildImportTable_def Let_def
  by (rule valid_getM, rule valid_if)
    (auto intro!: valid_ret valid_bind [OF _ import_loop_owns] valid_set simp: owns_def regions_def)

lemma check4GB_owns:
  "valid (\<lambda>s. owns s \<and> codeBase (module s) \<noteq> 0 \<and> modules (module s) = []) (check4GBBoundaries k W n)
     (\<lambda>_ s. owns s \<and> modules (module s) = []) owns"
    (is "valid ?P _ ?Q _")
proof (induction k)
  case 0
  then show ?case by (simp add: valid_stuck)
next
  case (Suc k)
  let ?B = "\<lambda>s. holds_res (mset (blockedMemory (module s))) {#} s \<and> modules (module s) = []"
  let ?C = "\<lambda>r s. (if r = 0 then ?B s else holds_res (add_mset r (mset (blockedMemory (module s)))) {#} s \<and> modules (module s) = [])"
  have block: "valid ?P (setM (\<lambda>md. md\<lparr>blockedMemory := codeBase md # blockedMemory md\<rparr>)) (\<lambda>_. ?B) owns"
    by (rule valid_set) (auto simp: owns_def regions_def)
  have alloc: "valid ?B (invoke W (VirtualAlloc 0 n MEM_RESERVE_COMMIT p)) ?C owns" for p
    by (rule valid_invoke) (simp add: holds_calls)
  have move: "valid (?C r) (setM (\<lambda>md. md\<lparr>codeBase := r\<rparr>)) (\<lambda>_ s. owns s \<and> codeBase (module s) = r \<and> modules (module s) = []) owns" for r
    by (rule valid_set) (auto simp: owns_def regions_def split: if_splits)
  have rest: "valid (\<lambda>s. owns s \<and> codeBase (module s) = r \<and> modules (module s) = [])
      (if r = 0 then failL AllocatingMemoryBlock else check4GBBoundaries k W n) ?Q owns" for r
    by (rule valid_if, rule valid_fail, simp, rule valid_pre [OF Suc.IH], simp)
  show ?case
    unfolding check4GBBoundaries.simps
    by (rule valid_getM, rule valid_if)
      (auto intro!: valid_ret intro: valid_pre [OF valid_bind [OF block valid_bind [OF alloc valid_bind [OF move rest]]]])
qed

lemma alloc_image_owns:
  "valid (\<lambda>s. holds_res {#} {#} s \<and> regions (module s) = {#} \<and> modules (module s) = []) (alloc_image W b n)
     (\<lambda>_ s. owns s \<and> codeBase (module s) \<noteq> 0 \<and> modules (module s) = []) owns"
    (is "valid ?P _ ?Q _")
proof -
  let ?C = "\<lambda>r s. (if r = 0 then holds_res {#} {#} s else holds_res {#r#} {#} s) \<and> blockedMemory (module s) = [] \<and> modules (module s) = []"
  have alloc: "valid (?C 0) (invoke W (VirtualAlloc b n MEM_RESERVE_COMMIT p)) ?C owns" for b p
    by (rule valid_invoke) (simp add: holds_calls)
  have move: "valid (?C r) (setM (\<lambda>md. md\<lparr>codeBase := r\<rparr>)) (\<lambda>_ s. ?C r s \<and> codeBase (module s) = r) owns" for r
    by (rule valid_set) auto
  have second: "valid (\<lambda>s. ?C r s \<and> codeBase (module s) = r) (if r = 0 then failL AllocatingCode else retL ()) ?Q owns" for r
    by (rule valid_if; (rule valid_fail | rule valid_ret)) (auto simp: owns_def regions_def)
  have first: "valid (\<lambda>s. ?C r s \<and> codeBase (module s) = r)
     (if r \<noteq> 0 then retL () else bindL (invoke W (VirtualAlloc 0 n MEM_RESERVE_COMMIT PAGE_READWRITE)) (\<lambda>r.
             bindL (setM (\<lambda>md. md\<lparr>codeBase := r\<rparr>)) (\<lambda>_. if r = 0 then failL AllocatingCode else retL ()))) ?Q owns" for r
    by (rule valid_if, rule valid_ret, simp add: owns_def regions_def,
      rule valid_pre [OF valid_bind [OF alloc valid_bind [OF move second]]], simp)
  show ?thesis
    unfolding alloc_image_def
    by (rule valid_pre [OF valid_bind [OF alloc valid_bind [OF move first]]]) (auto simp: regions_def split: if_splits)
qed

lemma load_image_owns:
  "valid (\<lambda>s. holds_res {#} {#} s \<and> regions (module s) = {#} \<and> modules (module s) = []) (load_image k W d l oh)
     (\<lambda>_. owns) owns"
proof -
  let ?P = "\<lambda>s. owns s \<and> modules (module s) = []"
  have keep: "valid ?P a (\<lambda>_. ?P) owns" if "keeps a" for a :: "unit act"
    using that by (rule keeps_inv) (simp add: same_res_def)
  note K = keeps_owns [OF keeps_finalizeSections] keeps_owns [OF keeps_executeTLS] keeps_owns [OF keeps_call_entry]
    keeps_owns [OF keeps_ignore [OF keeps_buildNameExports]]
  note tail = valid_bind [OF buildImportTable_owns valid_bind [OF K(1) valid_bind [OF K(2) valid_bind [OF K(3) K(4)]]]]
  note body = valid_bind [OF keep [OF keeps_copy_headers] valid_bind [OF keep [OF keeps_copySections]
    valid_bind [OF keep [OF keeps_adjust_base] tail]]]
  show ?thesis
    unfolding load_image_def Let_def
    by (rule valid_getM, rule valid_pre [OF valid_bind [OF alloc_image_owns valid_bind [OF check4GB_owns body]]]) simp
qed

section \<open>Free\<close>

lemma free_libraries:
  "valid (\<lambda>s. module s = md \<and> holds_res R (mset hs) s) (forL (\<lambda>h. bindL (invoke W (FreeLibrary h)) (\<lambda>_. retL ())) hs)
     (\<lambda>_ s. module s = md \<and> holds_res R {#} s) E"
proof (induction hs)
  case Nil
  then show ?case by (simp add: valid_ret)
next
  case (Cons h hs)
  have "valid (\<lambda>s. module s = md \<and> holds_res R (mset (h # hs)) s) (invoke W (FreeLibrary h))
     (\<lambda>_ s. module s = md \<and> holds_res R (mset hs) s) E" by (rule valid_invoke) (simp add: holds_calls)
  then show ?case unfolding forL.simps by (rule valid_bind [OF valid_bind [OF _ valid_ret] Cons]) simp
qed

lemma free_regions:
  "valid (\<lambda>s. module s = md \<and> holds_res (mset as) H s) (forL (\<lambda>a. bindL (invoke W (VirtualFree a 0 MEM_RELEASE)) (\<lambda>_. retL ())) as)
     (\<lambda>_ s. module s = md \<and> holds_res {#} H s) E"
proof (induction as)
  case Nil
  then show ?case by (simp add: valid_ret)
next
  case (Cons a as)
  have "valid (\<lambda>s. module s = md \<and> holds_res (mset (a # as)) H s) (invoke W (VirtualFree a 0 MEM_RELEASE))
     (\<lambda>_ s. module s = md \<and> holds_res (mset as) H s) E" by (rule valid_invoke) (simp add: holds_calls)
  then show ?case unfolding forL.simps by (rule valid_bind [OF valid_bind [OF _ valid_ret] Cons]) simp
qed

definition always_returns :: "'a act \<Rightarrow> bool" where
  "always_returns a \<longleftrightarrow> (\<forall>s. \<exists>x s'. a s = (Done x, s'))"

lemma total_rules [intro]: "always_returns (retL x)" "always_returns (setM f)" "always_returns (putM m)" "always_returns (invoke W c)"
  by (simp_all add: always_returns_def retL_def setM_def putM_def invoke_def split: prod.splits)

lemma total_bind [intro]: "always_returns a \<Longrightarrow> (\<And>x. always_returns (k x)) \<Longrightarrow> always_returns (bindL a k)"
  unfolding always_returns_def
proof
  fix s assume a: "\<forall>s. \<exists>x s'. a s = (Done x, s')" and k: "\<And>x. \<forall>s. \<exists>y s'. k x s = (Done y, s')"
  then obtain x s' where "a s = (Done x, s')" by blast
  with k [of x] show "\<exists>y s'. bindL a k s = (Done y, s')" by (simp add: bindL_def)
qed

lemma total_getM [intro]: "(\<And>m md. always_returns (g m md)) \<Longrightarrow> always_returns (getM g)"
  by (simp add: always_returns_def getM_def)

lemma total_if [intro]: "always_returns a \<Longrightarrow> always_returns a' \<Longrightarrow> always_returns (if b then a else a')"
  by simp

lemma total_for [intro]: "(\<And>x. always_returns (f x)) \<Longrightarrow> always_returns (forL f xs)"
  by (induction xs) auto

lemma total_Free: "always_returns (Free W)"
  unfolding Free_def by (intro total_rules total_bind total_getM total_if total_for)

lemma Free_owns: "valid owns (Free W) (\<lambda>_. holds_res {#} {#}) E"
proof -
  have 1: "valid owns (getM (\<lambda>m md. if initialized md then bindL (invoke W (CallDll (entry md) (codeBase md) DLL_PROCESS_DETACH))
      (\<lambda>_. setM (\<lambda>md. md\<lparr>initialized := False\<rparr>)) else retL ())) (\<lambda>_. owns) E"
    by (rule valid_getM, rule valid_if, rule valid_bind [where R = "\<lambda>_. owns"])
      (auto intro!: hoare simp: owns_def holds_quiet quiet_call_def regions_def)
  let ?L = "\<lambda>s. holds_res (regions (module s)) {#} s"
  have 2: "valid owns (getM (\<lambda>m md. bindL (forL (\<lambda>h. bindL (invoke W (FreeLibrary h)) (\<lambda>_. retL ())) (modules md))
      (\<lambda>_. setM (\<lambda>md. md\<lparr>modules := []\<rparr>)))) (\<lambda>_. ?L) E"
    by (rule valid_getM, rule valid_bind [OF valid_pre [OF free_libraries [where E = E]] valid_set])
      (auto simp: owns_def regions_def)
  let ?B = "\<lambda>s. holds_res (mset (blockedMemory (module s))) {#} s"
  have 3: "valid ?L (getM (\<lambda>m md. if codeBase md \<noteq> 0 then bindL (invoke W (VirtualFree (codeBase md) 0 MEM_RELEASE))
      (\<lambda>_. setM (\<lambda>md. md\<lparr>codeBase := 0\<rparr>)) else retL ())) (\<lambda>_. ?B) E"
    by (rule valid_getM, rule valid_if, rule valid_bind [where R = "\<lambda>_. ?B"])
      (auto intro!: hoare simp: holds_calls regions_def)
  have 4: "valid ?B (getM (\<lambda>m md. bindL (forL (\<lambda>a. bindL (invoke W (VirtualFree a 0 MEM_RELEASE)) (\<lambda>_. retL ())) (blockedMemory md))
      (\<lambda>_. setM (\<lambda>md. md\<lparr>blockedMemory := []\<rparr>)))) (\<lambda>_. holds_res {#} {#}) E"
    by (rule valid_getM, rule valid_bind [OF valid_pre [OF free_regions [where E = E]] valid_set]) auto
  show ?thesis unfolding Free_def by (intro valid_bind [OF 1] valid_bind [OF 2] valid_bind [OF 3] 4)
qed

section \<open>Everything is given back\<close>

definition balanced :: "win_trace \<Rightarrow> bool" where
  "balanced t \<longleftrightarrow> acquired t = released t \<and> loaded t = unloaded t"

lemma holds_balanced: "holds_res {#} {#} s \<longleftrightarrow> balanced (trace s)"
  by (simp add: holds_res_def balanced_def)

lemma Free_balances: "owns s \<Longrightarrow> \<exists>s'. Free W s = (Done (), s') \<and> balanced (trace s')"
  using Free_owns [of W, unfolded valid_def, rule_format, of s] total_Free [of W]
  by (fastforce simp: always_returns_def holds_balanced)

lemma fresh_module: "regions (empty_module\<lparr>isDLL := b\<rparr>) = {#}" "modules (empty_module\<lparr>isDLL := b\<rparr>) = []"
  by (simp_all add: regions_def empty_module_def)

lemma LoadLibrary_balances:
  assumes "balanced (trace s0)"
  shows "case LoadLibrary fuel arch W data len s0 of
      (Fail e, s) \<Rightarrow> balanced (trace s)
    | (Done _, s) \<Rightarrow> \<exists>s'. Free W s = (Done (), s') \<and> balanced (trace s')
    | _ \<Rightarrow> True"
proof (cases "len = 0 \<or> (\<exists>e. check_headers arch (wmem s0) data len = Inl e)")
  case True
  then show ?thesis using assms by (auto simp: LoadLibrary_def crashL_def failL_def getM_def)
next
  case False
  then obtain oh where oh: "len \<noteq> 0" "check_headers arch (wmem s0) data len = Inr oh" by (cases "check_headers arch (wmem s0) data len") auto
  let ?s = "s0\<lparr>module := empty_module\<lparr>isDLL := file16 ''Characteristics'' (wmem s0) oh AND IMAGE_FILE_DLL \<noteq> 0\<rparr>\<rparr>"
  obtain r s' where run: "load_image fuel W data len oh ?s = (r, s')" by fastforce
  have own: "case r of Done x \<Rightarrow> owns s' | Fail e \<Rightarrow> owns s' | _ \<Rightarrow> True"
    using load_image_owns [unfolded valid_def, rule_format, of ?s fuel W data len oh] assms
    by (simp add: holds_balanced fresh_module run)
  have load: "LoadLibrary fuel arch W data len s0 = (case r of Fail e \<Rightarrow> bindL (Free W) (\<lambda>_. failL e) s' | r \<Rightarrow> (r, s'))"
    using oh run by (cases r) (simp_all add: LoadLibrary_def getM_def bindL_def setM_def)
  show ?thesis
    using own Free_balances [of s' W] by (cases r) (auto simp: load bindL_def failL_def)
qed

text \<open>
  C20: the loader leaks nothing and frees nothing twice. Whatever the Windows API answers and whatever
  bytes the image holds: when \<open>LoadLibrary\<close> returns an error, every region it reserved has been
  released and every library it opened has been closed, each exactly once; when it succeeds, \<open>Free\<close>
  returns and leaves the same balance. Regions put aside by the search for memory inside one 4 GB
  window and the libraries opened before a missing import are included.
\<close>

theorem load_balances_resources:
  assumes "balanced (trace s0)"
  shows "case LoadLibrary fuel arch W data len s0 of
      (Fail e, s) \<Rightarrow> balanced (trace s)
    | (Done _, s) \<Rightarrow> \<exists>s'. Free W s = (Done (), s') \<and> balanced (trace s')
    | _ \<Rightarrow> True"
  using assms by (rule LoadLibrary_balances)

text \<open>
  A small DLL at \<open>0x10000\<close>: the headers, one section of 16 bytes that is mapped at \<open>0x1000\<close> with read and
  execute rights, and its bytes at file offset \<open>0x200\<close>. The API of the example cannot give the preferred
  base \<open>0x400000\<close>, gives \<open>0x500000\<close> instead and fails to commit the headers.
\<close>

definition sample_bytes :: "(nat \<times> byte) list" where
  "sample_bytes = [(0, 0x4D), (1, 0x5A), (60, 0x40), (0x40, 0x50), (0x41, 0x45), (0x44, 0x64), (0x45, 0x86), (0x46, 1),
     (0x54, 0xF0), (0x57, 0x20), (0x72, 0x40), (0x79, 0x10), (0x91, 0x20), (0x95, 2),
     (0x155, 0x10), (0x158, 0x10), (0x15D, 2), (0x16C, 0x20), (0x16F, 0x60), (0x200, 0xC3)]"

definition sample_dll :: mem where
  "sample_dll a = (case map_of sample_bytes (unat (a - 0x10000)) of None \<Rightarrow> 0 | Some b \<Rightarrow> b)"

lemmas sample_simps = sample_dll_def sample_bytes_def peek16_def peek32_def peek64_def peekn_bytes fieldp_def opt_at_def pe_layout

lemma sample_headers:
  "E_magic sample_dll 0x10000 = 0x5A4D" "E_lfanew sample_dll 0x10000 = 0x40" "Signature sample_dll 0x10040 = 0x4550"
  "file16 ''Machine'' sample_dll 0x10040 = 0x8664" "file16 ''Characteristics'' sample_dll 0x10040 = 0x2000"
  "opt32 ''SectionAlignment'' sample_dll 0x10040 = 0x1000" "opt32 ''SizeOfImage'' sample_dll 0x10040 = 0x2000"
  "opt32 ''SizeOfHeaders'' sample_dll 0x10040 = 0x200" "ImageBase sample_dll 0x10040 = 0x400000"
  "Sections sample_dll 0x10040 = (0x10148, 1)"
  by (simp_all add: E_magic_def E_lfanew_def Signature_def file16_def opt32_def ImageBase_def Sections_def sample_simps)

lemma sample_section:
  "sec32 ''VirtualAddress'' sample_dll 0x10148 = 0x1000" "sec32 ''SizeOfRawData'' sample_dll 0x10148 = 0x10"
  "sec32 ''PointerToRawData'' sample_dll 0x10148 = 0x200" "sec32 ''Characteristics'' sample_dll 0x10148 = 0x60000020"
  by (simp_all add: sec32_def sample_simps)

lemma sample_checked: "check_headers amd64 sample_dll 0x10000 0x210 = Inr 0x10040"
proof -
  have "lastSectionEnd sample_dll 0x10040 = 0x1010"
    by (simp add: lastSectionEnd_def sample_headers end_of_section_def section_at_def sample_section pe_layout)
  then show ?thesis
    by (simp add: check_headers_def sample_headers pe_layout IMAGE_DOS_SIGNATURE_def IMAGE_NT_SIGNATURE_def
      imageFileProcess_def alignUp_def Let_def)
qed

definition poor_api :: winapi where
  "poor_api = \<lparr>answer = (\<lambda>t c m. (case c of VirtualAlloc a n ty p \<Rightarrow> if a = 0 then 0x500000 else 0 | _ \<Rightarrow> 1, m)),
     BytePtrToString = (\<lambda>m a. [])\<rparr>"

definition fresh_loader :: loader where
  "fresh_loader = \<lparr>wmem = sample_dll, trace = [], module = empty_module\<rparr>"

theorem load_balances_resources_witness:
  "\<exists>s. LoadLibrary 1 amd64 poor_api 0x10000 0x210 fresh_loader = (Fail AllocatingHeaders, s) \<and>
     acquired (trace s) = {#0x500000#} \<and> balanced (trace s)"
proof -
  have "\<exists>s. LoadLibrary 1 amd64 poor_api 0x10000 0x210 fresh_loader = (Fail AllocatingHeaders, s) \<and>
     acquired (trace s) = {#0x500000#}"
    by (simp add: LoadLibrary_def load_image_def alloc_image_def copy_headers_def Free_def getM_def bindL_def setM_def
      retL_def failL_def invoke_def fresh_loader_def sample_checked sample_headers poor_api_def empty_module_def alignUp_def Let_def)
  moreover have "balanced (trace fresh_loader)" by (simp add: balanced_def fresh_loader_def)
  ultimately show ?thesis
    using load_balances_resources [where ?s0.0 = fresh_loader and fuel = 1 and arch = amd64 and W = poor_api and data = "0x10000" and len = "0x210"] by auto
qed

end
