(* ===== verification/Pe_Sections.thy ===== *)
theory Pe_Sections
  imports Pe_Resources
begin

unbundle bit_operations_syntax

text \<open>
  Page protection (\<open>finalizeSections\<close>, \<open>finalizeSection\<close>): the loop over the section headers is refined
  to a function on lists, \<open>runs\<close>, that merges neighbouring sections sharing a page, and each run to
  the API call it leads to. On lists it is then shown that every section is covered by a run.
\<close>

section \<open>Runs of sections\<close>

fun runs :: "sectionFinalizeData \<Rightarrow> sectionFinalizeData list \<Rightarrow> sectionFinalizeData list" where
  "runs sd [] = [sd\<lparr>sd_last := True\<rparr>]"
| "runs sd (x # xs) = (if shares_page sd x then runs (merge_section sd x) xs else sd # runs x xs)"

definition discardable :: "sectionFinalizeData \<Rightarrow> bool" where
  "discardable sd \<longleftrightarrow> sd_characteristics sd AND IMAGE_SCN_MEM_DISCARDABLE \<noteq> 0"

definition run_call :: "addr \<Rightarrow> sectionFinalizeData \<Rightarrow> wincall list" where
  "run_call align sd =
     (if sd_size sd = 0 then []
      else if discardable sd then
        (if sd_address sd = sd_alignedAddress sd \<and> (sd_last sd \<or> sd_size sd mod align = 0)
         then [VirtualFree (sd_address sd) (sd_size sd) MEM_DECOMMIT] else [])
      else [VirtualProtect (sd_address sd) (sd_size sd) (ProtectionFlags ! unat (drop_bit 29 (sd_characteristics sd)))
              (sd_characteristics sd AND IMAGE_SCN_MEM_NOT_CACHED \<noteq> 0)])"

definition section_list :: "mem \<Rightarrow> addr \<Rightarrow> sectionFinalizeData list" where
  "section_list m hdr = (let (base, n) = Sections m hdr in map (\<lambda>i. section_data m hdr (imageOffset m hdr) (section_at base i)) [0..<n])"

text \<open>The API calls that change pages succeed and do not change the headers of the image.\<close>

definition headers_of :: "mem \<Rightarrow> addr \<Rightarrow> (addr \<times> nat) \<times> 32 word \<times> addr \<times> sectionFinalizeData list" where
  "headers_of m hdr = (Sections m hdr, opt32 ''SectionAlignment'' m hdr, imageOffset m hdr, section_list m hdr)"

definition page_call :: "wincall \<Rightarrow> bool" where
  "page_call c \<longleftrightarrow> (case c of VirtualProtect _ _ _ _ \<Rightarrow> True | VirtualFree _ _ t \<Rightarrow> t = MEM_DECOMMIT | _ \<Rightarrow> False)"

definition willing :: "winapi \<Rightarrow> addr \<Rightarrow> bool" where
  "willing W hdr \<longleftrightarrow> (\<forall>t c m. page_call c \<longrightarrow> fst (answer W t c m) \<noteq> 0 \<and> headers_of (snd (answer W t c m)) hdr = headers_of m hdr)"

definition calls_since :: "loader \<Rightarrow> loader \<Rightarrow> wincall list \<Rightarrow> bool" where
  "calls_since s s' cs \<longleftrightarrow> map fst (trace s') = rev cs @ map fst (trace s) \<and> module s' = module s"

lemma invoke_willing:
  assumes "willing W (headers (module s))" and "page_call c"
  shows "\<exists>r s'. invoke W c s = (Done r, s') \<and> r \<noteq> 0 \<and> calls_since s s' [c] \<and>
     headers_of (wmem s') (headers (module s)) = headers_of (wmem s) (headers (module s))"
  using assms by (auto simp: invoke_def willing_def calls_since_def split: prod.splits)
    (metis fst_conv snd_conv)+

lemma unat_ucast_addr: "unat (ucast (w :: 32 word) :: addr) = unat w"
proof -
  have "unat w < 2 ^ 32" using unsigned_less [of w] by simp
  then show ?thesis by (subst unsigned_ucast_eq) (simp add: take_bit_nat_eq_self)
qed

lemma ucast_addr_0: "(ucast (w :: 32 word) :: addr) = 0 \<longleftrightarrow> w = 0"
  by (metis unat_ucast_addr unsigned_0 unsigned_eq_0_iff)

lemma finalizeSection_run:
  assumes "willing W (headers (module s))" and "opt32 ''SectionAlignment'' (wmem s) (headers (module s)) = al" and "al \<noteq> 0"
  shows "\<exists>s'. finalizeSection W sd s = (Done (), s') \<and> calls_since s s' (run_call (ucast al) sd) \<and>
     headers_of (wmem s') (headers (module s)) = headers_of (wmem s) (headers (module s))"
proof -
  have al: "(ucast al :: addr) \<noteq> 0" using assms(3) by (simp add: ucast_addr_0)
  note inv = invoke_willing [OF assms(1), unfolded page_call_def]
  have "calls_since s s []" by (simp add: calls_since_def)
  then show ?thesis
    using al assms(2) inv [of "VirtualFree (sd_address sd) (sd_size sd) MEM_DECOMMIT"]
      inv [of "VirtualProtect (sd_address sd) (sd_size sd) (ProtectionFlags ! unat (drop_bit 29 (sd_characteristics sd)))
              (sd_characteristics sd AND IMAGE_SCN_MEM_NOT_CACHED \<noteq> 0)"]
    by (auto simp: finalizeSection_def getM_def run_call_def discardable_def bindL_def retL_def failL_def Let_def)
qed

lemma calls_since_trans: "calls_since s s' cs \<Longrightarrow> calls_since s' s'' cs' \<Longrightarrow> calls_since s s'' (cs @ cs')"
  by (simp add: calls_since_def)

lemma finalize_loop_runs:
  assumes "willing W (headers (module s))" and "opt32 ''SectionAlignment'' (wmem s) (headers (module s)) = al" and "al \<noteq> 0"
    and "Sections (wmem s) (headers (module s)) = (base, n)" and "imageOffset (wmem s) (headers (module s)) = off"
    and "section_list (wmem s) (headers (module s)) = xs" and "i \<le> n" and "n \<le> i + k"
  shows "\<exists>s'. finalize_loop k W base n off i sd s = (Done (), s') \<and>
     calls_since s s' (concat (map (run_call (ucast al)) (runs sd (drop i xs))))"
  using assms
proof (induction k arbitrary: s i sd)
  case 0
  then have "drop i xs = []" by (auto simp: section_list_def)
  then show ?case using finalizeSection_run [OF 0(1-3), of "sd\<lparr>sd_last := True\<rparr>"] by auto
next
  case (Suc k)
  have n: "unat (file16 ''NumberOfSections'' (wmem s) (headers (module s))) = n" using Suc.prems(4) by (simp add: Sections_def)
  have len: "length xs = n" using Suc.prems(4,6) by (auto simp: section_list_def)
  show ?case
  proof (cases "i < n")
    case False
    then have "drop i xs = []" using len by simp
    then show ?thesis using False n finalizeSection_run [OF Suc.prems(1-3), of "sd\<lparr>sd_last := True\<rparr>"] by (auto simp: getM_def)
  next
    case True
    let ?x = "section_data (wmem s) (headers (module s)) off (section_at base i)"
    have "xs ! i = ?x" using True Suc.prems(4,5,6) by (auto simp: section_list_def)
    then have drop: "drop i xs = ?x # drop (Suc i) xs" using True len by (metis Cons_nth_drop_Suc)
    have ih: "\<exists>s''. finalize_loop k W base n off (Suc i) y s' = (Done (), s'') \<and>
        calls_since s' s'' (concat (map (run_call (ucast al)) (runs y (drop (Suc i) xs))))"
      if "module s' = module s" "headers_of (wmem s') (headers (module s)) = headers_of (wmem s) (headers (module s))" for s' y
      using that True Suc.prems by (intro Suc.IH) (auto simp: headers_of_def)
    show ?thesis
    proof (cases "shares_page sd ?x")
      case True
      then show ?thesis using \<open>i < n\<close> n drop ih [of s "merge_section sd ?x"] by (simp add: getM_def Let_def)
    next
      case False
      obtain s' where s': "finalizeSection W sd s = (Done (), s')" "calls_since s s' (run_call (ucast al) sd)"
          "headers_of (wmem s') (headers (module s)) = headers_of (wmem s) (headers (module s))"
        using finalizeSection_run [OF Suc.prems(1-3)] by blast
      then have "module s' = module s" by (simp add: calls_since_def)
      from ih [OF this s'(3), of ?x] obtain s'' where "finalize_loop k W base n off (Suc i) ?x s' = (Done (), s'')"
        "calls_since s' s'' (concat (map (run_call (ucast al)) (runs ?x (drop (Suc i) xs))))" by blast
      then show ?thesis using False \<open>i < n\<close> n drop s' calls_since_trans [OF s'(2)] by (simp add: getM_def Let_def bindL_def)
    qed
  qed
qed

section \<open>Coverage\<close>

definition sd_end :: "sectionFinalizeData \<Rightarrow> nat" where
  "sd_end x = unat (sd_address x) + unat (sd_size x)"

definition covers :: "sectionFinalizeData \<Rightarrow> sectionFinalizeData \<Rightarrow> bool" where
  "covers r x \<longleftrightarrow> unat (sd_address r) \<le> unat (sd_address x) \<and> sd_end x \<le> sd_end r \<and>
     (\<forall>b \<in> {29, 30, 31}. bit (sd_characteristics x) b \<longrightarrow> bit (sd_characteristics r) b) \<and>
     (discardable r \<longrightarrow> discardable x)"

definition laid_out :: "sectionFinalizeData list \<Rightarrow> bool" where
  "laid_out xs \<longleftrightarrow> sorted_wrt (\<lambda>x y. sd_end x \<le> unat (sd_address y)) xs \<and> (\<forall>x \<in> set xs. sd_end x < 2 ^ 64)"

lemma discardable_bit: "discardable x \<longleftrightarrow> bit (sd_characteristics x) 25"
proof -
  have "(0x02000000 :: 32 word) = 2 ^ 25" by simp
  then show ?thesis unfolding discardable_def IMAGE_SCN_MEM_DISCARDABLE_def by (simp only: and_exp_eq_0_iff_not_bit) simp
qed

lemma merge_end:
  assumes "sd_end sd \<le> unat (sd_address x)" and "sd_end x < 2 ^ 64"
  shows "sd_end (merge_section sd x) = sd_end x"
proof -
  have "unat (sd_address x + sd_size x) = sd_end x"
    using assms(2) unat_add_lem [of "sd_address x" "sd_size x"] by (simp add: sd_end_def)
  moreover have "sd_address sd \<le> sd_address x + sd_size x"
    using calculation assms(1) by (simp add: word_le_nat_alt sd_end_def)
  ultimately show ?thesis using assms(1) by (simp add: merge_section_def sd_end_def unat_sub)
qed

lemma merge_bits:
  "b \<noteq> 25 \<Longrightarrow> bit (sd_characteristics (merge_section sd x)) b \<longleftrightarrow> bit (sd_characteristics sd) b \<or> bit (sd_characteristics x) b"
  "discardable (merge_section sd x) \<longleftrightarrow> discardable sd \<and> discardable x"
proof -
  have d: "bit IMAGE_SCN_MEM_DISCARDABLE n \<longleftrightarrow> n = 25" for n
  proof -
    have e: "IMAGE_SCN_MEM_DISCARDABLE = 2 ^ 25" by (simp add: IMAGE_SCN_MEM_DISCARDABLE_def)
    show ?thesis unfolding e bit_exp_iff by auto
  qed
  show "b \<noteq> 25 \<Longrightarrow> bit (sd_characteristics (merge_section sd x)) b \<longleftrightarrow> bit (sd_characteristics sd) b \<or> bit (sd_characteristics x) b"
    by (auto simp: merge_section_def d bit_simps dest: bit_imp_le_length)
  show "discardable (merge_section sd x) \<longleftrightarrow> discardable sd \<and> discardable x"
    unfolding discardable_bit using discardable_bit [of sd] discardable_bit [of x]
    by (auto simp: merge_section_def discardable_def d bit_simps)
qed

lemma merge_covers:
  assumes "sd_end sd \<le> unat (sd_address x)" and "sd_end x < 2 ^ 64"
  shows "covers (merge_section sd x) x" and "covers sd y \<Longrightarrow> covers (merge_section sd x) y"
proof -
  have "sd_end sd \<le> sd_end x" using assms(1) by (simp add: sd_end_def)
  moreover have "sd_address (merge_section sd x) = sd_address sd" by (simp add: merge_section_def)
  moreover have "unat (sd_address sd) \<le> unat (sd_address x)" using assms(1) by (simp add: sd_end_def)
  ultimately show "covers (merge_section sd x) x" and "covers sd y \<Longrightarrow> covers (merge_section sd x) y"
    using merge_end [OF assms] by (auto simp: covers_def merge_bits)
qed

lemma covers_last [simp]: "covers (r\<lparr>sd_last := b\<rparr>) x \<longleftrightarrow> covers r x" "sd_end (r\<lparr>sd_last := b\<rparr>) = sd_end r"
  by (simp_all add: covers_def sd_end_def discardable_def)

lemma covers_refl [simp]: "covers x x"
  by (simp add: covers_def)

lemma laid_out_merge:
  assumes "laid_out (sd # x # xs)"
  shows "laid_out (merge_section sd x # xs)"
proof -
  have "sd_end (merge_section sd x) = sd_end x" using assms by (intro merge_end) (auto simp: laid_out_def)
  then show ?thesis using assms by (auto simp: laid_out_def)
qed

lemma laid_out_tl: "laid_out (sd # xs) \<Longrightarrow> laid_out xs"
  by (simp add: laid_out_def)

lemma runs_cover:
  assumes "laid_out (sd # xs)"
  shows "(\<forall>y. covers sd y \<longrightarrow> (\<exists>r \<in> set (runs sd xs). covers r y)) \<and> (\<forall>x \<in> set xs. \<exists>r \<in> set (runs sd xs). covers r x)"
  using assms
proof (induction sd xs rule: runs.induct)
  case (1 sd)
  then show ?case by simp
next
  case (2 sd x xs)
  have c: "covers (merge_section sd x) x" "covers sd y \<Longrightarrow> covers (merge_section sd x) y" for y
    using 2(3) by (auto intro: merge_covers simp: laid_out_def)
  show ?case
    using 2 c laid_out_merge [OF 2(3)] laid_out_tl [OF 2(3)] by auto
qed

lemma runs_start: "laid_out (sd # xs) \<Longrightarrow> r \<in> set (runs sd xs) \<Longrightarrow> unat (sd_address sd) \<le> unat (sd_address r)"
proof (induction sd xs rule: runs.induct)
  case (1 sd)
  then show ?case by simp
next
  case (2 sd x xs)
  have "unat (sd_address sd) \<le> unat (sd_address x)" using 2(3) by (auto simp: laid_out_def sd_end_def)
  moreover have "sd_address (merge_section sd x) = sd_address sd" by (simp add: merge_section_def)
  ultimately show ?case using 2 laid_out_merge [OF 2(3)] laid_out_tl [OF 2(3)] by (auto split: if_splits)
qed

lemma runs_laid_out: "laid_out (sd # xs) \<Longrightarrow> laid_out (runs sd xs)"
proof (induction sd xs rule: runs.induct)
  case (1 sd)
  then show ?case by (simp add: laid_out_def)
next
  case (2 sd x xs)
  have "sd_end sd \<le> unat (sd_address r)" if "r \<in> set (runs x xs)" for r
    using runs_start [OF laid_out_tl [OF 2(3)] that] 2(3) by (auto simp: laid_out_def)
  then show ?case using 2 laid_out_merge [OF 2(3)] laid_out_tl [OF 2(3)] by (auto simp: laid_out_def)
qed

lemma laid_out_disjoint:
  "laid_out rs \<Longrightarrow> r \<in> set rs \<Longrightarrow> r' \<in> set rs \<Longrightarrow> r \<noteq> r' \<Longrightarrow> sd_end r \<le> unat (sd_address r') \<or> sd_end r' \<le> unat (sd_address r)"
  by (induction rs) (auto simp: laid_out_def)

text \<open>What the protections allow, as the Windows documentation says.\<close>

definition readable :: "protection \<Rightarrow> bool" where
  "readable p \<longleftrightarrow> p \<notin> {PAGE_NOACCESS, PAGE_EXECUTE}"

definition writable :: "protection \<Rightarrow> bool" where
  "writable p \<longleftrightarrow> p \<in> {PAGE_WRITECOPY, PAGE_EXECUTE_WRITECOPY, PAGE_READWRITE, PAGE_EXECUTE_READWRITE}"

definition executable :: "protection \<Rightarrow> bool" where
  "executable p \<longleftrightarrow> p \<in> {PAGE_EXECUTE, PAGE_EXECUTE_READ, PAGE_EXECUTE_WRITECOPY, PAGE_EXECUTE_READWRITE}"

lemma protection_rights:
  "(bit c 29 \<longrightarrow> executable (ProtectionFlags ! unat (drop_bit 29 (c :: 32 word)))) \<and>
   (bit c 30 \<longrightarrow> readable (ProtectionFlags ! unat (drop_bit 29 c))) \<and>
   (bit c 31 \<longrightarrow> writable (ProtectionFlags ! unat (drop_bit 29 c)))"
proof -
  let ?k = "drop_bit 29 c"
  have b: "bit c 29 = bit ?k 0" "bit c 30 = bit ?k 1" "bit c 31 = bit ?k 2" by (simp_all add: bit_simps)
  have "unat ?k = unat c div 2 ^ 29" by (simp add: drop_bit_eq_div unat_div)
  moreover have "unat c < 2 ^ 32" using unsigned_less [of c] by simp
  ultimately have "unat ?k < 8" by simp
  then have "unat ?k \<in> {0, 1, 2, 3, 4, 5, 6, 7}" by auto
  then have "?k \<in> {0, 1, 2, 3, 4, 5, 6, 7}" by (auto dest!: arg_cong [where f = "of_nat :: nat \<Rightarrow> 32 word"])
  then show ?thesis unfolding b by (auto simp: ProtectionFlags_def executable_def readable_def writable_def)
qed

definition protected_by :: "wincall list \<Rightarrow> sectionFinalizeData \<Rightarrow> bool" where
  "protected_by cs x \<longleftrightarrow> (\<exists>a n p nc. VirtualProtect a n p nc \<in> set cs \<and>
     unat a \<le> unat (sd_address x) \<and> sd_end x \<le> unat a + unat n \<and>
     (bit (sd_characteristics x) 29 \<longrightarrow> executable p) \<and> (bit (sd_characteristics x) 30 \<longrightarrow> readable p) \<and>
     (bit (sd_characteristics x) 31 \<longrightarrow> writable p))"

definition left_committed :: "wincall list \<Rightarrow> sectionFinalizeData \<Rightarrow> bool" where
  "left_committed cs x \<longleftrightarrow>
     (\<forall>a n. VirtualFree a n MEM_DECOMMIT \<in> set cs \<longrightarrow> sd_end x \<le> unat a \<or> unat a + unat n \<le> unat (sd_address x))"

lemma runs_protect:
  assumes lay: "laid_out (x0 # xs)" and x: "x \<in> set (x0 # xs)" "sd_size x \<noteq> 0" "\<not> discardable x"
    and cs_def: "cs = concat (map (run_call al) (runs x0 xs))"
  shows "protected_by cs x \<and> left_committed cs x"
proof -
  obtain r where r: "r \<in> set (runs x0 xs)" "covers r x" using runs_cover [OF lay] x(1) by (metis covers_refl set_ConsD)
  have "unat (sd_size x) > 0" using x(2) by (simp add: unat_gt_0)
  then have size: "sd_size r \<noteq> 0" using r(2) by (auto simp: covers_def sd_end_def)
  have nd: "\<not> discardable r" using r(2) x(3) by (simp add: covers_def)
  let ?c = "VirtualProtect (sd_address r) (sd_size r) (ProtectionFlags ! unat (drop_bit 29 (sd_characteristics r)))
            (sd_characteristics r AND IMAGE_SCN_MEM_NOT_CACHED \<noteq> 0)"
  have "?c \<in> set cs" using r(1) size nd by (auto simp: cs_def run_call_def)
  then have "protected_by cs x"
    using r(2) protection_rights [of "sd_characteristics r"] unfolding protected_by_def by (auto simp: covers_def sd_end_def)
  moreover have "sd_end x \<le> unat a \<or> unat a + unat n \<le> unat (sd_address x)" if free: "VirtualFree a n MEM_DECOMMIT \<in> set cs" for a n
  proof -
    obtain d where d: "d \<in> set (runs x0 xs)" "discardable d" "a = sd_address d" "n = sd_size d"
      using free unfolding cs_def by (auto simp: run_call_def split: if_splits)
    have "d \<noteq> r" using d(2) nd by auto
    from laid_out_disjoint [OF runs_laid_out [OF lay] d(1) r(1) this] show ?thesis
      using r(2) by (auto simp: d(3,4) covers_def sd_end_def)
  qed
  ultimately show ?thesis by (simp add: left_committed_def)
qed

section \<open>Pages\<close>

text \<open>
  Windows applies both calls to whole pages, all those with a byte of the range. \<open>pages_right\<close>: every call that touches a page of the
  section allows what its flags ask for, and none of them decommits.
\<close>

definition page_of :: "nat \<Rightarrow> nat" where
  "page_of a = a div 0x1000"

definition touches :: "addr \<Rightarrow> addr \<Rightarrow> sectionFinalizeData \<Rightarrow> bool" where
  "touches a n x \<longleftrightarrow> n \<noteq> 0 \<and> page_of (unat a) \<le> page_of (sd_end x - 1) \<and> page_of (unat (sd_address x)) \<le> page_of (unat a + unat n - 1)"

definition pages_right :: "wincall list \<Rightarrow> sectionFinalizeData \<Rightarrow> bool" where
  "pages_right cs x \<longleftrightarrow>
     (\<forall>a n. VirtualFree a n MEM_DECOMMIT \<in> set cs \<longrightarrow> \<not> touches a n x) \<and>
     (\<forall>a n p nc. VirtualProtect a n p nc \<in> set cs \<longrightarrow> touches a n x \<longrightarrow>
        (bit (sd_characteristics x) 29 \<longrightarrow> executable p) \<and> (bit (sd_characteristics x) 30 \<longrightarrow> readable p) \<and>
        (bit (sd_characteristics x) 31 \<longrightarrow> writable p))"

definition aligned :: "nat \<Rightarrow> sectionFinalizeData \<Rightarrow> bool" where
  "aligned k x \<longleftrightarrow> sd_alignedAddress x = alignDown (sd_address x) (2 ^ k)"

lemma aligned_mono:
  "aligned k x \<Longrightarrow> aligned k y \<Longrightarrow> unat (sd_address x) \<le> unat (sd_address y) \<Longrightarrow> unat (sd_alignedAddress x) \<le> unat (sd_alignedAddress y)"
  by (simp add: aligned_def unat_alignDown div_le_mono)

lemma aligned_page:
  assumes "aligned k x" and "12 \<le> k" and "0 < e" and "e \<le> unat (sd_alignedAddress x)"
  shows "page_of (e - 1) < page_of (unat (sd_address x))"
proof -
  have "(2 :: nat) ^ k = 2 ^ (k - 12) * 0x1000" using assms(2) power_add [of "2 :: nat" "k - 12" 12] by simp
  then obtain j where j: "unat (sd_alignedAddress x) = j * 0x1000"
    using assms(1) by (simp add: aligned_def unat_alignDown mult.assoc [symmetric] del: mult.assoc)
  have "e - 1 < j * 0x1000" using assms(3,4) j by simp
  then have "page_of (e - 1) < j" by (simp add: page_of_def div_less_iff_less_mult)
  moreover have "j * 0x1000 \<le> unat (sd_address x)"
    using assms(1) j by (metis aligned_def div_times_less_eq_dividend unat_alignDown)
  then have "j \<le> page_of (unat (sd_address x))" unfolding page_of_def by (subst less_eq_div_iff_mult_less_eq) simp_all
  ultimately show ?thesis by simp
qed

text \<open>A run ends before the alignment boundary of every later run.\<close>

lemma runs_apart:
  assumes "laid_out (sd # xs)" and "\<forall>x \<in> set (sd # xs). aligned k x"
  shows "(\<forall>r \<in> set (runs sd xs). aligned k r) \<and> sorted_wrt (\<lambda>r r'. sd_end r \<le> unat (sd_alignedAddress r')) (runs sd xs)"
  using assms
proof (induction sd xs rule: runs.induct)
  case (1 sd)
  then show ?case by (simp add: aligned_def)
next
  case (2 sd x xs)
  show ?case
  proof (cases "shares_page sd x")
    case True
    have "aligned k (merge_section sd x)" using 2(4) by (simp add: aligned_def merge_section_def)
    then have "\<forall>y \<in> set (merge_section sd x # xs). aligned k y" using 2(4) by simp
    from 2(1) [OF True laid_out_merge [OF 2(3)] this] show ?thesis using True by simp
  next
    case False
    have "\<forall>y \<in> set (x # xs). aligned k y" using 2(4) by simp
    note ih = 2(2) [OF False laid_out_tl [OF 2(3)] this]
    have "sd_end sd < 2 ^ 64" using 2(3) by (simp add: laid_out_def)
    then have "unat (sd_address sd + sd_size sd) = sd_end sd"
      using unat_add_lem [of "sd_address sd" "sd_size sd"] by (simp add: sd_end_def)
    then have x: "sd_end sd \<le> unat (sd_alignedAddress x)" using False by (simp add: shares_page_def word_less_nat_alt not_less)
    have "sd_end sd \<le> unat (sd_alignedAddress r)" if "r \<in> set (runs x xs)" for r
    proof -
      have "unat (sd_alignedAddress x) \<le> unat (sd_alignedAddress r)"
        using 2(4) ih that by (intro aligned_mono [of k x r] runs_start [OF laid_out_tl [OF 2(3)] that]) simp_all
      then show ?thesis using x by simp
    qed
    then show ?thesis using False ih 2(4) by simp
  qed
qed

lemma sorted_wrt_apart:
  "sorted_wrt R rs \<Longrightarrow> r \<in> set rs \<Longrightarrow> r' \<in> set rs \<Longrightarrow> r \<noteq> r' \<Longrightarrow> R r r' \<or> R r' r"
  by (induction rs) auto

lemma runs_no_touch:
  assumes "aligned k d" "aligned k r" and "12 \<le> k" and "sd_end r \<le> unat (sd_alignedAddress d) \<or> sd_end d \<le> unat (sd_alignedAddress r)"
    and "covers r x" "sd_size x \<noteq> 0"
  shows "\<not> touches (sd_address d) (sd_size d) x"
proof
  assume t: "touches (sd_address d) (sd_size d) x"
  then have "0 < unat (sd_size d)" by (simp add: touches_def unat_gt_0)
  then have d: "0 < sd_end d" by (simp add: sd_end_def)
  have "0 < unat (sd_size x)" using assms(6) by (simp add: unat_gt_0)
  then have x: "0 < sd_end x" by (simp add: sd_end_def)
  have rx: "unat (sd_address r) \<le> unat (sd_address x)" "sd_end x \<le> sd_end r" using assms(5) by (simp_all add: covers_def)
  have mono: "page_of (unat (sd_address r)) \<le> page_of (unat (sd_address x))" using rx(1) by (simp add: page_of_def div_le_mono)
  from assms(4) show False
  proof
    assume "sd_end r \<le> unat (sd_alignedAddress d)"
    then show False using aligned_page [OF assms(1,3) x] rx(2) t by (simp add: touches_def)
  next
    assume "sd_end d \<le> unat (sd_alignedAddress r)"
    then show False using aligned_page [OF assms(2,3) d] mono t by (simp add: touches_def sd_end_def)
  qed
qed

lemma runs_pages:
  assumes lay: "laid_out (x0 # xs)" and al: "\<forall>x \<in> set (x0 # xs). aligned k x" "12 \<le> k"
    and x: "x \<in> set (x0 # xs)" "sd_size x \<noteq> 0" "\<not> discardable x"
    and cs_def: "cs = concat (map (run_call a0) (runs x0 xs))"
  shows "pages_right cs x"
proof -
  obtain r where r: "r \<in> set (runs x0 xs)" "covers r x" using runs_cover [OF lay] x(1) by (metis covers_refl set_ConsD)
  have nd: "\<not> discardable r" using r(2) x(3) by (simp add: covers_def)
  note apart = runs_apart [OF lay al(1)]
  have same: "d = r" if "d \<in> set (runs x0 xs)" "touches (sd_address d) (sd_size d) x" for d
    using sorted_wrt_apart [OF conjunct2 [OF apart] r(1) that(1)] runs_no_touch [of k d r x] apart r al(2) x(2) that by blast
  have "\<not> touches a n x" if free: "VirtualFree a n MEM_DECOMMIT \<in> set cs" for a n
  proof -
    obtain d where "d \<in> set (runs x0 xs)" "discardable d" "a = sd_address d" "n = sd_size d"
      using free unfolding cs_def by (auto simp: run_call_def split: if_splits)
    then show ?thesis using same [of d] nd by auto
  qed
  moreover have "(bit (sd_characteristics x) 29 \<longrightarrow> executable p) \<and> (bit (sd_characteristics x) 30 \<longrightarrow> readable p) \<and>
      (bit (sd_characteristics x) 31 \<longrightarrow> writable p)" if prot: "VirtualProtect a n p nc \<in> set cs" "touches a n x" for a n p nc
  proof -
    obtain d where d: "d \<in> set (runs x0 xs)" "a = sd_address d" "n = sd_size d" "p = ProtectionFlags ! unat (drop_bit 29 (sd_characteristics d))"
      using prot(1) unfolding cs_def by (auto simp: run_call_def split: if_splits)
    then have "d = r" using same [of d] prot(2) by simp
    then show ?thesis using d(4) r(2) protection_rights [of "sd_characteristics r"] by (auto simp: covers_def)
  qed
  ultimately show ?thesis by (simp add: pages_right_def)
qed

lemma section_list_aligned:
  assumes "opt32 ''SectionAlignment'' m hdr = 2 ^ k" and "k < 32"
  shows "\<forall>x \<in> set (section_list m hdr). aligned k x"
proof -
  have "(ucast (2 ^ k :: 32 word) :: addr) = 2 ^ k" using assms(2) by (intro bit_word_eqI) (auto simp: bit_simps)
  then show ?thesis using assms(1) by (auto simp: section_list_def section_data_def aligned_def Let_def split: prod.splits)
qed

text \<open>
  C22: page protection after loading. When the sections of the image lie in ascending order without overlap,
  the API calls succeed and leave the headers alone, then \<open>finalizeSections\<close> returns, and every section that
  has a size and is not discardable lies inside one \<open>VirtualProtect\<close> call whose protection allows at
  least what the section's flags ask for (execute, read, write), and no call decommits a range that overlaps it. This holds
  although sections that share a page are merged into one run with the union of their flags. When \<open>SectionAlignment\<close> is a power of two of
  at least the page size 4096, this is also true of whole pages, to which Windows rounds both calls: no page of the section is
  decommitted, and every \<open>VirtualProtect\<close> call that touches one of its pages allows what its flags ask for.
\<close>

theorem sections_protected:
  assumes "willing W (headers (module s))" and "opt32 ''SectionAlignment'' (wmem s) (headers (module s)) \<noteq> 0"
    and "section_list (wmem s) (headers (module s)) \<noteq> []" and "laid_out (section_list (wmem s) (headers (module s)))"
  shows "\<exists>s' cs. finalizeSections W s = (Done (), s') \<and> calls_since s s' cs \<and>
    (\<forall>x \<in> set (section_list (wmem s) (headers (module s))). sd_size x \<noteq> 0 \<and> \<not> discardable x \<longrightarrow>
      protected_by cs x \<and> left_committed cs x \<and>
      ((\<exists>k. 12 \<le> k \<and> k < 32 \<and> opt32 ''SectionAlignment'' (wmem s) (headers (module s)) = 2 ^ k) \<longrightarrow> pages_right cs x))"
proof -
  let ?hdr = "headers (module s)" and ?al = "opt32 ''SectionAlignment'' (wmem s) (headers (module s))"
  obtain base n where sec: "Sections (wmem s) ?hdr = (base, n)" by fastforce
  obtain x0 xs where xs: "section_list (wmem s) ?hdr = x0 # xs" using assms(3) by (cases "section_list (wmem s) ?hdr") auto
  define cs where "cs = concat (map (run_call (ucast ?al)) (runs x0 xs))"
  have n: "n = Suc (length xs)" using xs sec by (auto simp: section_list_def dest: arg_cong [where f = length])
  have x0: "section_data (wmem s) ?hdr (imageOffset (wmem s) ?hdr) (section_at base 0) = x0"
    using xs sec n by (auto simp: section_list_def upt_conv_Cons simp del: upt_Suc)
  have "unat w < 0x10000" for w :: "16 word" using unsigned_less [of w] by simp
  then have "n \<le> 0xffff" using sec by (auto simp: Sections_def less_Suc_eq_le [symmetric])
  then obtain s' where run: "finalizeSections W s = (Done (), s')" "calls_since s s' cs"
    using finalize_loop_runs [OF assms(1) refl assms(2) sec refl xs, where i = 1 and k = "0xffff" and sd = x0] n x0 sec
    by (auto simp: finalizeSections_def getM_def Let_def cs_def simp del: finalize_loop.simps)
  have lay: "laid_out (x0 # xs)" using assms(4) xs by simp
  have "pages_right cs x" if "12 \<le> k" "k < 32" "?al = 2 ^ k" "x \<in> set (x0 # xs)" "sd_size x \<noteq> 0" "\<not> discardable x" for k x
    using runs_pages [OF lay _ that(1,4-6) cs_def] section_list_aligned [OF that(3,2)] unfolding xs by blast
  then show ?thesis using run runs_protect [OF lay _ _ _ cs_def] unfolding xs by blast
qed

text \<open>
  The sample DLL with two sections that share the page at \<open>0x501000\<close>: one readable and executable, one
  readable and writable.
\<close>

definition two_bytes :: "(nat \<times> byte) list" where
  "two_bytes = [(0x46, 2), (0x151, 0x10), (0x152, 0x50), (0x179, 0x18), (0x17A, 0x50), (0x180, 0x20), (0x194, 0x40), (0x197, 0xC0)]"

definition two_sections :: mem where
  "two_sections a = (case map_of (two_bytes @ sample_bytes) (unat (a - 0x10000)) of None \<Rightarrow> 0 | Some b \<Rightarrow> b)"

definition quiet_api :: winapi where
  "quiet_api = \<lparr>answer = (\<lambda>t c m. (1, m)), BytePtrToString = (\<lambda>m a. [])\<rparr>"

lemma two_sections_list:
  "section_list two_sections 0x10040 =
     [\<lparr>sd_address = 0x501000, sd_alignedAddress = 0x501000, sd_size = 0x10, sd_characteristics = 0x60000020, sd_last = False\<rparr>,
      \<lparr>sd_address = 0x501800, sd_alignedAddress = 0x501000, sd_size = 0x20, sd_characteristics = 0xC0000040, sd_last = False\<rparr>]"
proof -
  note simps = two_sections_def two_bytes_def sample_simps
  have "Sections two_sections 0x10040 = (0x10148, 2)" by (simp add: Sections_def file16_def simps)
  moreover have "imageOffset two_sections 0x10040 = 0" by (simp add: imageOffset_def ImageBase_def simps)
  moreover have "opt32 ''SectionAlignment'' two_sections 0x10040 = 0x1000" by (simp add: opt32_def simps)
  moreover have "PhysicalAddress two_sections 0x10148 = 0x501000" "PhysicalAddress two_sections 0x10170 = 0x501800"
    "sec32 ''SizeOfRawData'' two_sections 0x10148 = 0x10" "sec32 ''SizeOfRawData'' two_sections 0x10170 = 0x20"
    "sec32 ''Characteristics'' two_sections 0x10148 = 0x60000020" "sec32 ''Characteristics'' two_sections 0x10170 = 0xC0000040"
    by (simp_all add: PhysicalAddress_def sec32_def simps)
  ultimately show ?thesis
    by (simp add: section_list_def section_data_def section_at_def pe_layout realSectionSize_def alignDown_def Let_def upt_rec)
qed

theorem sections_protected_witness:
  "\<exists>s' cs a n p nc. finalizeSections quiet_api \<lparr>wmem = two_sections, trace = [], module = empty_module\<lparr>headers := 0x10040\<rparr>\<rparr> = (Done (), s') \<and>
     calls_since \<lparr>wmem = two_sections, trace = [], module = empty_module\<lparr>headers := 0x10040\<rparr>\<rparr> s' cs \<and>
     VirtualProtect a n p nc \<in> set cs \<and> unat a \<le> 0x501800 \<and> 0x501820 \<le> unat a + unat n \<and> writable p"
proof -
  let ?s = "\<lparr>wmem = two_sections, trace = [], module = empty_module\<lparr>headers := 0x10040\<rparr>\<rparr>"
  have hdr: "headers (module ?s) = 0x10040" by (simp add: empty_module_def)
  have al: "opt32 ''SectionAlignment'' two_sections 0x10040 \<noteq> 0"
    by (simp add: opt32_def two_sections_def two_bytes_def sample_simps)
  have lay: "laid_out (section_list two_sections 0x10040)"
    unfolding two_sections_list by (simp add: laid_out_def sd_end_def)
  have "willing quiet_api 0x10040" by (simp add: willing_def quiet_api_def)
  note th = sections_protected [of quiet_api ?s, unfolded hdr, simplified loader.simps, OF this al _ lay]
  show ?thesis using th unfolding two_sections_list
    by (fastforce simp: discardable_def IMAGE_SCN_MEM_DISCARDABLE_def protected_by_def sd_end_def)
qed
end
