(* ===== verification/Pe_Copy.thy ===== *)
theory Pe_Copy
  imports Pe_Sections
begin

unbundle bit_operations_syntax

text \<open>
  What \<open>copySections\<close> leaves in memory: the loop that commits, copies or clears one section after the other,
  reading the section headers from the memory it writes to, is compared with a description of the image as a
  list of parts, each with its place, its size and the bytes it takes from the file. The description is read once,
  from the memory before the loop.
\<close>

section \<open>Cells and sets of addresses\<close>

lemma cell_add: "cell (a + c) n = (+) a ` cell c n"
  by (auto simp: cell_def image_image add.assoc)

lemma cell_offsets_apart:
  assumes "x + n \<le> y" and "y + k \<le> 2 ^ 64" and "0 < k"
  shows "cell (a + of_nat x) n \<inter> cell (a + of_nat y) k = {}"
proof -
  have "unat (of_nat x :: addr) = x" "unat (of_nat y :: addr) = y" using assms by (simp_all add: unat_of_nat)
  then have "cell (of_nat x) n \<inter> cell (of_nat y) k = {}" using assms by (intro cells_apart) simp_all
  then show ?thesis unfolding cell_add by (auto simp: image_iff)
qed

lemma in_cell_iff: "unat (b - a) < n \<longleftrightarrow> b \<in> cell a n" if "n \<le> 2 ^ 64" for a b :: addr
proof
  assume "unat (b - a) < n"
  then show "b \<in> cell a n" unfolding cell_def by (intro image_eqI [of _ _ "unat (b - a)"]) auto
next
  assume "b \<in> cell a n"
  then obtain i where "i < n" "b = a + of_nat i" by (auto simp: cell_def)
  with that show "unat (b - a) < n" by (simp add: unat_of_nat)
qed

lemma unat_ucast_le: "unat (ucast (w :: 32 word) :: addr) \<le> 2 ^ 64"
  unfolding unat_ucast_addr using unsigned_less [of w, where 'a = nat] by simp

lemma poken_at_cong: "m b = m' b \<Longrightarrow> poken n m a v b = poken n m' a v b"
proof (induction n arbitrary: m m' a v)
  case (Suc n)
  then show ?case unfolding poken.simps by (intro Suc.IH) simp
qed simp

section \<open>The parts of an image\<close>

record part =
  pt_at :: addr
  pt_len :: nat
  pt_from :: "addr option"  \<comment> \<open>\<open>None\<close>: filled with zeros\<close>
  pt_physical :: "32 word"  \<comment> \<open>what its header says afterwards\<close>

definition part_of :: "mem \<Rightarrow> addr \<Rightarrow> addr \<Rightarrow> addr \<Rightarrow> addr \<Rightarrow> part" where
  "part_of m code address old_headers sec =
     (let at = code + ucast (sec32 ''VirtualAddress'' m sec); raw = sec32 ''SizeOfRawData'' m sec
      in if raw = 0
         then \<lparr>pt_at = at, pt_len = unat (opt32 ''SectionAlignment'' m old_headers), pt_from = None, pt_physical = ucast at\<rparr>
         else \<lparr>pt_at = at, pt_len = unat raw, pt_from = Some (address + ucast (sec32 ''PointerToRawData'' m sec)),
                pt_physical = ucast (alignDown at 0x1000)\<rparr>)"

definition part_cells :: "part \<Rightarrow> addr set" where
  "part_cells p = cell (pt_at p) (pt_len p)"

definition part_byte :: "mem \<Rightarrow> part \<Rightarrow> addr \<Rightarrow> byte" where
  "part_byte m p b = (case pt_from p of None \<Rightarrow> 0 | Some a \<Rightarrow> m (a + (b - pt_at p)))"

definition phys_cell :: "addr \<Rightarrow> nat \<Rightarrow> addr set" where
  "phys_cell base i = cell (fieldp IMAGE_SECTION_HEADER ''physicalAddressOrVirtualSize'' (section_at base i)) 4"

definition phys_cells :: "addr \<Rightarrow> nat \<Rightarrow> addr set" where
  "phys_cells base n = (\<Union>i < n. phys_cell base i)"

definition table_cells :: "addr \<Rightarrow> nat \<Rightarrow> addr set" where
  "table_cells base n = cell base (40 * n)"

text \<open>The bytes of the file, and the one field of its headers that the loop reads.\<close>

definition file_cells :: "addr \<Rightarrow> addr \<Rightarrow> addr \<Rightarrow> addr set" where
  "file_cells address len old_headers = cell address (unat len) \<union> cell (opt_at ''SectionAlignment'' old_headers) 4"

text \<open>
  An image that can be loaded: every part lies inside the reserved region, apart from the file, from
  the table of section headers and from every other part, and takes its bytes from inside the file.
\<close>

definition in_file :: "mem \<Rightarrow> addr \<Rightarrow> addr \<Rightarrow> bool" where
  "in_file m len sec \<longleftrightarrow> unat (sec32 ''PointerToRawData'' m sec) + unat (sec32 ''SizeOfRawData'' m sec) \<le> unat len \<and>
     unat (sec32 ''PointerToRawData'' m sec) + unat (sec32 ''SizeOfRawData'' m sec) < 2 ^ 32"

definition loadable :: "mem \<Rightarrow> addr \<Rightarrow> nat \<Rightarrow> addr \<Rightarrow> addr \<Rightarrow> addr \<Rightarrow> addr \<Rightarrow> nat \<Rightarrow> bool" where
  "loadable m code image_size address len old_headers base n \<longleftrightarrow>
     opt32 ''SectionAlignment'' m old_headers \<noteq> 0 \<and> n \<le> 0xffff \<and>
     table_cells base n \<inter> file_cells address len old_headers = {} \<and>
     (\<forall>i < n. let p = part_of m code address old_headers (section_at base i)
        in in_file m len (section_at base i) \<and> unat (pt_at p - code) + pt_len p \<le> image_size \<and>
           part_cells p \<inter> (table_cells base n \<union> file_cells address len old_headers) = {} \<and>
           (\<forall>j < i. part_cells p \<inter> part_cells (part_of m code address old_headers (section_at base j)) = {}))"

text \<open>
  Committing memory of a region that is committed already succeeds, returns the start of the page and changes no
  byte.
\<close>

definition recommits :: "winapi \<Rightarrow> addr \<Rightarrow> nat \<Rightarrow> bool" where
  "recommits W code image_size \<longleftrightarrow> (\<forall>t a n m. unat (a - code) + unat n \<le> image_size \<longrightarrow>
     answer W t (VirtualAlloc a n MEM_COMMIT PAGE_READWRITE) m = (alignDown a 0x1000, m) \<and> alignDown a 0x1000 \<noteq> 0)"

section \<open>One section\<close>

lemma low_half [simp]: "(ucast (d AND 0xffffffff) :: 32 word) = ucast (d :: addr)"
proof (rule bit_word_eqI)
  have m: "(0xffffffff :: addr) = mask 32" by (simp add: mask_eq_exp_minus_1)
  fix k assume "k < LENGTH(32)"
  then show "bit (ucast (d AND 0xffffffff) :: 32 word) k \<longleftrightarrow> bit (ucast d :: 32 word) k"
    unfolding m by (simp add: bit_simps)
qed

lemma section_field:
  "fieldp IMAGE_SECTION_HEADER name (section_at base i) = base + of_nat (40 * i + offsetof IMAGE_SECTION_HEADER name)"
  by (simp add: fieldp_def section_at_def pe_layout add.assoc mult.commute)

lemma phys_cell_eq: "phys_cell base i = cell (base + of_nat (40 * i + 8)) 4"
  unfolding phys_cell_def section_field by (simp add: pe_layout)

lemma phys_in_table: "i < n \<Longrightarrow> phys_cell base i \<subseteq> table_cells base n"
  unfolding phys_cell_eq table_cells_def by (intro cell_sub) simp

lemma phys_cells_apart: "i \<noteq> j \<Longrightarrow> i \<le> 0xffff \<Longrightarrow> j \<le> 0xffff \<Longrightarrow> phys_cell base i \<inter> phys_cell base j = {}"
proof (induction i j rule: linorder_wlog)
  case (le i j)
  then show ?case unfolding phys_cell_eq by (intro cell_offsets_apart) simp_all
qed (auto simp: Int_commute)

text \<open>The fields that the loop reads are in the table and not among the fields it writes.\<close>

definition read_field :: "string \<Rightarrow> bool" where
  "read_field name \<longleftrightarrow> name \<in> {''VirtualAddress'', ''SizeOfRawData'', ''PointerToRawData''}"

lemma read_field_offset: "read_field name \<Longrightarrow> offsetof IMAGE_SECTION_HEADER name \<in> {12, 16, 20}"
  by (auto simp: read_field_def pe_layout)

lemma field_apart_phys:
  assumes "read_field name" and "i \<le> 0xffff" and "j \<le> 0xffff"
  shows "cell (fieldp IMAGE_SECTION_HEADER name (section_at base i)) 4 \<inter> phys_cell base j = {}"
proof -
  obtain k where k: "k \<in> {12, 16, 20}" "offsetof IMAGE_SECTION_HEADER name = k" using read_field_offset [OF assms(1)] by blast
  show ?thesis
  proof (cases "j \<le> i")
    case True
    then have "cell (base + of_nat (40 * j + 8)) 4 \<inter> cell (base + of_nat (40 * i + k)) 4 = {}"
      using k(1) assms by (intro cell_offsets_apart) auto
    then show ?thesis unfolding phys_cell_eq section_field k(2) by blast
  next
    case False
    then have "cell (base + of_nat (40 * i + k)) 4 \<inter> cell (base + of_nat (40 * j + 8)) 4 = {}"
      using k(1) assms by (intro cell_offsets_apart) auto
    then show ?thesis unfolding phys_cell_eq section_field k(2) by blast
  qed
qed

lemma field_in_table:
  assumes "read_field name" and "i < n"
  shows "cell (fieldp IMAGE_SECTION_HEADER name (section_at base i)) 4 \<subseteq> table_cells base n"
proof -
  have "offsetof IMAGE_SECTION_HEADER name \<le> 20" using read_field_offset [OF assms(1)] by auto
  then show ?thesis unfolding section_field table_cells_def using assms(2) by (intro cell_sub) simp
qed

definition input_cells :: "addr \<Rightarrow> addr \<Rightarrow> addr \<Rightarrow> addr \<Rightarrow> nat \<Rightarrow> addr set" where
  "input_cells address len old_headers base n =
     file_cells address len old_headers \<union> (table_cells base n - phys_cells base n)"

lemma same_fields:
  assumes "\<forall>b \<in> input_cells address len old_headers base n. m' b = m b" and "i < n" and "n \<le> 0xffff"
  shows "read_field name \<Longrightarrow> sec32 name m' (section_at base i) = sec32 name m (section_at base i)"
    and "opt32 ''SectionAlignment'' m' old_headers = opt32 ''SectionAlignment'' m old_headers"
proof -
  show "sec32 name m' (section_at base i) = sec32 name m (section_at base i)" if r: "read_field name"
    unfolding sec32_def
  proof (rule peek_cong(2))
    fix b assume b: "b \<in> cell (fieldp IMAGE_SECTION_HEADER name (section_at base i)) 4"
    have "b \<notin> phys_cells base n"
    proof
      assume "b \<in> phys_cells base n"
      then obtain j where "j < n" "b \<in> phys_cell base j" by (auto simp: phys_cells_def)
      then show False using field_apart_phys [OF r, of i j base] b assms(2,3) by auto
    qed
    then have "b \<in> input_cells address len old_headers base n"
      using field_in_table [OF r assms(2)] b by (auto simp: input_cells_def)
    then show "m' b = m b" using assms(1) by blast
  qed
  show "opt32 ''SectionAlignment'' m' old_headers = opt32 ''SectionAlignment'' m old_headers"
    unfolding opt32_def using assms(1) by (intro peek_cong(2)) (auto simp: input_cells_def file_cells_def)
qed

lemma loadableD:
  assumes "loadable m code image_size address len old_headers base n" and "i < n"
    and "p = part_of m code address old_headers (section_at base i)"
  shows "in_file m len (section_at base i)" and "unat (pt_at p - code) + pt_len p \<le> image_size"
    and "part_cells p \<inter> table_cells base n = {}" and "part_cells p \<inter> file_cells address len old_headers = {}"
    and "opt32 ''SectionAlignment'' m old_headers \<noteq> 0" and "n \<le> 0xffff"
    and "table_cells base n \<inter> file_cells address len old_headers = {}"
  using assms by (auto simp: loadable_def Let_def)

lemma in_file_size:
  assumes "in_file m len sec"
  shows "\<not> len < ucast (sec32 ''PointerToRawData'' m sec + sec32 ''SizeOfRawData'' m sec)"
proof -
  have "unat (sec32 ''PointerToRawData'' m sec + sec32 ''SizeOfRawData'' m sec) =
      unat (sec32 ''PointerToRawData'' m sec) + unat (sec32 ''SizeOfRawData'' m sec)"
    using assms by (intro unat_add_lem [THEN iffD1]) (simp add: in_file_def)
  then show ?thesis using assms by (simp add: word_less_nat_alt unat_ucast_addr in_file_def)
qed

lemma part_from_file:
  assumes "in_file m len sec" and "pt_from p = Some a" and "p = part_of m code address old_headers sec" and "b \<in> part_cells p"
  shows "a + (b - pt_at p) \<in> cell address (unat len)"
proof -
  let ?ptr = "sec32 ''PointerToRawData'' m sec" and ?raw = "sec32 ''SizeOfRawData'' m sec"
  have a: "a = address + ucast ?ptr" "pt_len p = unat ?raw"
    using assms(2,3) by (auto simp: part_of_def Let_def split: if_splits)
  obtain j where j: "j < pt_len p" "b = pt_at p + of_nat j" using assms(4) by (auto simp: part_cells_def cell_def)
  have "(ucast ?ptr :: addr) = of_nat (unat ?ptr)" by simp
  then have "a + (b - pt_at p) = address + of_nat (unat ?ptr + j)" using a j(2) by (simp add: add.assoc)
  moreover have "unat ?ptr + j < unat len" using assms(1) a(2) j(1) by (simp add: in_file_def)
  ultimately show ?thesis unfolding cell_def by blast
qed

text \<open>What a turn of the loop does to memory: the part is filled and its header field set.\<close>

definition filled :: "mem \<Rightarrow> part \<Rightarrow> addr \<Rightarrow> mem \<Rightarrow> mem \<Rightarrow> bool" where
  "filled m p sec m1 m2 \<longleftrightarrow> (\<forall>b \<in> part_cells p. m2 b = part_byte m p b) \<and>
     (\<forall>b. b \<notin> part_cells p \<and> b \<notin> cell (fieldp IMAGE_SECTION_HEADER ''physicalAddressOrVirtualSize'' sec) 4 \<longrightarrow> m2 b = m1 b) \<and>
     PhysicalAddress m2 sec = pt_physical p"

lemma filledI:
  assumes "part_cells p \<inter> cell (fieldp IMAGE_SECTION_HEADER ''physicalAddressOrVirtualSize'' sec) 4 = {}"
    and "\<forall>b \<in> part_cells p. m2 b = part_byte m p b"
    and "\<forall>b. b \<notin> part_cells p \<longrightarrow> m2 b = SetPhysicalAddress m1 sec (pt_physical p) b"
  shows "filled m p sec m1 m2"
proof -
  have "PhysicalAddress m2 sec = PhysicalAddress (SetPhysicalAddress m1 sec (pt_physical p)) sec"
    unfolding PhysicalAddress_def sec32_def using assms(1,3) by (intro peek_cong(2)) blast
  then show ?thesis using assms(2,3) by (auto simp: filled_def PhysicalAddress_def SetPhysicalAddress_def sec32_def)
qed

lemma copySection_fills:
  assumes load: "loadable m code image_size address len old_headers base n" and W: "recommits W code image_size"
    and i: "i < n" and agree: "\<forall>b \<in> input_cells address len old_headers base n. wmem s b = m b"
    and code: "codeBase (module s) = code" and p: "p = part_of m code address old_headers (section_at base i)"
  shows "\<exists>s'. copySection W address len old_headers (section_at base i) s = (Done (), s') \<and> module s' = module s \<and>
     filled m p (section_at base i) (wmem s) (wmem s')"
proof -
  let ?sec = "section_at base i"
  let ?raw = "sec32 ''SizeOfRawData'' m ?sec" and ?sa = "opt32 ''SectionAlignment'' m old_headers"
  note D = loadableD [OF load i p]
  note same = same_fields [OF agree i D(6)]
  have flds: "sec32 ''VirtualAddress'' (wmem s) ?sec = sec32 ''VirtualAddress'' m ?sec"
    "sec32 ''SizeOfRawData'' (wmem s) ?sec = ?raw"
    "sec32 ''PointerToRawData'' (wmem s) ?sec = sec32 ''PointerToRawData'' m ?sec"
    using same(1) by (simp_all add: read_field_def)
  have ph: "part_cells p \<inter> cell (fieldp IMAGE_SECTION_HEADER ''physicalAddressOrVirtualSize'' ?sec) 4 = {}"
    using D(3) phys_in_table [OF i] unfolding phys_cell_def by blast
  let ?at = "code + ucast (sec32 ''VirtualAddress'' m ?sec)"
  have at: "pt_at p = ?at" using p by (simp add: part_of_def Let_def)
  have commit: "answer W t (VirtualAlloc ?at (ucast k) MEM_COMMIT PAGE_READWRITE) m' = (alignDown ?at 0x1000, m') \<and>
      alignDown ?at 0x1000 \<noteq> 0" if "unat k = pt_len p" for t m' and k :: "32 word"
    using W [unfolded recommits_def, rule_format, of ?at "ucast k"] D(2) that by (simp add: at unat_ucast_addr)
  have cells: "b \<in> part_cells p \<longleftrightarrow> unat (b - ?at) < unat (ucast k :: addr)" if "unat k = pt_len p" for b and k :: "32 word"
    using in_cell_iff [OF unat_ucast_le, of b ?at k] that by (simp add: part_cells_def unat_ucast_addr at)
  show ?thesis
  proof (cases "?raw = 0")
    case True
    then have pp: "pt_len p = unat ?sa" "pt_from p = None" "pt_physical p = ucast ?at"
      using p by (simp_all add: part_of_def Let_def)
    have "filled m p ?sec (wmem s) (zero_fill (SetPhysicalAddress (wmem s) ?sec (ucast ?at)) ?at (ucast ?sa))"
      using pp by (intro filledI [OF ph]) (auto simp: zero_fill_def part_byte_def cells)
    then show ?thesis using True D(5) commit [OF pp(1) [symmetric]] same(2)
      by (simp add: copySection_def getM_def bindL_def invoke_def putM_def flds code Let_def)
  next
    case False
    let ?from = "address + ucast (sec32 ''PointerToRawData'' m ?sec)"
    have pp: "pt_len p = unat ?raw" "pt_from p = Some ?from" "pt_physical p = ucast (alignDown ?at 0x1000)"
      using False p by (simp_all add: part_of_def Let_def)
    have "wmem s (?from + (b - ?at)) = m (?from + (b - ?at))" if "b \<in> part_cells p" for b
      using agree part_from_file [OF D(1) pp(2) p that] by (auto simp: input_cells_def file_cells_def at)
    moreover have "SetPhysicalAddress m' ?sec v b = m' b" if "b \<in> part_cells p" for b m' v
      unfolding SetPhysicalAddress_def using ph that by (intro poke_outside(2)) blast
    moreover have "SetPhysicalAddress (memcpy (wmem s) ?at ?from (ucast ?raw)) ?sec v b = SetPhysicalAddress (wmem s) ?sec v b"
      if "b \<notin> part_cells p" for b v
      using that by (auto simp: SetPhysicalAddress_def poke32_def memcpy_def cells pp intro!: poken_at_cong)
    ultimately have "filled m p ?sec (wmem s) (SetPhysicalAddress (memcpy (wmem s) ?at ?from (ucast ?raw)) ?sec (ucast (alignDown ?at 0x1000)))"
      using pp by (intro filledI [OF ph]) (auto simp: memcpy_def part_byte_def cells at)
    moreover have "\<not> len < ucast (sec32 ''PointerToRawData'' m ?sec + ?raw)" using in_file_size [OF D(1)] .
    ultimately show ?thesis using False commit [OF pp(1) [symmetric]] same(2)
      by (simp add: copySection_def getM_def bindL_def invoke_def putM_def flds code Let_def)
  qed
qed

section \<open>The loop\<close>

text \<open>The image after the first \<open>k\<close> sections.\<close>

definition mapped :: "mem \<Rightarrow> (nat \<Rightarrow> part) \<Rightarrow> addr \<Rightarrow> nat \<Rightarrow> mem \<Rightarrow> bool" where
  "mapped m part base k m' \<longleftrightarrow>
     (\<forall>i < k. (\<forall>b \<in> part_cells (part i). m' b = part_byte m (part i) b) \<and>
        PhysicalAddress m' (section_at base i) = pt_physical (part i)) \<and>
     (\<forall>b. (\<forall>i < k. b \<notin> part_cells (part i)) \<and> b \<notin> phys_cells base k \<longrightarrow> m' b = m b)"

lemma mapped_agrees:
  assumes load: "loadable m code image_size address len old_headers base n" and "k \<le> n"
    and mp: "mapped m (\<lambda>i. part_of m code address old_headers (section_at base i)) base k m'"
  shows "\<forall>b \<in> input_cells address len old_headers base n. m' b = m b"
proof
  fix b assume b: "b \<in> input_cells address len old_headers base n"
  have "b \<notin> part_cells (part_of m code address old_headers (section_at base i))" if "i < k" for i
    using loadableD(3,4) [OF load _ refl, of i] that assms(2) b by (auto simp: input_cells_def)
  moreover have "b \<notin> phys_cells base k"
  proof
    assume "b \<in> phys_cells base k"
    then obtain i where i: "i < n" "b \<in> phys_cell base i"
      using assms(2) unfolding phys_cells_def by (metis UN_E lessThan_iff less_le_trans)
    then have "b \<in> table_cells base n" "b \<in> phys_cells base n" using phys_in_table [OF i(1)] by (auto simp: phys_cells_def)
    moreover have "table_cells base n \<inter> file_cells address len old_headers = {}" using loadableD(7) [OF load i(1) refl] .
    ultimately show False using b by (auto simp: input_cells_def)
  qed
  ultimately show "m' b = m b" using mp by (auto simp: mapped_def)
qed

lemma mapped_step:
  assumes load: "loadable m code image_size address len old_headers base n" and k: "k < n"
    and part: "part = (\<lambda>i. part_of m code address old_headers (section_at base i))"
    and mp: "mapped m part base k m1" and fl: "filled m (part k) (section_at base k) m1 m2"
  shows "mapped m part base (Suc k) m2"
proof -
  note D = loadableD [OF load _ refl]
  have new: "m2 b = m1 b" if "b \<notin> part_cells (part k)" "b \<notin> phys_cell base k" for b
    using fl that by (simp add: filled_def phys_cell_def)
  have apart: "part_cells (part i) \<inter> part_cells (part k) = {}" if "i < k" for i
    using load k that unfolding loadable_def part Let_def by (metis inf_commute)
  have tab: "part_cells (part i) \<inter> phys_cell base j = {}" if "i < n" "j < n" for i j
    using D(3) [OF that(1)] phys_in_table [OF that(2)] unfolding part by blast
  have old: "m2 b = m1 b" if "i < k" "b \<in> part_cells (part i)" for i b
    using apart [OF that(1)] tab [of i k] that k by (intro new) auto
  have "PhysicalAddress m2 (section_at base i) = PhysicalAddress m1 (section_at base i)" if i: "i < k" for i
    unfolding PhysicalAddress_def sec32_def
  proof (rule peek_cong(2))
    fix b assume b: "b \<in> cell (fieldp IMAGE_SECTION_HEADER ''physicalAddressOrVirtualSize'' (section_at base i)) 4"
    have "phys_cell base i \<inter> phys_cell base k = {}" using i k D(6) [OF k] by (intro phys_cells_apart) auto
    then show "m2 b = m1 b" using b tab [OF k, of i] i k by (intro new) (auto simp: phys_cell_def)
  qed
  then have "(\<forall>b \<in> part_cells (part i). m2 b = part_byte m (part i) b) \<and>
      PhysicalAddress m2 (section_at base i) = pt_physical (part i)" if "i < Suc k" for i
    using that mp fl old by (cases "i = k") (auto simp: mapped_def filled_def)
  moreover have "m2 b = m b" if "\<forall>i < Suc k. b \<notin> part_cells (part i)" "b \<notin> phys_cells base (Suc k)" for b
    using mp new [of b] that by (auto simp: mapped_def phys_cells_def less_Suc_eq lessThan_Suc)
  ultimately show ?thesis unfolding mapped_def by blast
qed

lemma copy_loop_maps:
  assumes load: "loadable m code image_size address len old_headers base n" and W: "recommits W code image_size"
    and part: "part = (\<lambda>i. part_of m code address old_headers (section_at base i))"
    and code: "codeBase (module s) = code" and "mapped m part base k (wmem s)" and "k + d = n"
  shows "\<exists>s'. forL (\<lambda>i. copySection W address len old_headers (section_at base i)) [k..<n] s = (Done (), s') \<and>
     module s' = module s \<and> mapped m part base n (wmem s')"
  using assms(4-)
proof (induction d arbitrary: k s)
  case 0
  then show ?case by (simp add: retL_def)
next
  case (Suc d)
  then have k: "k < n" by simp
  have "\<forall>b \<in> input_cells address len old_headers base n. wmem s b = m b"
    using Suc.prems(2) k unfolding part by (intro mapped_agrees [OF load]) simp_all
  from copySection_fills [OF load W k this Suc.prems(1) refl] obtain s1 where
    s1: "copySection W address len old_headers (section_at base k) s = (Done (), s1)" "module s1 = module s"
      "filled m (part k) (section_at base k) (wmem s) (wmem s1)" unfolding part by blast
  from mapped_step [OF load k part Suc.prems(2) s1(3)] Suc.IH [of s1 "Suc k"] s1(2) Suc.prems obtain s2 where
    "forL (\<lambda>i. copySection W address len old_headers (section_at base i)) [Suc k..<n] s1 = (Done (), s2)"
    "module s2 = module s" "mapped m part base n (wmem s2)" by auto
  then show ?case using s1(1) k by (simp add: upt_conv_Cons bindL_def)
qed

text \<open>
  C21: the sections of a loaded image. When the parts that the section headers describe lie inside the committed
  region, apart from each other, from the section table and from the file, and inside the file, then
  \<open>copySections\<close> returns without an error and the image is complete: every section with raw data holds the
  file's bytes at its virtual address, every section without is zero for one section alignment, every
  header names the physical address of its section, and no other byte has changed. This holds although the loop
  rereads the headers from the memory it is writing to.
\<close>

theorem sections_copied:
  assumes "Sections (wmem s) (headers (module s)) = (base, n)"
    and "loadable (wmem s) (codeBase (module s)) image_size address len old_headers base n"
    and "recommits W (codeBase (module s)) image_size"
  shows "\<exists>s'. copySections W address len old_headers s = (Done (), s') \<and> module s' = module s \<and>
     mapped (wmem s) (\<lambda>i. part_of (wmem s) (codeBase (module s)) address old_headers (section_at base i)) base n (wmem s')"
  using copy_loop_maps [OF assms(2,3) refl refl, of 0 n] assms(1)
  by (simp add: copySections_def getM_def mapped_def phys_cells_def)

text \<open>
  The sample DLL, read to \<open>0x10000\<close>, with its headers already copied to \<open>0x500000\<close>, and a second section
  without raw data.
\<close>

definition image_bytes :: "(nat \<times> byte) list" where
  "image_bytes = (0x46, 2) # (0x17D, 0x20) # sample_bytes"

definition image_mem :: mem where
  "image_mem a = (case map_of image_bytes (unat (if a < 0x500000 then a - 0x10000 else a - 0x500000)) of None \<Rightarrow> 0 | Some b \<Rightarrow> b)"

definition commit_api :: winapi where
  "commit_api = \<lparr>answer = (\<lambda>t c m. (case c of VirtualAlloc a n ty p \<Rightarrow> alignDown a 0x1000 | _ \<Rightarrow> 1, m)),
     BytePtrToString = (\<lambda>m a. [])\<rparr>"

lemma all_less_2: "(\<forall>i < (2 :: nat). P i) \<longleftrightarrow> P 0 \<and> P 1"
  by (auto simp: less_2_cases_iff)

lemma commit_api_recommits: "recommits commit_api 0x500000 0x3000"
proof -
  have "alignDown a 0x1000 \<noteq> 0" if "unat (a - 0x500000) \<le> 0x3000" for a :: addr
  proof -
    have "unat (0x500000 + (a - 0x500000)) = unat (0x500000 :: addr) + unat (a - 0x500000)"
      using that by (intro unat_add_lem [THEN iffD1]) simp
    then have "0x500000 \<le> unat a" by simp
    moreover have "(0x1000 :: addr) = 2 ^ 12" by simp
    ultimately have "unat (alignDown a 0x1000) \<noteq> 0" using unat_alignDown [of a 12] by simp
    then show ?thesis by auto
  qed
  then show ?thesis by (simp add: recommits_def commit_api_def)
qed

lemma image_mem_fields:
  "Sections image_mem 0x500040 = (0x500148, 2)" "opt32 ''SectionAlignment'' image_mem 0x10040 = 0x1000"
  "sec32 ''VirtualAddress'' image_mem 0x500148 = 0x1000" "sec32 ''SizeOfRawData'' image_mem 0x500148 = 0x10"
  "sec32 ''PointerToRawData'' image_mem 0x500148 = 0x200" "sec32 ''VirtualAddress'' image_mem 0x500170 = 0x2000"
  "sec32 ''SizeOfRawData'' image_mem 0x500170 = 0" "sec32 ''PointerToRawData'' image_mem 0x500170 = 0"
  by (simp_all add: Sections_def file16_def opt32_def sec32_def image_mem_def image_bytes_def sample_simps)

lemma image_mem_parts:
  "part_of image_mem 0x500000 0x10000 0x10040 (section_at 0x500148 0) =
     \<lparr>pt_at = 0x501000, pt_len = 0x10, pt_from = Some 0x10200, pt_physical = 0x501000\<rparr>"
  "part_of image_mem 0x500000 0x10000 0x10040 (section_at 0x500148 1) =
     \<lparr>pt_at = 0x502000, pt_len = 0x1000, pt_from = None, pt_physical = 0x502000\<rparr>"
  by (simp_all add: part_of_def section_at_def pe_layout image_mem_fields alignDown_def Let_def)

lemma image_mem_loadable: "loadable image_mem 0x500000 0x3000 0x10000 0x210 0x10040 0x500148 2"
proof -
  have sets: "table_cells 0x500148 2 = cell 0x500148 80" "file_cells 0x10000 0x210 0x10040 = cell 0x10000 0x210 \<union> cell 0x10078 4"
    by (simp_all add: table_cells_def file_cells_def opt_at_def fieldp_def pe_layout)
  have apart: "cell a n \<inter> cell b k = {}" if "unat b + k \<le> unat a" "unat a + n \<le> 2 ^ 64" for a b :: addr and n k
    using cells_apart [OF that] by blast
  have "cell 0x500148 80 \<inter> cell 0x10000 0x210 = {}" "cell 0x500148 80 \<inter> cell 0x10078 4 = {}"
    "cell 0x501000 0x10 \<inter> cell 0x500148 80 = {}" "cell 0x501000 0x10 \<inter> cell 0x10000 0x210 = {}"
    "cell 0x501000 0x10 \<inter> cell 0x10078 4 = {}" "cell 0x502000 0x1000 \<inter> cell 0x500148 80 = {}"
    "cell 0x502000 0x1000 \<inter> cell 0x10000 0x210 = {}" "cell 0x502000 0x1000 \<inter> cell 0x10078 4 = {}"
    "cell 0x502000 0x1000 \<inter> cell 0x501000 0x10 = {}"
    by (rule apart; simp)+
  moreover have "in_file image_mem 0x210 (section_at 0x500148 0)" "in_file image_mem 0x210 (section_at 0x500148 1)"
    by (simp_all add: in_file_def section_at_def pe_layout image_mem_fields)
  ultimately show ?thesis
    unfolding loadable_def sets by (simp add: image_mem_fields image_mem_parts part_cells_def Int_Un_distrib all_less_2 Let_def del: One_nat_def)
qed

theorem sections_copied_witness:
  "\<exists>s'. copySections commit_api 0x10000 0x210 0x10040
       \<lparr>wmem = image_mem, trace = [], module = empty_module\<lparr>headers := 0x500040, codeBase := 0x500000\<rparr>\<rparr> = (Done (), s') \<and>
     wmem s' 0x501000 = 0xC3 \<and> wmem s' 0x502fff = 0 \<and> PhysicalAddress (wmem s') 0x500170 = 0x502000"
proof -
  let ?s = "\<lparr>wmem = image_mem, trace = [], module = empty_module\<lparr>headers := 0x500040, codeBase := 0x500000\<rparr>\<rparr>"
  have h: "headers (module ?s) = 0x500040" "codeBase (module ?s) = 0x500000" "wmem ?s = image_mem" by simp_all
  obtain s' where s': "copySections commit_api 0x10000 0x210 0x10040 ?s = (Done (), s')"
    "mapped image_mem (\<lambda>i. part_of image_mem 0x500000 0x10000 0x10040 (section_at 0x500148 i)) 0x500148 2 (wmem s')"
    using sections_copied [of ?s, unfolded h, OF image_mem_fields(1) image_mem_loadable commit_api_recommits] by blast
  have "0x501000 \<in> cell 0x501000 0x10" "0x502fff \<in> cell 0x502000 0x1000"
    by (simp_all add: in_cell_iff [symmetric])
  moreover have "wmem s' b = part_byte image_mem \<lparr>pt_at = 0x501000, pt_len = 0x10, pt_from = Some 0x10200, pt_physical = 0x501000\<rparr> b"
    if "b \<in> cell 0x501000 0x10" for b
    using s'(2) that unfolding mapped_def all_less_2 image_mem_parts by (simp add: part_cells_def)
  moreover have "wmem s' b = part_byte image_mem \<lparr>pt_at = 0x502000, pt_len = 0x1000, pt_from = None, pt_physical = 0x502000\<rparr> b"
    if "b \<in> cell 0x502000 0x1000" for b
    using s'(2) that unfolding mapped_def all_less_2 image_mem_parts by (simp add: part_cells_def)
  ultimately have "wmem s' 0x501000 = image_mem 0x10200" "wmem s' 0x502fff = 0" by (simp_all add: part_byte_def)
  moreover have "image_mem 0x10200 = 0xC3" by (simp add: image_mem_def image_bytes_def sample_bytes_def)
  moreover have "PhysicalAddress (wmem s') (section_at 0x500148 1) = 0x502000"
    using s'(2) unfolding mapped_def all_less_2 image_mem_parts by simp
  moreover have "section_at 0x500148 1 = 0x500170" by (simp add: section_at_def pe_layout)
  ultimately show ?thesis using s'(1) by auto
qed

end
