(* ===== verification/Pe_Lookup.thy ===== *)
theory Pe_Lookup
  imports Pe_Resources
begin

unbundle bit_operations_syntax

text \<open>
  The table of exported names, the lookups \<open>ProcAddressByName\<close> and \<open>ProcAddressByOrdinal\<close>, and the
  bounds check on the position of the NT headers in \<open>LoadLibrary\<close>.
\<close>

section \<open>Exports\<close>

definition exports_at :: "mem \<Rightarrow> Module \<Rightarrow> addr" where
  "exports_at m md = codeBase md + ucast (dir_VirtualAddress m (headerDirectory (headers md) IMAGE_DIRECTORY_ENTRY_EXPORT))"

definition has_exports :: "mem \<Rightarrow> Module \<Rightarrow> bool" where
  "has_exports m md \<longleftrightarrow> dir_Size m (headerDirectory (headers md) IMAGE_DIRECTORY_ENTRY_EXPORT) \<noteq> 0 \<and>
     exp32 ''NumberOfNames'' m (exports_at m md) \<noteq> 0 \<and> exp32 ''NumberOfFunctions'' m (exports_at m md) \<noteq> 0"

definition exported :: "winapi \<Rightarrow> mem \<Rightarrow> Module \<Rightarrow> (string \<times> 16 word) list" where
  "exported W m md = export_names W m (codeBase md) (codeBase md + ucast (exp32 ''AddressOfNames'' m (exports_at m md)))
     (codeBase md + ucast (exp32 ''AddressOfNameOrdinals'' m (exports_at m md))) (unat (exp32 ''NumberOfNames'' m (exports_at m md)))"

lemma buildNameExports_state:
  assumes "has_exports (wmem s) (module s)"
  shows "buildNameExports W s =
    (Done (), s\<lparr>module := (module s)\<lparr>nameExports := Some (map_of (rev (exported W (wmem s) (module s))))\<rparr>\<rparr>)"
  using assms by (simp add: buildNameExports_def getM_def setM_def has_exports_def exports_at_def exported_def Let_def)

lemma ordinal_index:
  fixes idx :: "16 word" and b :: "32 word"
  assumes "unat idx + unat b < 2 ^ 16"
  shows "\<not> (ucast (idx + ucast b) :: 32 word) < b" and "(idx + ucast b) - ucast b = idx"
proof -
  have "unat (ucast b :: 16 word) = unat b" using assms by (subst unsigned_ucast_eq) (simp add: take_bit_nat_eq_self)
  then have "unat (idx + ucast b) = unat idx + unat b" using assms unat_add_lem [of idx "ucast b"] by simp
  then have "unat (ucast (idx + ucast b) :: 32 word) = unat idx + unat b"
    using assms by (subst unsigned_ucast_eq) (simp add: take_bit_nat_eq_self)
  then show "\<not> (ucast (idx + ucast b) :: 32 word) < b" by (simp add: word_less_nat_alt)
qed simp

text \<open>
  C26: lookup by name and by ordinal agree. After \<open>buildNameExports\<close> on an image with an export table whose
  names are distinct, looking up an exported name gives the same address or the same error as looking up
  the ordinal (index plus \<open>Base\<close>) behind that name, as long as the ordinal fits 16 bits; a name that is not in
  the table is not found.
\<close>

theorem exports_agree:
  assumes "has_exports (wmem s) (module s)" and "distinct (map fst (exported W (wmem s) (module s)))"
  shows "\<exists>s'. buildNameExports W s = (Done (), s') \<and> wmem s' = wmem s \<and>
    (\<forall>name idx. (name, idx) \<in> set (exported W (wmem s) (module s)) \<longrightarrow>
       unat idx + unat (exp32 ''Base'' (wmem s) (exports_at (wmem s) (module s))) < 2 ^ 16 \<longrightarrow>
       ProcAddressByName name (wmem s) (module s') =
         ProcAddressByOrdinal (idx + ucast (exp32 ''Base'' (wmem s) (exports_at (wmem s) (module s)))) (wmem s) (module s)) \<and>
    (\<forall>name. name \<notin> fst ` set (exported W (wmem s) (module s)) \<longrightarrow>
       ProcAddressByName name (wmem s) (module s') = Inl FunctionNotFoundByName)"
proof -
  let ?xs = "exported W (wmem s) (module s)"
  have "map_of (rev ?xs) name = Some idx" if "(name, idx) \<in> set ?xs" for name idx
    using that assms(2) by (intro map_of_is_SomeI) (simp_all add: rev_map [symmetric])
  moreover have "map_of (rev ?xs) name = None" if "name \<notin> fst ` set ?xs" for name using that by (simp add: map_of_eq_None_iff)
  ultimately show ?thesis
    using assms(1) by (auto simp: buildNameExports_state ProcAddressByName_def ProcAddressByOrdinal_def Let_def has_exports_def
      exports_at_def ordinal_index function_address_def)
qed

text \<open>
  An image at \<open>0x20000\<close> with its headers there, an export directory at \<open>0x20200\<close> and the function
  \<open>''f''\<close> exported with index 1 and base 5; the function table at \<open>0x20300\<close> holds \<open>0x111\<close> and \<open>0x222\<close>.
\<close>

definition export_bytes :: "(nat \<times> byte) list" where
  "export_bytes = [(0x89, 2), (0x8C, 40), (0x210, 5), (0x214, 2), (0x218, 1), (0x21D, 3), (0x221, 4), (0x225, 5),
     (0x300, 0x11), (0x301, 0x1), (0x304, 0x22), (0x305, 0x2), (0x401, 6), (0x500, 1)]"

definition export_image :: mem where
  "export_image a = (case map_of export_bytes (unat (a - 0x20000)) of None \<Rightarrow> 0 | Some b \<Rightarrow> b)"

definition name_api :: winapi where
  "name_api = \<lparr>answer = (\<lambda>t c m. (1, m)), BytePtrToString = (\<lambda>m a. if a = 0x20600 then ''f'' else [])\<rparr>"

definition export_module :: Module where
  "export_module = empty_module\<lparr>headers := 0x20000, codeBase := 0x20000\<rparr>"

lemma export_sample:
  "exports_at export_image export_module = 0x20200" "has_exports export_image export_module"
  "exported name_api export_image export_module = [(''f'', 1)]" "exp32 ''Base'' export_image 0x20200 = 5"
  "ProcAddressByOrdinal 6 export_image export_module = Inr 0x20222"
proof -
  note simps = export_image_def export_bytes_def peek16_def peek32_def peekn_bytes fieldp_def opt_at_def pe_layout
  have dir: "headerDirectory 0x20000 IMAGE_DIRECTORY_ENTRY_EXPORT = 0x20088"
    by (simp add: headerDirectory_def IMAGE_DIRECTORY_ENTRY_EXPORT_def simps)
  have mod: "headers export_module = 0x20000" "codeBase export_module = 0x20000" by (simp_all add: export_module_def)
  have d: "dir_VirtualAddress export_image 0x20088 = 0x200" "dir_Size export_image 0x20088 = 40"
    by (simp_all add: dir_VirtualAddress_def dir_Size_def simps)
  show at: "exports_at export_image export_module = 0x20200" by (simp add: exports_at_def mod dir d)
  have e: "exp32 ''NumberOfFunctions'' export_image 0x20200 = 2" "exp32 ''NumberOfNames'' export_image 0x20200 = 1"
    "exp32 ''AddressOfFunctions'' export_image 0x20200 = 0x300" "exp32 ''AddressOfNames'' export_image 0x20200 = 0x400"
    "exp32 ''AddressOfNameOrdinals'' export_image 0x20200 = 0x500"
    by (simp_all add: exp32_def simps)
  show base: "exp32 ''Base'' export_image 0x20200 = 5" by (simp add: exp32_def simps)
  show "has_exports export_image export_module" by (simp add: has_exports_def at mod dir d e)
  have "peek32 export_image 0x20400 = 0x600" "peek16 export_image 0x20500 = 1" by (simp_all add: simps)
  then show "exported name_api export_image export_module = [(''f'', 1)]"
    by (simp add: exported_def export_names_def at mod e name_api_def)
  have "peek32 export_image 0x20304 = 0x222" by (simp add: simps)
  then show "ProcAddressByOrdinal 6 export_image export_module = Inr 0x20222"
    by (simp add: ProcAddressByOrdinal_def function_address_def mod dir d e base)
qed

theorem exports_agree_witness:
  "\<exists>s'. buildNameExports name_api \<lparr>wmem = export_image, trace = [], module = export_module\<rparr> = (Done (), s') \<and>
     ProcAddressByName ''f'' export_image (module s') = Inr 0x20222 \<and>
     ProcAddressByName ''g'' export_image (module s') = Inl FunctionNotFoundByName"
  using exports_agree [of "\<lparr>wmem = export_image, trace = [], module = export_module\<rparr>" name_api]
  by (auto simp: export_sample)

section \<open>The position of the NT headers\<close>

text \<open>\<open>E_lfanew\<close> as the signed number the structure declares.\<close>

definition lfanew :: "mem \<Rightarrow> addr \<Rightarrow> int" where
  "lfanew m data = sint (peek32 m (data + 60))"

lemma E_lfanew_lfanew: "E_lfanew m data = of_int (lfanew m data)"
  by (simp add: E_lfanew_def lfanew_def fieldp_def pe_layout signed_scast_eq)

lemma lfanew_range: "- (2 ^ 31) \<le> lfanew m data \<and> lfanew m data < 2 ^ 31"
  unfolding lfanew_def using sint_range_size [of "peek32 m (data + 60)"] by (simp add: word_size)

lemma size_check: "uint len < 2 ^ 63 \<Longrightarrow> \<not> (len :: addr) < E_lfanew m data + 264 \<longleftrightarrow> - 264 \<le> lfanew m data \<and> lfanew m data + 264 \<le> uint len"
proof -
  assume "uint len < 2 ^ 63"
  let ?e = "lfanew m data"
  have "E_lfanew m data + 264 = of_int (?e + 264)" by (simp add: E_lfanew_lfanew)
  then have "uint (E_lfanew m data + 264) = (?e + 264) mod 2 ^ 64" by (simp only: uint_word_of_int) simp
  moreover have "(?e + 264) mod 2 ^ 64 = (if ?e + 264 < 0 then ?e + 264 + 2 ^ 64 else ?e + 264)"
  proof (cases "?e + 264 < 0")
    case True
    have "(?e + 264) mod 2 ^ 64 = (?e + 264 + 2 ^ 64) mod 2 ^ 64" by (rule mod_add_self2 [symmetric])
    also have "\<dots> = ?e + 264 + 2 ^ 64" using True lfanew_range [of m data] by (intro mod_pos_pos_trivial) auto
    finally show ?thesis using True by simp
  next
    case False
    then show ?thesis using lfanew_range [of m data] by (simp add: mod_pos_pos_trivial)
  qed
  ultimately show ?thesis unfolding word_less_def using lfanew_range [of m data] \<open>uint len < 2 ^ 63\<close> by (auto split: if_splits)
qed

text \<open>A file at \<open>0x10000\<close> whose NT headers are said to start 64 bytes before it.\<close>

definition backwards_bytes :: "(nat \<times> byte) list" where
  "backwards_bytes = [(0, 0x50), (1, 0x45), (4, 0x64), (5, 0x86), (0x40, 0x4D), (0x41, 0x5A),
     (0x7C, 0xC0), (0x7D, 0xFF), (0x7E, 0xFF), (0x7F, 0xFF)]"

definition backwards_file :: mem where
  "backwards_file a = (case map_of backwards_bytes (unat (a - 0xFFC0)) of None \<Rightarrow> 0 | Some b \<Rightarrow> b)"

lemma backwards_accepted: "check_headers amd64 backwards_file 0x10000 0x210 = Inr 0xFFC0"
proof -
  note simps = backwards_file_def backwards_bytes_def peek16_def peek32_def peekn_bytes fieldp_def opt_at_def pe_layout
  have "E_magic backwards_file 0x10000 = 0x5A4D" "E_lfanew backwards_file 0x10000 = - 0x40" "Signature backwards_file 0xFFC0 = 0x4550"
    "file16 ''Machine'' backwards_file 0xFFC0 = 0x8664" "opt32 ''SectionAlignment'' backwards_file 0xFFC0 = 0"
    by (simp_all add: E_magic_def E_lfanew_def Signature_def file16_def opt32_def simps)
  then show ?thesis
    by (simp add: check_headers_def pe_layout IMAGE_DOS_SIGNATURE_def IMAGE_NT_SIGNATURE_def imageFileProcess_def alignUp_def Let_def)
qed

text \<open>
  C27: what the check of \<open>E_lfanew\<close> ensures. If the headers are accepted (the length of a Go slice is
  below \<open>2 ^ 63\<close>) then the NT headers end inside the
  file, but they may start up to 264 bytes before it: the field is signed, the check adds the size of
  the headers first, and the sum of a small negative offset wraps around to a small number. A file with
  such an offset is accepted when the bytes in front of it look like NT headers.
\<close>

theorem nt_headers_bounds:
  "(uint len < 2 ^ 63 \<and> check_headers arch m data len = Inr oh \<longrightarrow>
      oh = data + of_int (lfanew m data) \<and> 64 \<le> uint len \<and> - 264 \<le> lfanew m data \<and> lfanew m data + 264 \<le> uint len) \<and>
   (\<exists>m. check_headers amd64 m 0x10000 0x210 = Inr 0xFFC0)"
proof -
  have "oh = data + of_int (lfanew m data) \<and> 64 \<le> uint len \<and> - 264 \<le> lfanew m data \<and> lfanew m data + 264 \<le> uint len"
    if "uint len < 2 ^ 63" "check_headers arch m data len = Inr oh"
  proof -
    have "\<not> len < 64" "\<not> len < E_lfanew m data + 264" "oh = data + E_lfanew m data"
      using that by (auto simp: check_headers_def pe_layout Let_def split: if_splits)
    then show ?thesis unfolding size_check [OF that(1)] by (simp add: E_lfanew_lfanew word_less_def)
  qed
  then show ?thesis using backwards_accepted by blast
qed

theorem nt_headers_bounds_witness: "lfanew sample_dll 0x10000 + 264 \<le> 0x210 \<and> (\<exists>m. check_headers amd64 m 0x10000 0x210 = Inr 0xFFC0)"
  using nt_headers_bounds [of "0x210" amd64 sample_dll "0x10000" "0x10040"] sample_checked by simp

end
