(* ===== verification/Wintun_Resource.thy ===== *)
theory Wintun_Resource
  imports Pe_Copy Pe_Lookup Lazy_Load
begin

text \<open>
  The driver's DLL as a resource of the executable: \<open>node/tun/wintun/resource\<close> (\<open>resource_windows.go\<close> with the
  generated wrappers of \<open>zsyscall_windows.go\<close>) and \<open>lazyDLL.Load\<close> of \<open>dll_fromrsrc_windows.go\<close>, which finds the
  resource, loads it into memory and gives its bytes to the PE loader. The calls of \<open>kernel32\<close> and
  \<open>version\<close> are the parameter \<open>resource_api\<close>: return value and error number.
\<close>

section \<open>Resources\<close>

datatype sys_error = EINVAL | IO_PENDING | SysErrno nat

text \<open>\<open>errnoErr\<close>, and the wrappers' reading of a return value of 0 as an error.\<close>

definition errnoErr :: "nat \<Rightarrow> sys_error option" where
  "errnoErr e = (if e = 0 then None else if e = 997 then Some IO_PENDING else Some (SysErrno e))"

definition wrapped :: "'a::zero \<times> nat \<Rightarrow> sys_error + 'a" where
  "wrapped r = (if fst r = 0 then Inl (if snd r \<noteq> 0 then the (errnoErr (snd r)) else EINVAL) else Inr (fst r))"

record resource_api =
  ra_find :: "addr \<Rightarrow> addr \<Rightarrow> addr \<Rightarrow> addr \<times> nat"  \<comment> \<open>module, name, type\<close>
  ra_size :: "addr \<Rightarrow> addr \<Rightarrow> addr \<times> nat"
  ra_load :: "addr \<Rightarrow> addr \<Rightarrow> addr \<times> nat"
  ra_lock :: "addr \<Rightarrow> addr \<times> nat"
  ra_ver :: "addr \<Rightarrow> (addr \<times> 32 word \<times> addr) \<times> nat"  \<comment> \<open>result, size and data\<close>
  ra_utf16 :: "string \<Rightarrow> sys_error + addr"

definition MAKEINTRESOURCE :: "16 word \<Rightarrow> addr" where
  "MAKEINTRESOURCE i = ucast i"

definition RT_RCDATA :: addr where "RT_RCDATA = MAKEINTRESOURCE 10"

definition findResource :: "resource_api \<Rightarrow> addr \<Rightarrow> addr \<Rightarrow> addr \<Rightarrow> sys_error + addr" where
  "findResource R hmod name resType = wrapped (ra_find R hmod name resType)"

definition sizeofResource :: "resource_api \<Rightarrow> addr \<Rightarrow> addr \<Rightarrow> sys_error + 32 word" where
  "sizeofResource R hmod resInfo =
     wrapped (ucast (fst (ra_size R hmod resInfo)), snd (ra_size R hmod resInfo))"

definition loadResource :: "resource_api \<Rightarrow> addr \<Rightarrow> addr \<Rightarrow> sys_error + addr" where
  "loadResource R hmod resInfo = wrapped (ra_load R hmod resInfo)"

definition lockResource :: "resource_api \<Rightarrow> addr \<Rightarrow> sys_error + addr" where
  "lockResource R resData = wrapped (ra_lock R resData)"

definition FindByID :: "resource_api \<Rightarrow> addr \<Rightarrow> 16 word \<Rightarrow> addr \<Rightarrow> sys_error + addr" where
  "FindByID R hmod i resType = findResource R hmod (MAKEINTRESOURCE i) resType"

definition FindByName :: "resource_api \<Rightarrow> addr \<Rightarrow> string \<Rightarrow> addr \<Rightarrow> sys_error + addr" where
  "FindByName R hmod name resType =
     (case ra_utf16 R name of Inl e \<Rightarrow> Inl e | Inr name16 \<Rightarrow> findResource R hmod name16 resType)"

datatype resource_error = UnableToSize sys_error | UnableToLoad sys_error | UnableToLock sys_error

text \<open>\<open>Load\<close>: the slice over the locked resource, as its address and length.\<close>

definition resource_Load :: "resource_api \<Rightarrow> addr \<Rightarrow> addr \<Rightarrow> resource_error + addr \<times> 32 word" where
  "resource_Load R hmod resInfo =
     (case sizeofResource R hmod resInfo of
        Inl e \<Rightarrow> Inl (UnableToSize e)
      | Inr sz \<Rightarrow>
          (case loadResource R hmod resInfo of
             Inl e \<Rightarrow> Inl (UnableToLoad e)
           | Inr resData \<Rightarrow>
               (case lockResource R resData of Inl e \<Rightarrow> Inl (UnableToLock e) | Inr ptr \<Rightarrow> Inr (ptr, sz))))"

definition VS_FIXEDFILEINFO :: "(string \<times> gotype) list" where
  "VS_FIXEDFILEINFO =
     [(''Signature'', Uint32), (''StrucVersion'', Uint32), (''FileVersionMS'', Uint32), (''FileVersionLS'', Uint32),
      (''ProductVersionMS'', Uint32), (''ProductVersionLS'', Uint32), (''FileFlagsMask'', Uint32), (''FileFlags'', Uint32),
      (''FileOS'', Uint32), (''FileType'', Uint32), (''FileSubtype'', Uint32), (''FileDateMS'', Uint32), (''FileDateLS'', Uint32)]"

text \<open>\<open>block\<close> is the address and the length of the slice; \<open>&block[0]\<close> panics when it is empty.\<close>

definition VerQueryRootValue :: "resource_api \<Rightarrow> addr \<times> nat \<Rightarrow> (sys_error option + addr) go" where
  "VerQueryRootValue R block =
     (if snd block = 0 then Panic ''index out of range''
      else
        (case ra_ver R (fst block) of
           ((r1, sz, data), e1) \<Rightarrow>
             Ret (case wrapped (r1, e1) of
                    Inl e \<Rightarrow> Inl (Some e)
                  | Inr _ \<Rightarrow>
                      if (ucast sz :: addr) < of_nat (go_size (Struct VS_FIXEDFILEINFO)) then Inl None
                      else Inr data)))"

section \<open>Loading the DLL from the resource\<close>

datatype rsrc_error = UnableToFind sys_error | UnableToLoadResource resource_error | UnableToLoadLibrary load_error

text \<open>
  \<open>Load\<close> by one goroutine: \<open>ready\<close> says that the module is published already. The loader's state carries
  the module.
\<close>

definition lazyDLL_Load_rsrc :: "nat \<Rightarrow> goarch \<Rightarrow> winapi \<Rightarrow> resource_api \<Rightarrow> string \<Rightarrow> bool \<Rightarrow> loader \<Rightarrow>
    (rsrc_error option) outcome \<times> bool \<times> loader" where
  "lazyDLL_Load_rsrc fuel arch W R name ready s =
     (if ready then (Done None, True, s)
      else
        (case FindByName R 0 name RT_RCDATA of
           Inl e \<Rightarrow> (Done (Some (UnableToFind e)), False, s)
         | Inr resInfo \<Rightarrow>
             (case resource_Load R 0 resInfo of
                Inl e \<Rightarrow> (Done (Some (UnableToLoadResource e)), False, s)
              | Inr (data, sz) \<Rightarrow>
                  (case LoadLibrary fuel arch W data (ucast sz) s of
                     (Done _, s') \<Rightarrow> (Done None, True, s')
                   | (Fail e, s') \<Rightarrow> (Done (Some (UnableToLoadLibrary e)), False, s')
                   | (Crash, s') \<Rightarrow> (Crash, False, s')
                   | (Stuck, s') \<Rightarrow> (Stuck, False, s')))))"

definition nameToAddr_rsrc :: "loader \<Rightarrow> string \<Rightarrow> load_error + addr" where
  "nameToAddr_rsrc s name = ProcAddressByName name (wmem s) (module s)"

text \<open>A failed load leaves the module unpublished and nothing behind; a slice from a resource is never empty.\<close>

lemma rsrc_size_nonzero: "resource_Load R m i = Inr (p, n) \<Longrightarrow> n \<noteq> 0"
  by (auto simp: resource_Load_def sizeofResource_def wrapped_def split: sum.splits if_splits)

lemma rsrc_load_balanced:
  assumes "balanced (trace s)" and "lazyDLL_Load_rsrc fuel arch W R name False s = (Done (Some e), l, s')"
  shows "\<not> l \<and> balanced (trace s')"
proof -
  have "s' = s \<or> (\<exists>data sz e'. LoadLibrary fuel arch W data (ucast (sz :: 32 word)) s = (Fail e', s'))" and "\<not> l"
    using assms(2) by (auto simp: lazyDLL_Load_rsrc_def split: sum.splits prod.splits outcome.splits)
  moreover have "balanced (trace s')" if "LoadLibrary fuel arch W data len s = (Fail e', s')" for data len e'
    using LoadLibrary_balances [where fuel = fuel and arch = arch and W = W and data = data and len = len, OF assms(1)] that by simp
  ultimately show ?thesis using assms(1) by blast
qed

end
