(* ===== verification/Windows_Tables.thy ===== *)
theory Windows_Tables
  imports Pe_Layout32 Wintun_Resource Tun_Windows
begin

text \<open>
  The constants and small operations of the Windows packages: the tables of \<open>memmod/syscall_windows.go\<close> and
  \<open>resource/resource_windows.go\<close>, the generated call wrappers of \<open>memmod/zsyscall_windows.go\<close>, the functions that
  \<open>wintun_windows.go\<close> and \<open>session_windows.go\<close> register with the DLL, pool names, and the rest of \<open>windowsDevice\<close>. Lemmas: the tables agree with the
  constants the loader uses and are unambiguous; every call into the DLL is to a registered function;
  a pool gives back its name.
\<close>

section \<open>Tables of the PE format\<close>

definition IMAGE_FILE_FLAGS :: "(string \<times> 16 word) list" where
  "IMAGE_FILE_FLAGS =
     [(''IMAGE_FILE_RELOCS_STRIPPED'', 0x0001), (''IMAGE_FILE_EXECUTABLE_IMAGE'', 0x0002),
      (''IMAGE_FILE_LINE_NUMS_STRIPPED'', 0x0004), (''IMAGE_FILE_LOCAL_SYMS_STRIPPED'', 0x0008),
      (''IMAGE_FILE_AGGRESIVE_WS_TRIM'', 0x0010), (''IMAGE_FILE_LARGE_ADDRESS_AWARE'', 0x0020),
      (''IMAGE_FILE_BYTES_REVERSED_LO'', 0x0080), (''IMAGE_FILE_32BIT_MACHINE'', 0x0100),
      (''IMAGE_FILE_DEBUG_STRIPPED'', 0x0200), (''IMAGE_FILE_REMOVABLE_RUN_FROM_SWAP'', 0x0400),
      (''IMAGE_FILE_NET_RUN_FROM_SWAP'', 0x0800), (''IMAGE_FILE_SYSTEM'', 0x1000),
      (''IMAGE_FILE_DLL'', 0x2000), (''IMAGE_FILE_UP_SYSTEM_ONLY'', 0x4000),
      (''IMAGE_FILE_BYTES_REVERSED_HI'', 0x8000)]"

definition IMAGE_FILE_MACHINES :: "(string \<times> 16 word) list" where
  "IMAGE_FILE_MACHINES =
     [(''IMAGE_FILE_MACHINE_UNKNOWN'', 0), (''IMAGE_FILE_MACHINE_TARGET_HOST'', 0x0001),
      (''IMAGE_FILE_MACHINE_I386'', 0x014c), (''IMAGE_FILE_MACHINE_R3000'', 0x0162),
      (''IMAGE_FILE_MACHINE_R4000'', 0x0166), (''IMAGE_FILE_MACHINE_R10000'', 0x0168),
      (''IMAGE_FILE_MACHINE_WCEMIPSV2'', 0x0169), (''IMAGE_FILE_MACHINE_ALPHA'', 0x0184),
      (''IMAGE_FILE_MACHINE_SH3'', 0x01a2), (''IMAGE_FILE_MACHINE_SH3DSP'', 0x01a3),
      (''IMAGE_FILE_MACHINE_SH3E'', 0x01a4), (''IMAGE_FILE_MACHINE_SH4'', 0x01a6),
      (''IMAGE_FILE_MACHINE_SH5'', 0x01a8), (''IMAGE_FILE_MACHINE_ARM'', 0x01c0),
      (''IMAGE_FILE_MACHINE_THUMB'', 0x01c2), (''IMAGE_FILE_MACHINE_ARMNT'', 0x01c4),
      (''IMAGE_FILE_MACHINE_AM33'', 0x01d3), (''IMAGE_FILE_MACHINE_POWERPC'', 0x01F0),
      (''IMAGE_FILE_MACHINE_POWERPCFP'', 0x01f1), (''IMAGE_FILE_MACHINE_IA64'', 0x0200),
      (''IMAGE_FILE_MACHINE_MIPS16'', 0x0266), (''IMAGE_FILE_MACHINE_ALPHA64'', 0x0284),
      (''IMAGE_FILE_MACHINE_MIPSFPU'', 0x0366), (''IMAGE_FILE_MACHINE_MIPSFPU16'', 0x0466),
      (''IMAGE_FILE_MACHINE_AXP64'', 0x0284), (''IMAGE_FILE_MACHINE_TRICORE'', 0x0520),
      (''IMAGE_FILE_MACHINE_CEF'', 0x0CEF), (''IMAGE_FILE_MACHINE_EBC'', 0x0EBC),
      (''IMAGE_FILE_MACHINE_AMD64'', 0x8664), (''IMAGE_FILE_MACHINE_M32R'', 0x9041),
      (''IMAGE_FILE_MACHINE_ARM64'', 0xAA64), (''IMAGE_FILE_MACHINE_CEE'', 0xC0EE)]"

definition IMAGE_DIRECTORY_ENTRIES :: "(string \<times> nat) list" where
  "IMAGE_DIRECTORY_ENTRIES =
     [(''IMAGE_DIRECTORY_ENTRY_EXPORT'', 0), (''IMAGE_DIRECTORY_ENTRY_IMPORT'', 1),
      (''IMAGE_DIRECTORY_ENTRY_RESOURCE'', 2), (''IMAGE_DIRECTORY_ENTRY_EXCEPTION'', 3),
      (''IMAGE_DIRECTORY_ENTRY_SECURITY'', 4), (''IMAGE_DIRECTORY_ENTRY_BASERELOC'', 5),
      (''IMAGE_DIRECTORY_ENTRY_DEBUG'', 6), (''IMAGE_DIRECTORY_ENTRY_COPYRIGHT'', 7),
      (''IMAGE_DIRECTORY_ENTRY_ARCHITECTURE'', 7), (''IMAGE_DIRECTORY_ENTRY_GLOBALPTR'', 8),
      (''IMAGE_DIRECTORY_ENTRY_TLS'', 9), (''IMAGE_DIRECTORY_ENTRY_LOAD_CONFIG'', 10),
      (''IMAGE_DIRECTORY_ENTRY_BOUND_IMPORT'', 11), (''IMAGE_DIRECTORY_ENTRY_IAT'', 12),
      (''IMAGE_DIRECTORY_ENTRY_DELAY_IMPORT'', 13), (''IMAGE_DIRECTORY_ENTRY_COM_DESCRIPTOR'', 14)]"

definition IMAGE_SCN_FLAGS :: "(string \<times> 32 word) list" where
  "IMAGE_SCN_FLAGS =
     [(''IMAGE_SCN_TYPE_REG'', 0x00000000), (''IMAGE_SCN_TYPE_DSECT'', 0x00000001),
      (''IMAGE_SCN_TYPE_NOLOAD'', 0x00000002), (''IMAGE_SCN_TYPE_GROUP'', 0x00000004),
      (''IMAGE_SCN_TYPE_NO_PAD'', 0x00000008), (''IMAGE_SCN_TYPE_COPY'', 0x00000010),
      (''IMAGE_SCN_CNT_CODE'', 0x00000020), (''IMAGE_SCN_CNT_INITIALIZED_DATA'', 0x00000040),
      (''IMAGE_SCN_CNT_UNINITIALIZED_DATA'', 0x00000080), (''IMAGE_SCN_LNK_OTHER'', 0x00000100),
      (''IMAGE_SCN_LNK_INFO'', 0x00000200), (''IMAGE_SCN_TYPE_OVER'', 0x00000400),
      (''IMAGE_SCN_LNK_REMOVE'', 0x00000800), (''IMAGE_SCN_LNK_COMDAT'', 0x00001000),
      (''IMAGE_SCN_MEM_PROTECTED'', 0x00004000), (''IMAGE_SCN_NO_DEFER_SPEC_EXC'', 0x00004000),
      (''IMAGE_SCN_GPREL'', 0x00008000), (''IMAGE_SCN_MEM_FARDATA'', 0x00008000),
      (''IMAGE_SCN_MEM_SYSHEAP'', 0x00010000), (''IMAGE_SCN_MEM_PURGEABLE'', 0x00020000),
      (''IMAGE_SCN_MEM_16BIT'', 0x00020000), (''IMAGE_SCN_MEM_LOCKED'', 0x00040000),
      (''IMAGE_SCN_MEM_PRELOAD'', 0x00080000), (''IMAGE_SCN_ALIGN_1BYTES'', 0x00100000),
      (''IMAGE_SCN_ALIGN_2BYTES'', 0x00200000), (''IMAGE_SCN_ALIGN_4BYTES'', 0x00300000),
      (''IMAGE_SCN_ALIGN_8BYTES'', 0x00400000), (''IMAGE_SCN_ALIGN_16BYTES'', 0x00500000),
      (''IMAGE_SCN_ALIGN_32BYTES'', 0x00600000), (''IMAGE_SCN_ALIGN_64BYTES'', 0x00700000),
      (''IMAGE_SCN_ALIGN_128BYTES'', 0x00800000), (''IMAGE_SCN_ALIGN_256BYTES'', 0x00900000),
      (''IMAGE_SCN_ALIGN_512BYTES'', 0x00A00000), (''IMAGE_SCN_ALIGN_1024BYTES'', 0x00B00000),
      (''IMAGE_SCN_ALIGN_2048BYTES'', 0x00C00000), (''IMAGE_SCN_ALIGN_4096BYTES'', 0x00D00000),
      (''IMAGE_SCN_ALIGN_8192BYTES'', 0x00E00000), (''IMAGE_SCN_ALIGN_MASK'', 0x00F00000),
      (''IMAGE_SCN_LNK_NRELOC_OVFL'', 0x01000000), (''IMAGE_SCN_MEM_DISCARDABLE'', 0x02000000),
      (''IMAGE_SCN_MEM_NOT_CACHED'', 0x04000000), (''IMAGE_SCN_MEM_NOT_PAGED'', 0x08000000),
      (''IMAGE_SCN_MEM_SHARED'', 0x10000000), (''IMAGE_SCN_MEM_EXECUTE'', 0x20000000),
      (''IMAGE_SCN_MEM_READ'', 0x40000000), (''IMAGE_SCN_MEM_WRITE'', 0x80000000)]"

definition IMAGE_REL_TYPES :: "(string \<times> 16 word) list" where
  "IMAGE_REL_TYPES =
     [(''IMAGE_REL_BASED_ABSOLUTE'', 0), (''IMAGE_REL_BASED_HIGH'', 1),
      (''IMAGE_REL_BASED_LOW'', 2), (''IMAGE_REL_BASED_HIGHLOW'', 3),
      (''IMAGE_REL_BASED_HIGHADJ'', 4), (''IMAGE_REL_BASED_MACHINE_SPECIFIC_5'', 5),
      (''IMAGE_REL_BASED_RESERVED'', 6), (''IMAGE_REL_BASED_MACHINE_SPECIFIC_7'', 7),
      (''IMAGE_REL_BASED_MACHINE_SPECIFIC_8'', 8), (''IMAGE_REL_BASED_MACHINE_SPECIFIC_9'', 9),
      (''IMAGE_REL_BASED_DIR64'', 10), (''IMAGE_REL_BASED_IA64_IMM64'', 9),
      (''IMAGE_REL_BASED_MIPS_JMPADDR'', 5), (''IMAGE_REL_BASED_MIPS_JMPADDR16'', 9),
      (''IMAGE_REL_BASED_ARM_MOV32'', 5), (''IMAGE_REL_BASED_THUMB_MOV32'', 7)]"

definition DLL_REASONS :: "(string \<times> addr) list" where
  "DLL_REASONS =
     [(''DLL_PROCESS_ATTACH'', 1), (''DLL_THREAD_ATTACH'', 2),
      (''DLL_THREAD_DETACH'', 3), (''DLL_PROCESS_DETACH'', 0)]"

definition resource_types :: "(string \<times> addr) list" where
  "resource_types =
     [(''RT_CURSOR'', MAKEINTRESOURCE 1), (''RT_BITMAP'', MAKEINTRESOURCE 2),
      (''RT_ICON'', MAKEINTRESOURCE 3), (''RT_MENU'', MAKEINTRESOURCE 4),
      (''RT_DIALOG'', MAKEINTRESOURCE 5), (''RT_STRING'', MAKEINTRESOURCE 6),
      (''RT_FONTDIR'', MAKEINTRESOURCE 7), (''RT_FONT'', MAKEINTRESOURCE 8),
      (''RT_ACCELERATOR'', MAKEINTRESOURCE 9), (''RT_RCDATA'', MAKEINTRESOURCE 10),
      (''RT_MESSAGETABLE'', MAKEINTRESOURCE 11), (''RT_GROUP_CURSOR'', MAKEINTRESOURCE 12),
      (''RT_GROUP_ICON'', MAKEINTRESOURCE 14), (''RT_VERSION'', MAKEINTRESOURCE 16),
      (''RT_DLGINCLUDE'', MAKEINTRESOURCE 17), (''RT_PLUGPLAY'', MAKEINTRESOURCE 19),
      (''RT_VXD'', MAKEINTRESOURCE 20), (''RT_ANICURSOR'', MAKEINTRESOURCE 21),
      (''RT_ANIICON'', MAKEINTRESOURCE 22), (''RT_HTML'', MAKEINTRESOURCE 23),
      (''RT_MANIFEST'', MAKEINTRESOURCE 24), (''CREATEPROCESS_MANIFEST_RESOURCE_ID'', MAKEINTRESOURCE 1),
      (''ISOLATIONAWARE_MANIFEST_RESOURCE_ID'', MAKEINTRESOURCE 2), (''ISOLATIONAWARE_NOSTATICIMPORT_MANIFEST_RESOURCE_ID'', MAKEINTRESOURCE 3),
      (''ISOLATIONPOLICY_MANIFEST_RESOURCE_ID'', MAKEINTRESOURCE 4), (''ISOLATIONPOLICY_BROWSER_MANIFEST_RESOURCE_ID'', MAKEINTRESOURCE 5),
      (''MINIMUM_RESERVED_MANIFEST_RESOURCE_ID'', MAKEINTRESOURCE 1), (''MAXIMUM_RESERVED_MANIFEST_RESOURCE_ID'', MAKEINTRESOURCE 16)]"

text \<open>A predefined type is below \<open>0x10000\<close>, where no string lies, so that the system can tell it from a name.\<close>

lemma resource_types_ordinal: "list_all (\<lambda>r. snd r < 0x10000) resource_types"
  by (simp add: resource_types_def MAKEINTRESOURCE_def)

lemma tables_agree:
  "map_of IMAGE_FILE_FLAGS ''IMAGE_FILE_DLL'' = Some IMAGE_FILE_DLL"
  "map_of IMAGE_FILE_MACHINES ''IMAGE_FILE_MACHINE_AMD64'' = Some (imageFileProcess amd64)"
  "map_of IMAGE_FILE_MACHINES ''IMAGE_FILE_MACHINE_ARM64'' = Some (imageFileProcess arm64)"
  "map_of IMAGE_FILE_MACHINES ''IMAGE_FILE_MACHINE_I386'' = Some (imageFileProcess_32 i386)"
  "map_of IMAGE_FILE_MACHINES ''IMAGE_FILE_MACHINE_ARMNT'' = Some (imageFileProcess_32 arm)"
  "map_of IMAGE_DIRECTORY_ENTRIES ''IMAGE_DIRECTORY_ENTRY_IMPORT'' = Some IMAGE_DIRECTORY_ENTRY_IMPORT"
  "map_of IMAGE_DIRECTORY_ENTRIES ''IMAGE_DIRECTORY_ENTRY_BASERELOC'' = Some IMAGE_DIRECTORY_ENTRY_BASERELOC"
  "map_of IMAGE_DIRECTORY_ENTRIES ''IMAGE_DIRECTORY_ENTRY_TLS'' = Some IMAGE_DIRECTORY_ENTRY_TLS"
  "map_of IMAGE_SCN_FLAGS ''IMAGE_SCN_CNT_INITIALIZED_DATA'' = Some IMAGE_SCN_CNT_INITIALIZED_DATA"
  "map_of IMAGE_SCN_FLAGS ''IMAGE_SCN_MEM_DISCARDABLE'' = Some IMAGE_SCN_MEM_DISCARDABLE"
  "map_of IMAGE_SCN_FLAGS ''IMAGE_SCN_MEM_NOT_CACHED'' = Some IMAGE_SCN_MEM_NOT_CACHED"
  "map_of IMAGE_REL_TYPES ''IMAGE_REL_BASED_HIGHLOW'' = Some IMAGE_REL_BASED_HIGHLOW"
  "map_of IMAGE_REL_TYPES ''IMAGE_REL_BASED_DIR64'' = Some IMAGE_REL_BASED_DIR64"
  "map_of DLL_REASONS ''DLL_PROCESS_ATTACH'' = Some DLL_PROCESS_ATTACH"
  by code_simp+

text \<open>The machine types that the loader accepts on its four targets are told apart from every other machine of the table.\<close>

lemma machines_unambiguous:
  "list_all (\<lambda>v. length (filter (\<lambda>e. snd e = v) IMAGE_FILE_MACHINES) = 1)
     [imageFileProcess amd64, imageFileProcess arm64, imageFileProcess_32 i386, imageFileProcess_32 arm]"
  by code_simp

text \<open>The three rights that \<open>finalizeSection\<close> reads are the top bits, in the order of its table of protections.\<close>

lemma section_rights:
  "map (\<lambda>f. map_of IMAGE_SCN_FLAGS f) [''IMAGE_SCN_MEM_EXECUTE'', ''IMAGE_SCN_MEM_READ'', ''IMAGE_SCN_MEM_WRITE''] =
     [Some (push_bit 29 1), Some (push_bit 30 1), Some (push_bit 31 1)]"
  by code_simp

section \<open>Generated wrappers\<close>

text \<open>\<open>memmod\<close>'s \<open>errnoErr\<close> gives \<open>EINVAL\<close> for 0, where \<open>resource\<close>'s gives nil.\<close>

definition errnoErr_memmod :: "nat \<Rightarrow> sys_error" where
  "errnoErr_memmod e = (if e = 0 then EINVAL else if e = 997 then IO_PENDING else SysErrno e)"

definition isBadReadPtr :: "winapi \<Rightarrow> addr \<Rightarrow> addr \<Rightarrow> bool act" where
  "isBadReadPtr W p ucb = bindL (invoke W (IsBadReadPtr p ucb)) (\<lambda>r0. retL (r0 \<noteq> 0))"

lemma wrapped_errnoErr: "wrapped r = (if fst r = 0 then Inl (errnoErr_memmod (snd r)) else Inr (fst r))"
  by (simp add: wrapped_def errnoErr_memmod_def errnoErr_def)

definition VirtualSize :: "mem \<Rightarrow> addr \<Rightarrow> 32 word" where
  "VirtualSize m sec = sec32 ''physicalAddressOrVirtualSize'' m sec"

definition SetVirtualSize :: "mem \<Rightarrow> addr \<Rightarrow> 32 word \<Rightarrow> mem" where
  "SetVirtualSize m sec v = poke32 m (fieldp IMAGE_SECTION_HEADER ''physicalAddressOrVirtualSize'' sec) v"

definition imp_Characteristics :: "mem \<Rightarrow> addr \<Rightarrow> 32 word" where
  "imp_Characteristics m p = imp32 ''characteristicsOrOriginalFirstThunk'' m p"

text \<open>\<open>addressList.free\<close>, as \<open>Free\<close> runs it over the blocked memory.\<close>

definition addressList_free :: "winapi \<Rightarrow> addr list \<Rightarrow> unit act" where
  "addressList_free W head = forL (\<lambda>a. bindL (invoke W (VirtualFree a 0 MEM_RELEASE)) (\<lambda>_. retL ())) head"

text \<open>\<open>unsafeSlice\<close>: length and capacity are set together, so that an append never writes behind the data.\<close>

record sliceHeader =
  sh_Data :: addr
  sh_Len :: int
  sh_Cap :: int

definition unsafeSlice :: "sliceHeader \<Rightarrow> addr \<Rightarrow> int \<Rightarrow> sliceHeader" where
  "unsafeSlice h data lenCap = h\<lparr>sh_Data := data, sh_Len := lenCap, sh_Cap := lenCap\<rparr>"

section \<open>Wintun\<close>

datatype loggerLevel = logInfo | logWarn | logErr

definition PacketSizeMax :: nat where "PacketSizeMax = 0xffff"
definition RingCapacityMin :: "32 word" where "RingCapacityMin = 0x20000"
definition RingCapacityMax :: "32 word" where "RingCapacityMax = 0x4000000"

definition adapter_procs :: "string list" where
  "adapter_procs =
     [''WintunCreateAdapter'', ''WintunDeleteAdapter'', ''WintunDeletePoolDriver'', ''WintunEnumAdapters'', ''WintunFreeAdapter'',
      ''WintunOpenAdapter'', ''WintunGetAdapterLUID'', ''WintunGetAdapterName'', ''WintunGetRunningDriverVersion'', ''WintunSetAdapterName'']"

definition session_procs :: "string list" where
  "session_procs =
     [''WintunAllocateSendPacket'', ''WintunEndSession'', ''WintunGetReadWaitEvent'', ''WintunReceivePacket'',
      ''WintunReleaseReceivePacket'', ''WintunSendPacket'', ''WintunStartSession'']"

text \<open>\<open>setupLogger\<close> registers a callback, whose address \<open>windows.NewCallback\<close> gives; the result of the call is not used.\<close>

definition setupLogger :: "64 word \<Rightarrow> world \<Rightarrow> unit go \<times> world" where
  "setupLogger callback w = call_then ''WintunSetLogger'' [callback] w (\<lambda>a w. (Ret (), w))"

text \<open>\<open>Pool.String\<close>: \<open>windows.UTF16ToString\<close> decodes the units before the first NUL.\<close>

definition Pool_String :: "(utf16 \<Rightarrow> string) \<Rightarrow> utf16 \<Rightarrow> string" where
  "Pool_String decode pool = decode (takeWhile (\<lambda>u. u \<noteq> 0) pool)"

lemma MakePool_String:
  assumes "UTF16FromString name = Inr (units @ [0])" and "0 \<notin> set units" and "length units < PoolNameMax" and "decode units = name"
  shows "\<exists>pool. MakePool UTF16FromString name = Inr pool \<and> length pool = PoolNameMax \<and> Pool_String decode pool = name"
proof -
  have "takeWhile (\<lambda>u. u \<noteq> 0) (units @ 0 # rest) = units" for rest
    using assms(2) by (induction units) auto
  then show ?thesis using assms by (auto simp: MakePool_def Pool_String_def)
qed

text \<open>The package's \<open>init\<close>: the pool is made before \<open>main\<close> runs, and an error is a panic.\<close>

definition wintunPool_init :: "(string \<Rightarrow> winerr + utf16) \<Rightarrow> utf16 go" where
  "wintunPool_init UTF16FromString =
     (case MakePool UTF16FromString ''Zetamesh'' of Inl e \<Rightarrow> Panic ''failed to make pool'' | Inr pool \<Rightarrow> Ret pool)"

lemma wintunPool_init_ok:
  assumes "UTF16FromString ''Zetamesh'' = Inr units" and "length units = 9"
  shows "\<exists>pool. wintunPool_init UTF16FromString = Ret pool"
  using assms by (simp add: wintunPool_init_def MakePool_def PoolNameMax_def)

definition windows_Name :: "windowsDevice \<Rightarrow> string" where
  "windows_Name d = wd_name d"

definition windows_Flush :: "windowsDevice \<Rightarrow> io_error option" where
  "windows_Flush d = None"

text \<open>The capacity that \<open>NewTUN\<close> asks for is a power of two between the bounds of the driver.\<close>

lemma session_capacity: "RingCapacityMin \<le> 0x800000 \<and> (0x800000 :: 32 word) \<le> RingCapacityMax \<and> (0x800000 :: 32 word) = push_bit 23 1"
  by code_simp

text \<open>Every operation calls registered functions only.\<close>

definition calls_within :: "string list \<Rightarrow> world \<Rightarrow> world \<Rightarrow> bool" where
  "calls_within ps w w' \<longleftrightarrow> (\<exists>t. wk_trace w' = wk_trace w @ t \<and> fst ` set t \<subseteq> set ps)"

lemma calls_within_trans:
  assumes "calls_within ps a b" and "calls_within ps b c"
  shows "calls_within ps a c"
proof -
  obtain t u where "wk_trace b = wk_trace a @ t" "wk_trace c = wk_trace b @ u" "fst ` set t \<subseteq> set ps" "fst ` set u \<subseteq> set ps"
    using assms by (auto simp: calls_within_def)
  then show ?thesis by (auto simp: calls_within_def intro!: exI [of _ "t @ u"])
qed

lemma call_then_within:
  assumes "name \<in> set ps" and "\<And>a w. calls_within ps w (snd (k a w))"
  shows "calls_within ps w (snd (call_then name args w k))"
proof -
  have call: "calls_within ps w (snd (dll_call name args w))"
    using assms(1) by (auto simp: dll_call_def calls_within_def split: option.splits list.splits)
  show ?thesis
  proof (cases "dll_call name args w")
    case (Pair r w')
    with call have "calls_within ps w w'" by simp
    then show ?thesis using Pair calls_within_trans [OF _ assms(2)] by (cases r) (auto simp: call_then_def)
  qed
qed

lemma calls_within_refl [simp]: "calls_within ps w w"
  by (simp add: calls_within_def)

lemma wintun_calls_registered:
  "calls_within session_procs w (snd (End s w))" "calls_within session_procs w (snd (ReadWaitEvent s w))"
  "calls_within session_procs w (snd (ReceivePacket s w))" "calls_within session_procs w (snd (ReleaseReceivePacket s p w))"
  "calls_within session_procs w (snd (AllocateSendPacket s n w))" "calls_within session_procs w (snd (StartSession wt c w))"
  "calls_within adapter_procs w (snd (freeAdapter wt w))" "calls_within adapter_procs w (snd (OpenAdapter u pool name w))"
  "calls_within adapter_procs w (snd (CreateAdapter u pool name g w))" "calls_within adapter_procs w (snd (Adapter_Delete wt b w))"
  "calls_within adapter_procs w (snd (Adapter_Name t wt w))" "calls_within adapter_procs w (snd (DeleteDriver pool w))"
  "calls_within adapter_procs w (snd (SetName u wt name w))" "calls_within adapter_procs w (snd (RunningVersion w))"
  "calls_within adapter_procs w (snd (LUID wt w))"
  unfolding End_def ReadWaitEvent_def ReceivePacket_def ReleaseReceivePacket_def AllocateSendPacket_def StartSession_def freeAdapter_def
    OpenAdapter_def CreateAdapter_def Adapter_Delete_def Adapter_Name_def DeleteDriver_def SetName_def RunningVersion_def LUID_def
  by (auto intro!: call_then_within simp: session_procs_def adapter_procs_def Let_def split: sum.splits)

end
