(* ===== verification/Cli.thy ===== *)
theory Cli
  imports Node Notifier Gateway_System
begin

text \<open>
  The command line (\<open>main.go\<close>): the log level, the two subcommands with their flags and defaults, and the exit
  status. Parsing of the command line belongs to \<open>cobra\<close>: its result is the argument of \<open>execute\<close>. The
  \<open>gateway\<close> command starts the notifier's dispatcher, \<open>join\<close> sets up a node.
\<close>

section \<open>Options\<close>

record gateway_Options =
  go_Host :: string
  go_Port :: int
  go_Concurrency :: int
  go_Key :: string
  go_TLSCert :: string
  go_TLSKey :: string

definition gateway_flags :: gateway_Options where
  "gateway_flags = \<lparr>go_Host = ''0.0.0.0'', go_Port = 2823, go_Concurrency = 128, go_Key = [], go_TLSCert = [], go_TLSKey = []\<rparr>"

definition join_flags :: Options where
  "join_flags = \<lparr>opt_Gateway = ''127.0.0.1:2823'', opt_Key = [], opt_Address = [], opt_TLS = False\<rparr>"

datatype log_level = ErrorLevel | WarnLevel | DebugLevel | InfoLevel

text \<open>\<open>strings.ToLower\<close> on ASCII letters; no other character is mapped to a letter of the three words.\<close>

definition to_lower :: "char \<Rightarrow> char" where
  "to_lower c = (let n = of_char c :: nat in if 65 \<le> n \<and> n \<le> 90 then char_of (n + 32) else c)"

definition parse_level :: "string \<Rightarrow> log_level" where
  "parse_level s =
     (let l = map to_lower s
      in if l = ''error'' then ErrorLevel else if l = ''warn'' then WarnLevel
         else if l = ''debug'' then DebugLevel else InfoLevel)"

section \<open>Commands\<close>

text \<open>What \<open>cobra\<close> is told of a command; the text of all three ends with the version.\<close>

record command =
  cmd_Use :: string
  cmd_Short :: string
  cmd_Version :: string
  cmd_SilenceUsage :: bool

definition newGatewayCmd :: "version_vars \<Rightarrow> command" where
  "newGatewayCmd vars =
     \<lparr>cmd_Use = ''gateway'', cmd_Short = ''Startup a zetamesh gateway server'',
      cmd_Version = Version_String (NewVersion vars []), cmd_SilenceUsage = False\<rparr>"

definition newJoinCmd :: "version_vars \<Rightarrow> command" where
  "newJoinCmd vars =
     \<lparr>cmd_Use = ''join'', cmd_Short = ''Join to a zetamesh and initialize the local network'',
      cmd_Version = Version_String (NewVersion vars []), cmd_SilenceUsage = True\<rparr>"

definition rootCmd :: "version_vars \<Rightarrow> command \<times> command list" where
  "rootCmd vars =
     (\<lparr>cmd_Use = ''zetamesh'', cmd_Short = ''ZetaMesh is use to establish the link between peers behind NAT'',
       cmd_Version = Version_String (NewVersion vars []), cmd_SilenceUsage = False\<rparr>,
      [newGatewayCmd vars, newJoinCmd vars])"

datatype cli =
    Gateway_cmd gateway_Options
  | Join_cmd Options
  | Other_cmd  \<comment> \<open>no subcommand, help or version\<close>
  | Bad_cmd string  \<comment> \<open>an error of the parser\<close>

datatype http_listener = ListenAndServe string | ListenAndServeTLS string string string

datatype cli_outcome =
    ShowHelp
  | Serving_gateway gateway http_listener
  | Serving_node node
  | Failed string "node option"
  | Fatal string  \<comment> \<open>\<open>zap.L().Fatal\<close>\<close>
  | Crashed string  \<comment> \<open>a panic\<close>

text \<open>
  \<open>gateway.Serve\<close> up to its loop. \<open>listen_udp\<close> and \<open>listen_http\<close> are the errors of the two servers, if they
  end with one: \<open>zap.L().Fatal\<close> then ends the process. A negative concurrency makes the notifier's goroutine panic;
  where the HTTP server fails as well, either may come first, and the panic is taken.
\<close>

definition http_listener_of :: "gateway_Options \<Rightarrow> http_listener" where
  "http_listener_of opt =
     (let addr = go_Host opt @ '':'' @ dec_int (go_Port opt)
      in if 0 < length (go_TLSCert opt) then ListenAndServeTLS addr (go_TLSCert opt) (go_TLSKey opt) else ListenAndServe addr)"

definition gateway_run :: "(int \<Rightarrow> string option) \<Rightarrow> (http_listener \<Rightarrow> string option) \<Rightarrow> gateway_Options \<Rightarrow> cli_outcome" where
  "gateway_run listen_udp listen_http opt =
     (case listen_udp (go_Port opt) of
        Some e \<Rightarrow> Fatal e
      | None \<Rightarrow>
          (case start_dispatcher (go_Concurrency opt) of
             Ret d \<Rightarrow>
               (case listen_http (http_listener_of opt) of
                  Some e \<Rightarrow> Fatal e
                | None \<Rightarrow> Serving_gateway (gw_init (go_Key opt) d) (http_listener_of opt))
           | Panic e \<Rightarrow> Crashed e
           | Block \<Rightarrow> Crashed []))"

definition join_run :: "serve_env \<Rightarrow> Options \<Rightarrow> cli_outcome" where
  "join_run env opt =
     (if opt_Address opt = [] then ShowHelp
      else
        (case Serve_setup env (New opt) of
           (Some e, n) \<Rightarrow> Failed ''Serve'' (Some (Stop n))
         | (None, n) \<Rightarrow> Serving_node n))"

definition execute :: "(int \<Rightarrow> string option) \<Rightarrow> (http_listener \<Rightarrow> string option) \<Rightarrow> serve_env \<Rightarrow> cli \<Rightarrow> cli_outcome" where
  "execute listen_udp listen_http env c =
     (case c of
        Gateway_cmd opt \<Rightarrow> gateway_run listen_udp listen_http opt
      | Join_cmd opt \<Rightarrow> join_run env opt
      | Other_cmd \<Rightarrow> ShowHelp
      | Bad_cmd e \<Rightarrow> Failed e None)"

text \<open>\<open>main\<close>: an error is printed, and the status is 0 all the same; \<open>None\<close> while the program is serving.\<close>

definition main_exit :: "cli_outcome \<Rightarrow> int option" where
  "main_exit r =
     (case r of
        Failed _ _ \<Rightarrow> Some 0
      | ShowHelp \<Rightarrow> Some 0
      | Fatal _ \<Rightarrow> Some 1
      | Crashed _ \<Rightarrow> Some 2
      | _ \<Rightarrow> None)"

lemma join_without_address: "execute listen_udp listen_http env (Join_cmd join_flags) = ShowHelp"
  by (simp add: execute_def join_run_def join_flags_def)

lemma join_failure_closes_socket:
  "execute listen_udp listen_http env (Join_cmd opt) = Failed e (Some n) \<Longrightarrow> \<not> nd_gateway n \<and> main_exit (Failed e (Some n)) = Some 0"
  by (auto simp: execute_def join_run_def Stop_def main_exit_def split: if_splits prod.splits option.splits)

lemma gateway_defaults_start:
  "\<exists>g. execute (\<lambda>_. None) (\<lambda>_. None) env (Gateway_cmd gateway_flags) = Serving_gateway g (ListenAndServe ''0.0.0.0:2823'') \<and>
     length (dp_chs (gw_disp g)) = 128"
proof -
  have "dec_int 2823 = ''2823''" by code_simp
  then show ?thesis
    by (simp add: execute_def gateway_run_def gateway_flags_def http_listener_of_def start_dispatcher_def gw_init_def)
qed

lemma gateway_serves_iff:
  "execute listen_udp listen_http env (Gateway_cmd opt) = Serving_gateway g h \<longleftrightarrow>
     listen_udp (go_Port opt) = None \<and> listen_http h = None \<and> h = http_listener_of opt \<and>
     (\<exists>d. start_dispatcher (go_Concurrency opt) = Ret d \<and> g = gw_init (go_Key opt) d)"
  by (auto simp: execute_def gateway_run_def split: option.splits go.splits)

lemma parse_level_default: "parse_level ''info'' = InfoLevel \<and> parse_level ''DeBug'' = DebugLevel \<and> parse_level ''x'' = InfoLevel"
  by code_simp

end
