(* ===== verification/Spec2Isabelle.thy ===== *)
theory Spec2Isabelle
  imports Relay_Size Close_Race Gateway_Safety Descriptor Shared_Protos Node_Device Lazy_Proc Windows_Tables Cli
begin

text \<open>
  A model of ZetaMesh (the Go program under \<open>src/\<close>) and its correctness theorems.

  \<^bold>\<open>The program.\<close> ZetaMesh joins machines into one virtual network. A \<^emph>\<open>node\<close> owns a virtual device with a
  virtual address; a packet the operating system sends through the device goes to the peer that owns the
  destination address. Nodes find each other through a \<^emph>\<open>gateway\<close>. Every node reports to the gateway by a UDP
  heartbeat, so the gateway's API server knows the public UDP address of every virtual address. To reach a
  peer for the first time a node asks the gateway over HTTP to open a tunnel; the gateway's notifier sends each
  of the two nodes the UDP address of the other until the node acknowledges it; the nodes then ping each other
  (hole punching), and the first valid pong turns a connecting connection into an established one, over
  which packets travel directly. Until then packets are relayed by the gateway. On Windows the device is a driver
  whose DLL is either a file or a resource of the executable, which a PE loader written in Go maps into memory.

  \<^bold>\<open>Theories, in the order of their imports.\<close>

  \<^item> \<open>Mesh_Prelude\<close>: Go's integer types as words, the outcome of statements (return, panic, blocked on a channel),
    buffered channels with their contract \<open>bounded_fifo\<close>, decimal notation. \<open>Go_Text\<close>: the parts of \<open>fmt\<close>,
    \<open>strconv\<close>, \<open>net.IP\<close> and \<open>unicode/utf8\<close> that the sources use.
  \<^item> \<open>Message\<close> (\<open>message/api.pb.go\<close>), \<open>Codec\<close> (\<open>codec/codec.go\<close>), \<open>Version\<close> (\<open>version/version.go\<close>), \<open>Constant\<close>
    (\<open>constant/constant.go\<close>): messages, framing and constants, and what the documentation of the protobuf library promises, as named predicates.
  \<^item> \<open>Wire\<close>: an instance of the protobuf library, which is not in the repository, in the documented encoding and with the struct
    tags of the messages; the contracts \<open>prefix_code\<close> and \<open>cut_code\<close> of readers that return the rest of their input are
    interpreted on variable-length integers and on records. It shows that the hypotheses on the library can hold
    together; theorems use it in witnesses only. \<open>Descriptor\<close> (the second half of \<open>message/api.pb.go\<close>): the raw descriptor, parsed,
    agrees with struct tags, enum tables and type tables; the registration of the types.
  \<^item> \<open>Api\<close> (\<open>api/errors.go\<close>, \<open>protocol.go\<close>, \<open>api_server.go\<close>) with the contract \<open>peer_directory\<close>; \<open>Api_Client\<close>
    (\<open>api_client.go\<close>). The server's decision on a request, the directory (the latest heartbeat wins), and the
    client's treatment of every response and of every failure of the transport.
  \<^item> \<open>Notifier\<close> (\<open>gateway/notifier.go\<close>) with the contract \<open>tunnel_notifier\<close>; \<open>Gateway\<close> (\<open>gateway/processor.go\<close>,
    \<open>gateway.go\<close>); \<open>Gateway_System\<close>: all goroutines of the gateway as the step relation \<open>gw_step\<close>. A notification
    lives until it is acknowledged, addresses are crossed over, packets are spread in turn, no relayed packet
    is lost or duplicated between the UDP loop and the workers, and nothing else is written. \<open>Gateway_Safety\<close>: no goroutine of
    the gateway panics, by an invariant on the counter of the dispatcher and on the strings of everything it holds.
  \<^item> \<open>Connection\<close> (\<open>node/connection.go\<close>, \<open>rand_string.go\<close>) with the interface \<open>packet_handler\<close> to its owner; \<open>Node\<close>
    (\<open>node/node.go\<close>, \<open>handler.go\<close>); \<open>Node_System\<close>: all goroutines of a node as the step relation \<open>node_step\<close>, with
    the invariant \<open>node_inv\<close>; \<open>Node_Properties\<close>. From every successful set-up, the table of connections stays
    consistent with the heap, no turn of a goroutine on a datagram or on a packet of at most \<open>MaxBufferSize\<close> bytes panics, only a valid pong establishes a connection,
    states only move forward, requests are rate limited, silent peers are dropped.
  \<^item> \<open>Shared_Protos\<close> (\<open>node/handler.go\<close>): the message objects of the package variable \<open>protos\<close>, which concurrent calls of
    \<open>handlePacket\<close> share, with one step per access. Calls that do not overlap are atomic, as \<open>node_step\<close> takes them
    (a simulation); overlapping calls can mix up peers. \<open>Close_Race\<close> (\<open>node/connection.go\<close>): \<open>close\<close> with one step per access
    to the channel. Calls that do not overlap are atomic; two overlapping calls can panic.
  \<^item> \<open>Mesh_System\<close>: any number of nodes, the gateway and an unreliable network between them as the step relation \<open>mesh_step\<close>
    (a datagram may be lost, repeated and reordered, and one that does not fit a receive buffer arrives cut off),
    with an invariant on everything in the machines' buffers and tables; \<open>Mesh_Properties\<close>: packets leave the network only
    at the node they are addressed to, connections and directory entries lead to the right
    node, and from a cold start packets get through. \<open>Relay_Size\<close>: which packets fit the relay, and what becomes of the others.
  \<^item> \<open>Tun\<close> (\<open>node/tun/tun.go\<close>) with the contract \<open>packet_device\<close>, interpreted in \<open>Tun_Linux\<close>, \<open>Tun_Darwin\<close> and
    \<open>Tun_Windows\<close> on the three devices (\<open>tun_linux.go\<close>, \<open>tun_darwin.go\<close>, \<open>tun_windows.go\<close>); \<open>Wintun\<close>
    (\<open>wintun/session_windows.go\<close>, \<open>wintun_windows.go\<close>); \<open>Node_Device\<close> puts \<open>serveDev\<close> on top of a device.
    Set-up with its error paths and clean-up, and round trips of packets.
  \<^item> \<open>Pe_Memory\<close>, \<open>Pe_Layout\<close>, \<open>Pe_Layout32\<close>, \<open>Pe_Reloc\<close>, \<open>Pe_Loader\<close> (\<open>wintun/memmod/\<close>): byte memory, the layout of the PE
    structures under Go's rules for both sizes of \<open>uintptr\<close>, base relocation, and \<open>LoadLibrary\<close> with everything it calls. \<open>Pe_Resources\<close>: a
    failed load, and a load followed by \<open>Free\<close>, gives back every region and library. \<open>Pe_Copy\<close>: the
    copied sections are the image that the headers describe. \<open>Pe_Sections\<close>: the page
    protection refines a merge of sections on lists. \<open>Pe_Lookup\<close>: exports by name and by ordinal agree; the
    bounds of the header check. In \<open>Pe_Reloc\<close> the two nested loops refine a fold over the decoded table.
  \<^item> \<open>Lazy_Load\<close> (\<open>wintun/dll_windows.go\<close>, \<open>dll_fromfile_windows.go\<close>): double-checked locking for any number of
    goroutines; \<open>Lazy_Proc\<close>: the procedures of the DLL, a second layer of it with one lock per procedure (the step relation
    \<open>find_step\<close>); \<open>Wintun_Resource\<close> (\<open>wintun/resource/\<close>, \<open>dll_fromrsrc_windows.go\<close>): loading from a resource;
    \<open>Windows_Tables\<close>: the constants of both packages and the remaining small operations.
  \<^item> \<open>Cli\<close> (\<open>main.go\<close>, the set-up of \<open>gateway.Serve\<close>): flags with their defaults, the commands, the listeners, the exit status.

  This theory holds the properties that span a node, the gateway and another node: the way of a relayed packet
  through three machines, the round trip of a notification, and the handshake.

  \<^bold>\<open>How state and effects are modelled.\<close> A Go struct is a record, an enum a datatype or a word, an interface
  value a datatype or a function. Objects that several goroutines share (connections) live in a heap of the
  record that owns them. A goroutine's loop is one definition per turn or per branch of its \<open>select\<close>; the step
  relations interleave turns of all goroutines, and a step that would block on a channel or on a
  mutex is not enabled. Datagrams, device writes and API calls are recorded in the state in their order. Errors
  and panics are values.

  \<^bold>\<open>Parameters.\<close> Code that is not in the repository is an argument: the protobuf library (\<open>proto_lib\<close>), the
  semver comparison, the resolver, the dialer, the packet decoder, HTTP (\<open>http_env\<close>), the kernel and the commands
  of the three systems (\<open>linux_env\<close>, \<open>darwin_env\<close>, \<open>world\<close>), the Windows API under the PE loader (\<open>winapi\<close>) and under
  the resource package (\<open>resource_api\<close>). What the theorems need of them is a named hypothesis
  (\<open>proto_typed\<close>, \<open>proto_roundtrip\<close>, \<open>proto_utf8\<close>, \<open>proto_cut\<close>, \<open>proto_sizes\<close>, \<open>marshals\<close>), which the instance in \<open>Wire\<close> satisfies; the witnesses instantiate
  the parameters with concrete functions.

  \<^bold>\<open>Loops and fuel.\<close> Loops over lists and ranges are structural. \<open>Read\<close> of the Windows device consumes one answer
  of the driver per turn and terminates because the list of answers is finite; running out of answers is
  the value for a blocked call. The reader of a sequence of records has one unit of fuel per byte, and it is proved that
  more changes nothing. The loop over sections runs at most \<open>0xffff\<close> times, the width of
  \<open>NumberOfSections\<close>. Four loops of the PE loader walk tables in memory that only a terminating
  entry ends, or repeat an allocation: \<open>reloc_blocks\<close>, \<open>import_loop\<close> with \<open>thunk_loop\<close>, \<open>tls_loop\<close> and
  \<open>check4GBBoundaries\<close>. They have fuel, and running out of it is a result of its own. For relocation it is proved
  that one unit more than the number of blocks is enough. The theorem on
  resources holds for any fuel and speaks about the runs that return.

  \<^bold>\<open>Not modelled.\<close> What the protobuf runtime does with the types registered by \<open>message/api.pb.go\<close> (the methods \<open>String\<close>, \<open>Type\<close>, \<open>Enum\<close> and
  \<open>Number\<close> only pass a value on to it); groups in its wire format; the HTTP multiplexer and the \<open>fn\<close> wrapper, which are libraries; logging through \<open>zap\<close>; the run of the PE loader on
  32-bit addresses (its structures and hooks are modelled for both widths); page faults (every address of the
  memory model can be read); data races on the fields of \<open>rateJuggler\<close>, which are updated for one goroutine at a
  time here, and on the fields of a connection; overlapping calls of \<open>close\<close> in the step relation of a node (\<open>Close_Race\<close> has
  them on their own); the garbage collector. A handler reads the fields of a shared message
  object in one step, although \<open>onOpenTunnel\<close> reads them one by one.
\<close>

section \<open>From the command lines to the network\<close>

text \<open>The start of \<open>Mesh_System\<close> is what the two commands of \<open>main.go\<close> bring up.\<close>

lemma commands_start_mesh:
  assumes "execute listen_udp listen_http env (Gateway_cmd opt) = Serving_gateway g h"
    and "\<And>i. execute listen_udp listen_http (envs i) (Join_cmd (opts i)) = Serving_node (nodes i)"
  shows "mesh_start opts envs (go_Concurrency opt) (go_Key opt) \<lparr>mesh_nodes = nodes, mesh_gateway = g, mesh_read = []\<rparr>"
proof -
  have "Serve_setup (envs i) (New (opts i)) = (None, nodes i)" for i
    using assms(2) [of i] by (auto simp: execute_def join_run_def split: if_splits prod.splits option.splits)
  then show ?thesis using assms(1) unfolding gateway_serves_iff by (auto simp: mesh_start_def)
qed

section \<open>Properties across components\<close>

text \<open>
  C6: the relay path of a packet, across three machines. While the connection to the peer is
  still connecting, a packet read from the device of node \<open>a\<close> goes to the gateway as a relay
  request; the gateway, with the peer in its directory and an empty relay queue, writes the
  packet behind the data type byte to the peer's UDP address; and node \<open>b\<close>, receiving that
  datagram, writes exactly the packet to its virtual device.
\<close>

theorem relay_path_delivers:
  assumes P: "proto_roundtrip P"
    and a: "nd_connections a v = Some p" "nd_heap a p = Some c" "c_state c = StateConnecting"
    and route: "dev_read_turn P decode a packet now = forward P a v packet now"
    and enc: "Encode P PacketType_Relay (MRelay \<lparr>relay_VirtAddress = v, relay_Data = packet\<rparr>) = Ret d"
      "length d \<le> MaxBufferSize" "length packet \<le> 4095"
    and g: "gw_pc g = Idle" "chan_buf (nt_queue (gw_notifier g)) = []" "chan_cap (nt_queue (gw_notifier g)) = 16"
      "Peer (gw_server g) v = Some info" "resolve (UDPAddress info) = Some target"
    and w: "dispatch_index (gw_disp g) = Ret i" "chan_buf (dp_chs (gw_disp g) ! i) = []"
      "0 < chan_cap (dp_chs (gw_disp g) ! i)"
    and b: "chan_buf (nd_pipeline b) = []" "chan_cap (nd_pipeline b) = 512"
  shows "\<exists>a' g' b'. node_run P dial decode a [NDevRead packet now] a' \<and> nd_gateway_out a' = nd_gateway_out a @ [d] \<and>
     gw_run P resolve vars semver g [LRecv remote d t, LQueue, LSend, LWorker i] g' \<and>
     gw_out g' = gw_out g @ [(EncodeRaw packet, target)] \<and>
     node_run P dial' decode' b [NPacket (EncodeRaw packet) later, NDevWrite] b' \<and>
     nd_dev_out b' = nd_dev_out b @ [packet]"
proof -
  let ?a = "gateway_write a d"
  have "c_state c \<noteq> StateEstablished" using a(3) by (simp add: State_defs)
  then have "dev_read_turn P decode a packet now = Ret ?a"
    using a enc(1) by (simp add: route forward_def)
  then have na: "node_run P dial decode a [NDevRead packet now] ?a" by (intro node_run_one node_step.dev_read)
  let ?pk = "\<lparr>pk_destination = UDPAddress info, pk_typ = PacketType_Data, pk_message = PayloadRaw packet\<rparr>"
  let ?n1 = "(gw_notifier g)\<lparr>nt_queue := (nt_queue (gw_notifier g))\<lparr>chan_buf := [?pk]\<rparr>\<rparr>"
  let ?g1 = "g\<lparr>gw_server := (gw_server g)\<lparr>srv_notifier := ?n1\<rparr>,
     gw_relayed := gw_relayed g @ newly_queued (gw_notifier g) ?n1\<rparr>"
  have turn: "serve_turn P (gw_server g) remote d t = Ret ((gw_server g)\<lparr>srv_notifier := ?n1\<rparr>)"
    using serve_turn_Encode [OF P enc(1,2), of "gw_server g" remote t] g
    by (simp add: process_relay_def relay_def chan_send_def chan_full_def gw_notifier_def)
  have "packetType_of d = PacketType_Relay"
    by (rule packetType_of_Encode [OF _ enc(1)]) (simp add: PacketType_defs)
  then have "gw_step P resolve vars semver g (LRecv remote d t) ?g1"
    using gw_step.recv [OF turn, of resolve vars semver] by (simp add: PacketType_defs)
  note step1 = run_snoc [OF gw_run.run_nil this]
  have idle: "gw_pc ?g1 = Idle" "chan_buf (nt_queue (gw_notifier ?g1)) = ?pk # []" using g(1) by simp_all
  have disp: "dispatch_index (gw_disp ?g1) = Ret i" "chan_buf (dp_chs (gw_disp ?g1) ! i) = []"
    "0 < chan_cap (dp_chs (gw_disp ?g1) ! i)" using w by simp_all
  obtain g1 g2 g3 where s: "gw_step P resolve vars semver ?g1 LQueue g1" "gw_step P resolve vars semver g1 LSend g2"
    "gw_step P resolve vars semver g2 (LWorker i) g3" and out: "gw_out g3 = gw_out ?g1 @ [(EncodeRaw packet, target)]"
    using relay_three_steps [where resolve = resolve, OF idle refl disp g(5)] by blast
  from run_snoc [OF run_snoc [OF run_snoc [OF step1 s(1)] s(2)] s(3)]
  have ng: "gw_run P resolve vars semver g [LRecv remote d t, LQueue, LSend, LWorker i] g3" by simp
  obtain b' where "node_run P dial' decode' b [NPacket (EncodeRaw packet) later, NDevWrite] b'"
    "nd_dev_out b' = nd_dev_out b @ [packet]"
    using raw_datagram_reaches_device [OF b enc(3)] by blast
  with na ng out show ?thesis by (intro exI [of _ ?a] exI [of _ g3] exI [of _ b']) simp
qed

definition relaying_node :: node where
  "relaying_node = (sample_node ''2.2.2.2:20'')\<lparr>nd_mask := [10, 0, 0, 0]\<rparr>"

definition relaying_gateway :: gateway where
  "relaying_gateway = (gw_init ''key'' (fresh_dispatcher 1))\<lparr>gw_server :=
     heartbeats (NewServer newNotifier ''key'') [(''2.2.2.2:20'', ''10.0.0.2'', 1)]\<rparr>"

theorem relay_path_delivers_witness:
  "\<exists>a' g' b' d. node_run sample_lib Some (\<lambda>_. Some (10, 0, 0, 2)) relaying_node [NDevRead [1, 2, 3] 9] a' \<and>
     gw_run sample_lib Some version_defaults (\<lambda>_. Inl ''bad'') relaying_gateway
       [LRecv ''1.1.1.1:10'' d 11, LQueue, LSend, LWorker 0] g' \<and>
     gw_out g' = [(EncodeRaw [1, 2, 3], ''2.2.2.2:20'')] \<and>
     node_run sample_lib Some (\<lambda>_. None) sample_start [NPacket (EncodeRaw [1, 2, 3]) 12, NDevWrite] b' \<and>
     nd_dev_out b' = [[1, 2, 3]]"
proof -
  let ?d = "1 # sample_put (MRelay \<lparr>relay_VirtAddress = ''10.0.0.2'', relay_Data = [1, 2, 3]\<rparr>)"
  have a: "nd_connections relaying_node ''10.0.0.2'' = Some 0" "nd_heap relaying_node 0 = Some sample_connection"
    "c_state sample_connection = StateConnecting"
    by (simp_all add: relaying_node_def sample_connection_def new_connection_def)
  have route: "dev_read_turn sample_lib (\<lambda>_. Some (10, 0, 0, 2)) relaying_node [1, 2, 3] 9 =
      forward sample_lib relaying_node ''10.0.0.2'' [1, 2, 3] 9"
    by (rule sample_route) (simp_all add: relaying_node_def sample_opt_def)
  have enc: "Encode sample_lib PacketType_Relay (MRelay \<lparr>relay_VirtAddress = ''10.0.0.2'', relay_Data = [1, 2, 3]\<rparr>) = Ret ?d"
    "length ?d \<le> MaxBufferSize" "length [1, 2, 3 :: byte] \<le> 4095"
    by (simp_all add: Encode_def sample_lib_def PacketType_defs MaxBufferSize_def)
  have g: "gw_pc relaying_gateway = Idle" "chan_buf (nt_queue (gw_notifier relaying_gateway)) = []"
    "chan_cap (nt_queue (gw_notifier relaying_gateway)) = 16"
    "Peer (gw_server relaying_gateway) ''10.0.0.2'' =
       Some \<lparr>VirtAddress = ''10.0.0.2'', UDPAddress = ''2.2.2.2:20'', LastHeartbeat = 1\<rparr>"
    "Some (UDPAddress \<lparr>VirtAddress = ''10.0.0.2'', UDPAddress = ''2.2.2.2:20'', LastHeartbeat = 1 :: time\<rparr>) = Some ''2.2.2.2:20''"
    by (simp_all add: relaying_gateway_def gw_init_def gw_notifier_def heartbeats_def Heartbeat_def NewServer_def
        newNotifier_def Peer_def)
  have w: "dispatch_index (gw_disp relaying_gateway) = Ret 0" "chan_buf (dp_chs (gw_disp relaying_gateway) ! 0) = []"
    "0 < chan_cap (dp_chs (gw_disp relaying_gateway) ! 0)"
    by (simp_all add: relaying_gateway_def gw_init_def dispatch_index_def fresh_dispatcher_def go_rem_def)
  have b: "chan_buf (nd_pipeline sample_start) = []" "chan_cap (nd_pipeline sample_start) = 512" by (simp_all add: New_def sample_start_def)
  have "gw_out relaying_gateway = []" "nd_dev_out sample_start = []"
    by (simp_all add: relaying_gateway_def gw_init_def New_def sample_start_def)
  with relay_path_delivers [where resolve = Some, OF sample_lib_roundtrip a route enc g w b,
      of Some version_defaults "\<lambda>_. Inl ''bad''" "''1.1.1.1:10''" 11 Some "\<lambda>_. None" 12]
  show ?thesis by auto
qed

text \<open>
  C8: the round trip of a notification. The datagram a worker writes for a pending notification
  makes the node that receives it hold a connection for the other peer's virtual address
  (dialled anew unless one with that UDP address exists) and answer with an acknowledgement;
  the gateway, receiving that acknowledgement from any address, removes exactly this
  notification from its table.
\<close>

theorem notification_round_trip:
  assumes P: "proto_roundtrip P" "marshals P"
    and wr: "worker_write P resolve (tunnel_packet p other k) = Ret (Some (d, target))"
    and n: "node_inv n" "dial (UDPAddress other) = Some dialled"
    and ack_fits: "\<And>ack. Encode P PacketType_OpenTunnelAck (MOpenTunnelAck \<lparr>ack_AckId = k\<rparr>) = Ret ack \<Longrightarrow>
      length ack \<le> MaxBufferSize"
  shows "\<exists>n' ack s'. handlePacket P dial rnd n d now = Ret n' \<and>
     (\<exists>q c. nd_connections n' (VirtAddress other) = Some q \<and> nd_heap n' q = Some c \<and>
        c_remote c \<in> {UDPAddress other, dialled}) \<and>
     nd_gateway_out n' = nd_gateway_out n @ [ack] \<and>
     serve_turn P s remote ack later = Ret s' \<and>
     pending_packet (srv_notifier s') = (pending_packet (srv_notifier s))(k := None) \<and> srv_peers s' = srv_peers s"
proof -
  let ?t = "\<lparr>tunnel_AckId = k, tunnel_VirtAddress = VirtAddress other, tunnel_UdpAddress = UDPAddress other\<rparr>"
  have d: "Encode P PacketType_OpenTunnel (MOpenTunnel ?t) = Ret d"
    using wr by (auto simp: worker_write_def tunnel_packet_def go_bind_Ret_iff split: option.splits)
  obtain ack where ack: "Encode P PacketType_OpenTunnelAck (MOpenTunnelAck \<lparr>ack_AckId = k\<rparr>) = Ret ack"
    by (rule marshals_EncodeE [OF P(2), of "MOpenTunnelAck \<lparr>ack_AckId = k\<rparr>"]) simp_all
  have gw: "serve_turn P s remote ack later = Ret (s\<lparr>srv_notifier := openTunnelAck (srv_notifier s) k\<rparr>)"
    using serve_turn_Encode [OF P(1) ack ack_fits [OF ack], of s remote later] by simp
  have "\<exists>n'. onOpenTunnel P dial n ?t now = Ret n' \<and> nd_gateway_out n' = nd_gateway_out n @ [ack] \<and>
      (\<exists>q c. nd_connections n' (VirtAddress other) = Some q \<and> nd_heap n' q = Some c \<and>
        c_remote c \<in> {UDPAddress other, dialled})"
  proof (cases "nd_connections n (VirtAddress other)")
    case None
    then show ?thesis using n(2) ack
      by (simp add: onOpenTunnel_def connect_unfold send_ack_def new_conn_node_def new_connection_def)
  next
    case (Some q)
    then obtain c where c: "nd_heap n q = Some c" using node_inv_tableD [OF n(1)] by blast
    show ?thesis
    proof (cases "c_remote c = UDPAddress other")
      case True
      then show ?thesis using Some c ack by (simp add: onOpenTunnel_def send_ack_def)
    next
      case False
      then show ?thesis using Some c ack n(2)
        by (simp add: onOpenTunnel_def connect_unfold send_ack_def new_conn_node_def new_connection_def)
    qed
  qed
  then obtain n' where n': "onOpenTunnel P dial n ?t now = Ret n'" "nd_gateway_out n' = nd_gateway_out n @ [ack]"
      "\<exists>q c. nd_connections n' (VirtAddress other) = Some q \<and> nd_heap n' q = Some c \<and>
        c_remote c \<in> {UDPAddress other, dialled}" by blast
  then show ?thesis
    using gw handlePacket_Encode(1) [OF P(1) d, of dial rnd n now]
    by (intro exI [of _ n'] exI [of _ ack] exI [of _ "s\<lparr>srv_notifier := openTunnelAck (srv_notifier s) k\<rparr>"])
      (simp add: tab.pending_ack)
qed

theorem notification_round_trip_witness:
  "\<exists>d n' ack s'. worker_write sample_lib Some (tunnel_packet peer_a peer_b 1) = Ret (Some (d, ''1.1.1.1:10'')) \<and>
     handlePacket sample_lib Some (\<lambda>_. 0) sample_start d 5 = Ret n' \<and> nd_connections n' ''10.0.0.2'' \<noteq> None \<and>
     nd_gateway_out n' = [ack] \<and>
     serve_turn sample_lib (NewServer (Notifier_OpenTunnel newNotifier peer_a peer_b) ''key'') ''1.1.1.1:10'' ack 6 = Ret s' \<and>
     pending_packet (srv_notifier s') 1 = None \<and> pending_packet (srv_notifier s') 2 \<noteq> None"
proof -
  obtain d where d: "worker_write sample_lib Some (tunnel_packet peer_a peer_b 1) = Ret (Some (d, ''1.1.1.1:10''))"
    by (simp add: worker_write_def tunnel_packet_def Encode_def sample_lib_def peer_a_def)
  have d1: "dec_nat (Suc 0) = ''1''" by code_simp
  have fits: "length ack \<le> MaxBufferSize"
    if "Encode sample_lib PacketType_OpenTunnelAck (MOpenTunnelAck \<lparr>ack_AckId = 1\<rparr>) = Ret ack" for ack
    using that by (auto simp: Encode_def sample_lib_def MaxBufferSize_def put_int_def d1)
  have "nd_gateway_out sample_start = []" "VirtAddress peer_b = ''10.0.0.2''"
    "pending_packet (srv_notifier (NewServer (Notifier_OpenTunnel newNotifier peer_a peer_b) ''key'')) 2 \<noteq> None"
    by (simp_all add: New_def sample_start_def peer_b_def NewServer_def pending_packet_def newNotifier_def)
  with notification_round_trip [where dial = Some, OF sample_lib_roundtrip sample_lib_marshals d Serve_setup_up(1) [OF sample_start_up] refl fits,
      of "\<lambda>_. 0" 5 "NewServer (Notifier_OpenTunnel newNotifier peer_a peer_b) ''key''" "''1.1.1.1:10''" 6] d
  show ?thesis by auto
qed

text \<open>
  C15: the handshake of two peers. Node \<open>a\<close> has a running connection to \<open>b\<close> whose connecting timer
  has fired, and \<open>b\<close> a running connection to \<open>a\<close> with an empty pipeline. The ping \<open>a\<close> writes is
  answered by \<open>b\<close> on its connection to \<open>a\<close>, and the pong establishes \<open>a\<close>'s connection and sets its
  keepalive time. Both datagrams fit the receive buffer and both addresses are valid UTF-8.
\<close>

theorem handshake_establishes:
  assumes P: "proto_roundtrip P" "marshals P"
    and a: "nd_connections a vb = Some p" "nd_heap a p = Some ca" "c_running ca" "c_state ca = StateConnecting"
      "c_connecting ca = Some due" "due \<le> sent" "selfVirtAddr ca = va"
    and b: "nd_connections b va = Some q" "nd_heap b q = Some cb" "c_running cb" "chan_buf (c_pipeline cb) = []"
      "chan_cap (c_pipeline cb) = 128" "opt_Address (nd_opt b) = vb"
    and valid: "utf8_string va" "utf8_string vb"
    and fits: "\<And>rnd d. Encode P PacketType_Ping (MPing \<lparr>ping_VirtAddress = va, ping_Nonce = randseq rnd 128\<rparr>) = Ret d \<Longrightarrow>
        length d \<le> MaxBufferSize"
      "\<And>rnd d. Encode P PacketType_Pong (MPong \<lparr>pong_VirtAddress = vb, pong_Nonce = randseq rnd 128\<rparr>) = Ret d \<Longrightarrow>
        length d \<le> MaxBufferSize"
  shows "\<exists>ping pong a1 b' a'. node_run P dial decode a [NConnecting p sent] a1 \<and>
     nd_peer_out a1 = nd_peer_out a @ [(c_remote ca, ping)] \<and>
     node_run P dial' decode' b [NPacket ping heard, NPipeline q] b' \<and> nd_peer_out b' = nd_peer_out b @ [(c_remote cb, pong)] \<and>
     node_run P dial decode a1 [NPacket pong answered] a' \<and>
     (\<exists>c. nd_heap a' p = Some c \<and> c_state c = StateEstablished \<and> c_keepalive c = answered)"
proof -
  let ?ping = "\<lparr>ping_VirtAddress = va, ping_Nonce = randseq (\<lambda>_. 0) 128\<rparr>"
  let ?pong = "\<lparr>pong_VirtAddress = vb, pong_Nonce = randseq (\<lambda>_. 0) 128\<rparr>"
  obtain d1 where d1: "Encode P PacketType_Ping (MPing ?ping) = Ret d1"
    by (rule marshals_EncodeE [OF P(2), of "MPing ?ping"]) (simp_all add: valid)
  obtain d2 where d2: "Encode P PacketType_Pong (MPong ?pong) = Ret d2"
    by (rule marshals_EncodeE [OF P(2), of "MPong ?pong"]) (simp_all add: valid)
  let ?ca = "ca\<lparr>c_connecting := Some (sent + ConnectingRetryDuration)\<rparr>"
  let ?a1 = "set_conn a p ?ca [d1]"
  have "loop_connecting P (\<lambda>_. 0) ca sent = Ret (?ca, [d1])"
    using a(4,7) d1 by (simp add: loop_connecting_def ping_def)
  then have s1: "node_step P dial decode a (NConnecting p sent) ?a1" by (rule node_step.connecting [OF a(2,3,5,6)])
  let ?cb = "cb\<lparr>c_pipeline := (c_pipeline cb)\<lparr>chan_buf := [d2]\<rparr>\<rparr>"
  let ?b1 = "b\<lparr>nd_heap := (nd_heap b)(q \<mapsto> ?cb)\<rparr>"
  have "handlePacket P dial' (\<lambda>_. 0) b d1 heard = Ret ?b1"
    using handlePacket_Encode(2) [OF P(1) d1] b d2 by (simp add: onPing_def chan_send_def chan_full_def)
  then have s2: "node_step P dial' decode' b (NPacket d1 heard) ?b1"
    using fits(1) [OF d1] by (intro node_step.packet) simp
  let ?b2 = "set_conn ?b1 q cb [d2]"
  have "loop_pipeline ?cb = Ret (cb, [d2])" using b(4) by (simp add: loop_pipeline_def chan_recv_def)
  then have s3: "node_step P dial' decode' ?b1 (NPipeline q) ?b2"
    using b(3) by (intro node_step.pipeline [where c = ?cb]) simp_all
  let ?a2 = "?a1\<lparr>nd_heap := (nd_heap ?a1)(p \<mapsto> pong_received ?ca answered)\<rparr>"
  have "handlePacket P dial (\<lambda>_. 0) ?a1 d2 answered = Ret ?a2"
    using handlePacket_Encode(3) [OF P(1) d2] a(1) by (simp add: onPong_def set_conn_def)
  then have s4: "node_step P dial decode ?a1 (NPacket d2 answered) ?a2"
    using fits(2) [OF d2] by (intro node_step.packet) simp
  have out: "nd_peer_out ?a1 = nd_peer_out a @ [(c_remote ca, d1)]" "nd_peer_out ?b2 = nd_peer_out b @ [(c_remote cb, d2)]"
    by (simp_all add: set_conn_def)
  have "c_keepalive (pong_received ?ca answered) = answered" "nd_heap ?a2 p = Some (pong_received ?ca answered)"
    by (simp_all add: pong_received_def Let_def)
  with out node_run_one [OF s1] node_run_append [OF node_run_one [OF s2] node_run_one [OF s3]] node_run_one [OF s4]
  show ?thesis
    by (intro exI [of _ d1] exI [of _ d2] exI [of _ ?a1] exI [of _ ?b2] exI [of _ ?a2]) simp
qed

definition peer_node :: node where
  "peer_node = (New (sample_opt\<lparr>opt_Address := ''10.0.0.2''\<rparr>))\<lparr>nd_connections := [''10.0.0.1'' \<mapsto> 0],
     nd_heap := [0 \<mapsto> loop_start (new_connection ''10.0.0.2'' ''10.0.0.1'' ''1.1.1.1:10'' 1) 2], nd_next := 1\<rparr>"

theorem handshake_establishes_witness:
  "\<exists>ping pong a1 b' a'. node_run sample_lib Some (\<lambda>_. None) running_node [NConnecting 0 3] a1 \<and>
     nd_peer_out a1 = [(''2.2.2.2:20'', ping)] \<and>
     node_run sample_lib Some (\<lambda>_. None) peer_node [NPacket ping 4, NPipeline 0] b' \<and> nd_peer_out b' = [(''1.1.1.1:10'', pong)] \<and>
     node_run sample_lib Some (\<lambda>_. None) a1 [NPacket pong 5] a' \<and>
     (\<exists>c. nd_heap a' 0 = Some c \<and> c_state c = StateEstablished \<and> c_keepalive c = 5)"
proof -
  let ?ca = "loop_start sample_connection 2"
  let ?cb = "loop_start (new_connection ''10.0.0.2'' ''10.0.0.1'' ''1.1.1.1:10'' 1) 2"
  have a: "nd_connections running_node ''10.0.0.2'' = Some 0" "nd_heap running_node 0 = Some ?ca" "c_running ?ca"
    "c_state ?ca = StateConnecting" "c_connecting ?ca = Some 2" "(2 :: time) \<le> 3" "selfVirtAddr ?ca = ''10.0.0.1''"
    by (simp_all add: running_node_simps loop_start_def sample_connection_def new_connection_def)
  have b: "nd_connections peer_node ''10.0.0.1'' = Some 0" "nd_heap peer_node 0 = Some ?cb" "c_running ?cb"
    "chan_buf (c_pipeline ?cb) = []" "chan_cap (c_pipeline ?cb) = 128" "opt_Address (nd_opt peer_node) = ''10.0.0.2''"
    by (simp_all add: peer_node_def loop_start_def new_connection_def New_def sample_start_def)
  have v: "utf8_string ''10.0.0.1''" "utf8_string ''10.0.0.2''" by (simp_all add: utf8_string_def)
  have fit: "Encode sample_lib PacketType_Ping (MPing \<lparr>ping_VirtAddress = ''10.0.0.1'', ping_Nonce = randseq rnd 128\<rparr>) = Ret d \<Longrightarrow>
      length d \<le> MaxBufferSize"
    "Encode sample_lib PacketType_Pong (MPong \<lparr>pong_VirtAddress = ''10.0.0.2'', pong_Nonce = randseq rnd 128\<rparr>) = Ret d \<Longrightarrow>
      length d \<le> MaxBufferSize" for rnd d
    by (auto simp: Encode_def sample_lib_def MaxBufferSize_def)
  have "nd_peer_out running_node = []" "c_remote ?ca = ''2.2.2.2:20''" "nd_peer_out peer_node = []" "c_remote ?cb = ''1.1.1.1:10''"
    by (simp_all add: running_node_def set_conn_def peer_node_def New_def sample_start_def loop_start_def sample_connection_def new_connection_def)
  with handshake_establishes [where dial = Some and decode = "\<lambda>_. None" and dial' = Some and decode' = "\<lambda>_. None"
      and heard = 4 and answered = 5, OF sample_lib_roundtrip sample_lib_marshals a b v fit]
  show ?thesis by simp
qed

end
